(* ===== verification/Prelude.thy ===== *)
theory Prelude
  imports Main "HOL-Library.Word" "HOL-Library.Sublist" "HOL-Library.Code_Target_Nat"
begin

text \<open>
  Shared vocabulary of the development: the machine integers of the Rust sources, the
  fallible-result type, the byte orders and saturating operations of the standard library the
  sources use, and the collections of rewrite rules the component theories add to.

  A Rust \<^verbatim>\<open>Result<T, E>\<close> is \<open>'e + 'a\<close> with \<open>Inl\<close> for \<^verbatim>\<open>Err\<close>; a \<^verbatim>\<open>u16\<close>, \<^verbatim>\<open>u32\<close> or
  \<^verbatim>\<open>u64\<close> is a word of that width; a \<^verbatim>\<open>usize\<close> is a \<^typ>\<open>nat\<close>; a \<^verbatim>\<open>HashMap\<close> is a partial
  map; a \<^verbatim>\<open>Duration\<close> and an \<^verbatim>\<open>Instant\<close> are counted in nanoseconds by a \<^typ>\<open>nat\<close>.
\<close>

named_theorems codec_simps \<open>encodings and their inverses\<close>
named_theorems str_simps \<open>rules for the string functions of the standard library\<close>
named_theorems policy_simps \<open>access-control predicates\<close>
named_theorems store_simps \<open>keyed stores\<close>

type_synonym byte = "8 word"
type_synonym u16 = "16 word"
type_synonym u32 = "32 word"
type_synonym u64 = "64 word"
type_synonym conn_id = u64
type_synonym session_id = u64
type_synonym nanos = nat

text \<open>\<^verbatim>\<open>IpAddr\<close> and \<^verbatim>\<open>SocketAddr\<close>.\<close>

datatype IpAddr = V4 "32 word" | V6 "128 word"

type_synonym SocketAddr = "IpAddr \<times> u16"

subsection \<open>Results\<close>

text \<open>The \<^verbatim>\<open>?\<close> operator: stop at the first error.\<close>

fun rbind :: "'e + 'a \<Rightarrow> ('a \<Rightarrow> 'e + 'b) \<Rightarrow> 'e + 'b" where
  "rbind (Inl e) f = Inl e"
| "rbind (Inr x) f = f x"

definition ok_or :: "'e \<Rightarrow> 'a option \<Rightarrow> 'e + 'a" where
  "ok_or e x = (case x of None \<Rightarrow> Inl e | Some v \<Rightarrow> Inr v)"

definition res_ok :: "'e + 'a \<Rightarrow> 'a option" where
  "res_ok r = (case r of Inl _ \<Rightarrow> None | Inr v \<Rightarrow> Some v)"

text \<open>\<^verbatim>\<open>Option::or_else\<close> and \<^verbatim>\<open>Option::unwrap_or\<close>.\<close>

definition or_else :: "'a option \<Rightarrow> 'a option \<Rightarrow> 'a option" where
  "or_else a b = (case a of Some x \<Rightarrow> Some x | None \<Rightarrow> b)"

definition unwrap_or :: "'a option \<Rightarrow> 'a \<Rightarrow> 'a" where
  "unwrap_or a d = (case a of Some x \<Rightarrow> x | None \<Rightarrow> d)"

text \<open>\<^verbatim>\<open>iter().map(f).collect::<Result<Vec<_>>>()\<close>: in order, up to the first error.\<close>

fun try_map :: "('a \<Rightarrow> 'e + 'b) \<Rightarrow> 'a list \<Rightarrow> 'e + 'b list" where
  "try_map f [] = Inr []"
| "try_map f (x # xs) = rbind (f x) (\<lambda>y. rbind (try_map f xs) (\<lambda>ys. Inr (y # ys)))"

text \<open>The outcome of an operation that may never complete: \<open>Pending\<close> is a call that does not
  return.\<close>

datatype 'a poll = Ready 'a | Pending

fun poll_bind :: "'a poll \<Rightarrow> ('a \<Rightarrow> 'b poll) \<Rightarrow> 'b poll" where
  "poll_bind (Ready x) f = f x"
| "poll_bind Pending f = Pending"

subsection \<open>Byte orders\<close>

text \<open>Little-endian digits to base 256 and their value; the \<^verbatim>\<open>to_be_bytes\<close>, \<^verbatim>\<open>from_be_bytes\<close> and
  \<^verbatim>\<open>to_le_bytes\<close> of the integer types are read off them.\<close>

fun le_digits :: "nat \<Rightarrow> nat \<Rightarrow> byte list" where
  "le_digits 0 n = []"
| "le_digits (Suc k) n = word_of_nat (n mod 256) # le_digits k (n div 256)"

fun le_value :: "byte list \<Rightarrow> nat" where
  "le_value [] = 0"
| "le_value (b # bs) = unat b + 256 * le_value bs"

definition be_bytes32 :: "u32 \<Rightarrow> byte list" where
  "be_bytes32 w = rev (le_digits 4 (unat w))"

definition of_be_bytes32 :: "byte list \<Rightarrow> u32" where
  "of_be_bytes32 bs = word_of_nat (le_value (rev bs))"

definition le_bytes64 :: "u64 \<Rightarrow> byte list" where
  "le_bytes64 w = le_digits 8 (unat w)"

definition be_bytes64 :: "u64 \<Rightarrow> byte list" where
  "be_bytes64 w = rev (le_digits 8 (unat w))"

subsection \<open>Saturating arithmetic\<close>

definition sat_add32 :: "u32 \<Rightarrow> u32 \<Rightarrow> u32" where
  "sat_add32 a b = (if unat a + unat b < 2 ^ 32 then a + b else - 1)"

definition abs_diff64 :: "u64 \<Rightarrow> u64 \<Rightarrow> u64" where
  "abs_diff64 a b = (if a < b then b - a else a - b)"

definition sat_sub64 :: "u64 \<Rightarrow> u64 \<Rightarrow> u64" where
  "sat_sub64 a b = (if a < b then 0 else a - b)"

text \<open>\<^verbatim>\<open>Duration::MAX\<close>: \<^verbatim>\<open>u64::MAX\<close> seconds and 999999999 nanoseconds.\<close>

definition duration_max :: nanos where
  "duration_max = (2 ^ 64 - 1) * 1000000000 + 999999999"

definition secs :: "nat \<Rightarrow> nanos" where
  "secs n = n * 1000000000"

definition millis :: "nat \<Rightarrow> nanos" where
  "millis n = n * 1000000"

definition dur_saturating_mul :: "nanos \<Rightarrow> u32 \<Rightarrow> nanos" where
  "dur_saturating_mul d k = min (d * unat k) duration_max"

definition dur_checked_mul :: "nanos \<Rightarrow> u32 \<Rightarrow> nanos option" where
  "dur_checked_mul d k = (if d * unat k \<le> duration_max then Some (d * unat k) else None)"

subsection \<open>Lemmas on results\<close>

lemma rbind_eq_Inr [simp]: "rbind r f = Inr y \<longleftrightarrow> (\<exists>x. r = Inr x \<and> f x = Inr y)"
  by (cases r) auto

lemma ok_or_eq_Inr [simp]: "ok_or e x = Inr v \<longleftrightarrow> x = Some v"
  by (auto simp: ok_or_def split: option.splits)

lemma res_ok_simps [simp]: "res_ok (Inl e) = None" "res_ok (Inr v) = Some v"
  by (simp_all add: res_ok_def)

lemma res_ok_eq_Some [simp]: "res_ok r = Some v \<longleftrightarrow> r = Inr v"
  by (cases r) auto

lemma poll_bind_eq_Ready [simp]: "poll_bind p f = Ready y \<longleftrightarrow> (\<exists>x. p = Ready x \<and> f x = Ready y)"
  by (cases p) auto

lemma try_map_Inr_length: "try_map f xs = Inr ys \<Longrightarrow> length ys = length xs"
  by (induction xs arbitrary: ys) auto

lemma try_map_Inr_nth:
  "try_map f xs = Inr ys \<Longrightarrow> i < length xs \<Longrightarrow> f (xs ! i) = Inr (ys ! i)"
  by (induction xs arbitrary: ys i) (auto simp: nth_Cons split: nat.splits)

lemma try_map_Inl: "try_map f xs = Inl e \<Longrightarrow> \<exists>x \<in> set xs. f x = Inl e"
proof (induction xs)
  case Nil
  then show ?case by simp
next
  case (Cons x xs)
  then show ?case by (cases "f x"; cases "try_map f xs") auto
qed

subsection \<open>Lemmas on bytes\<close>

lemma length_le_digits [simp]: "length (le_digits k n) = k"
  by (induction k arbitrary: n) auto

lemma length_be_bytes32 [simp]: "length (be_bytes32 w) = 4"
  by (simp add: be_bytes32_def)

lemma length_le_bytes64 [simp]: "length (le_bytes64 w) = 8"
  by (simp add: le_bytes64_def)

lemma length_be_bytes64 [simp]: "length (be_bytes64 w) = 8"
  by (simp add: be_bytes64_def)

lemma unat_byte_less [simp]: "unat (b :: byte) < 256"
  using unsigned_less [of b, where 'a = nat] by simp

lemma unat_u32_less: "unat (w :: u32) < 4294967296"
  using unsigned_less [of w, where 'a = nat] by simp

lemma unat_u64_less: "unat (w :: u64) < 18446744073709551616"
  using unsigned_less [of w, where 'a = nat] by simp

lemma unat_byte_of_nat [simp]: "unat (word_of_nat n :: byte) = n mod 256"
  by (simp add: unsigned_of_nat take_bit_eq_mod)

lemma le_value_less: "le_value bs < 256 ^ length bs"
proof (induction bs)
  case Nil
  then show ?case by simp
next
  case (Cons b bs)
  have "unat b < 256" by (rule unat_byte_less)
  with Cons.IH show ?case by (simp only: le_value.simps list.size One_nat_def add_Suc_right add_0_right power_Suc)
qed

lemma le_value_le_digits [codec_simps]: "le_value (le_digits k n) = n mod 256 ^ k"
proof (induction k arbitrary: n)
  case 0
  then show ?case by simp
next
  case (Suc k)
  then show ?case by (simp add: mod_mult2_eq)
qed

lemma le_digits_le_value [codec_simps]: "le_digits (length bs) (le_value bs) = bs"
  by (induction bs) (simp_all add: word_of_nat_eq_iff take_bit_eq_mod)

lemma le_bytes64_inj [simp]: "le_bytes64 a = le_bytes64 b \<longleftrightarrow> a = b"
proof
  assume "le_bytes64 a = le_bytes64 b"
  then have "le_value (le_bytes64 a) = le_value (le_bytes64 b)" by simp
  then have "unat a = unat b"
    using unat_u64_less [of a] unat_u64_less [of b]
    by (simp add: le_bytes64_def le_value_le_digits)
  then show "a = b" by (rule unsigned_word_eqI)
qed simp

lemma of_be_bytes32_be_bytes32 [codec_simps, simp]: "of_be_bytes32 (be_bytes32 w) = w"
  using unat_u32_less [of w] by (simp add: of_be_bytes32_def be_bytes32_def le_value_le_digits)

lemma unat_of_be_bytes32: "length bs = 4 \<Longrightarrow> unat (of_be_bytes32 bs) = le_value (rev bs)"
  using le_value_less [of "rev bs"]
  by (simp add: of_be_bytes32_def unsigned_of_nat take_bit_eq_mod)

lemma be_bytes32_of_be_bytes32 [codec_simps]:
  "length bs = 4 \<Longrightarrow> be_bytes32 (of_be_bytes32 bs) = bs"
  using le_digits_le_value [of "rev bs"] by (simp add: be_bytes32_def unat_of_be_bytes32)

end
