(* ===== verification/Proto.thy ===== *)
theory Proto
  imports Rust_Str
begin

text \<open>
  The wire protocol, \<^verbatim>\<open>quish-proto/src/lib.rs\<close>: the message types, the length-prefixed frame
  codec, the version check and the header encodings of challenges.  The \<^verbatim>\<open>postcard\<close> body codec,
  \<^verbatim>\<open>base64\<close> and \<^verbatim>\<open>sha2\<close> are arguments of the definitions that call them.
\<close>

subsection \<open>Constants and message types\<close>

definition PROTOCOL_VERSION :: u32 where
  "PROTOCOL_VERSION = 2"

definition MAX_FRAME_LEN :: nat where
  "MAX_FRAME_LEN = 64 * 1024"

definition LEN_PREFIX :: nat where
  "LEN_PREFIX = 4"

definition CHANNEL_BINDING_LEN :: nat where
  "CHANNEL_BINDING_LEN = 32"

datatype ChannelOpen =
    Shell string u16 u16
  | Exec string
  | Forward string u16
  | ReadFile string
  | WriteFile string u32
  | MkDir string u32
  | RemoteForwardListen string u16
  | RemoteForwardData u64

datatype Signal = SigInt | SigQuit | SigTerm

datatype ChannelMessage =
    Data "byte list"
  | DataErr "byte list"
  | Resize u16 u16
  | ExitStatus "32 word"
  | SignalMsg Signal

record AcceptedSignal =
  conn_ref :: u64

record Prompt =
  message :: string
  echo :: bool

record Challenge =
  chal_token :: string
  prompts :: "Prompt list"

record ChallengeAnswer =
  ans_token :: string
  responses :: "string list"

datatype 'pe CodecError = TooLarge nat | Postcard 'pe

subsection \<open>Version and fingerprint\<close>

definition version_supported :: "string option \<Rightarrow> bool" where
  "version_supported header \<longleftrightarrow>
     Option.bind header (\<lambda>s. parse_u32 (trim s)) = Some PROTOCOL_VERSION"

definition hex_digit :: "nat \<Rightarrow> char" where
  "hex_digit n = (if n < 10 then char_of (48 + n) else char_of (87 + n))"

definition hex_byte :: "byte \<Rightarrow> string" where
  "hex_byte b = [hex_digit (unat b div 16), hex_digit (unat b mod 16)]"

text \<open>The argument is \<^verbatim>\<open>Sha256::digest\<close>.\<close>

definition cert_fingerprint :: "(byte list \<Rightarrow> byte list) \<Rightarrow> byte list \<Rightarrow> string" where
  "cert_fingerprint digest cert_der = foldl (\<lambda>s b. s @ hex_byte b) [] (digest cert_der)"

subsection \<open>Frames\<close>

definition encode :: "('m \<Rightarrow> 'pe + byte list) \<Rightarrow> 'm \<Rightarrow> 'pe CodecError + byte list" where
  "encode to_stdvec msg =
     (case to_stdvec msg of
        Inl e \<Rightarrow> Inl (Postcard e)
      | Inr body \<Rightarrow>
          if length body > MAX_FRAME_LEN then Inl (TooLarge (length body))
          else Inr (be_bytes32 (word_of_nat (length body)) @ body))"

definition decode :: "(byte list \<Rightarrow> 'pe + 'm) \<Rightarrow> byte list \<Rightarrow> 'pe CodecError + 'm" where
  "decode from_bytes body =
     (case from_bytes body of Inl e \<Rightarrow> Inl (Postcard e) | Inr m \<Rightarrow> Inr m)"

definition parse_len :: "byte list \<Rightarrow> 'pe CodecError + nat" where
  "parse_len pfx =
     (let len = unat (of_be_bytes32 pfx) in
      if len > MAX_FRAME_LEN then Inl (TooLarge len) else Inr len)"

text \<open>The buffer is passed in and returned: a complete frame is removed from its front, and in
  every other case it is left as it was.\<close>

definition take_frame :: "byte list \<Rightarrow> ('pe CodecError + byte list option) \<times> byte list" where
  "take_frame buf =
     (if length buf < LEN_PREFIX then (Inr None, buf)
      else case parse_len (take LEN_PREFIX buf) of
        Inl e \<Rightarrow> (Inl e, buf)
      | Inr len \<Rightarrow>
          if length buf < LEN_PREFIX + len then (Inr None, buf)
          else let frame = take (LEN_PREFIX + len) buf in
               (Inr (Some (drop LEN_PREFIX frame)), drop (LEN_PREFIX + len) buf))"

subsection \<open>Challenge headers\<close>

text \<open>\<open>b64\<close> and \<open>unb64\<close> are \<^verbatim>\<open>BASE64_STANDARD\<close>'s \<^verbatim>\<open>encode\<close> and \<^verbatim>\<open>decode\<close>; the first
  argument is the \<^verbatim>\<open>postcard\<close> codec of the type, whose failure on these plain types is the
  \<^verbatim>\<open>expect\<close> of the source (\<^const>\<open>None\<close>: the panic).\<close>

definition encode_challenge ::
  "(Challenge \<Rightarrow> 'pe + byte list) \<Rightarrow> (byte list \<Rightarrow> string) \<Rightarrow> Challenge \<Rightarrow> string option" where
  "encode_challenge to_allocvec b64 challenge = map_option b64 (res_ok (to_allocvec challenge))"

definition decode_challenge ::
  "(byte list \<Rightarrow> 'pe + Challenge) \<Rightarrow> (string \<Rightarrow> 'be + byte list) \<Rightarrow> string \<Rightarrow> Challenge option" where
  "decode_challenge from_bytes unb64 v =
     Option.bind (res_ok (unb64 (trim v))) (\<lambda>bytes. res_ok (from_bytes bytes))"

definition encode_challenge_answer ::
  "(ChallengeAnswer \<Rightarrow> 'pe + byte list) \<Rightarrow> (byte list \<Rightarrow> string) \<Rightarrow> ChallengeAnswer \<Rightarrow> string option" where
  "encode_challenge_answer to_allocvec b64 answer = map_option b64 (res_ok (to_allocvec answer))"

definition decode_challenge_answer ::
  "(byte list \<Rightarrow> 'pe + ChallengeAnswer) \<Rightarrow> (string \<Rightarrow> 'be + byte list) \<Rightarrow> string \<Rightarrow> ChallengeAnswer option" where
  "decode_challenge_answer from_bytes unb64 v =
     Option.bind (res_ok (unb64 (trim v))) (\<lambda>bytes. res_ok (from_bytes bytes))"

subsection \<open>Lemmas on frames\<close>

text \<open>The bytes of one frame, and the bodies that fit one.\<close>

definition frame_of :: "byte list \<Rightarrow> byte list" where
  "frame_of body = be_bytes32 (word_of_nat (length body)) @ body"

definition frame_fits :: "byte list \<Rightarrow> bool" where
  "frame_fits body \<longleftrightarrow> length body \<le> MAX_FRAME_LEN"

lemma length_frame_of [simp]: "length (frame_of body) = LEN_PREFIX + length body"
  by (simp add: frame_of_def LEN_PREFIX_def)

lemma encode_eq_Inr [codec_simps]:
  "encode to_vec m = Inr fr \<longleftrightarrow> (\<exists>body. to_vec m = Inr body \<and> frame_fits body \<and> fr = frame_of body)"
  by (auto simp: encode_def frame_fits_def frame_of_def split: sum.splits)

lemma unat_u32_frame_len: "frame_fits body \<Longrightarrow> unat (word_of_nat (length body) :: u32) = length body"
  by (simp add: frame_fits_def MAX_FRAME_LEN_def unsigned_of_nat take_bit_eq_mod)

lemma parse_len_frame [codec_simps]:
  "frame_fits body \<Longrightarrow> parse_len (be_bytes32 (word_of_nat (length body))) = Inr (length body)"
  using unat_u32_frame_len [of body] by (simp add: parse_len_def frame_fits_def Let_def)

lemma parse_len_le: "parse_len pfx = Inr len \<Longrightarrow> len \<le> MAX_FRAME_LEN"
  by (auto simp: parse_len_def Let_def split: if_splits)

lemma parse_len_of_le_value:
  "length pfx = LEN_PREFIX \<Longrightarrow>
   parse_len pfx = (if le_value (rev pfx) > MAX_FRAME_LEN then Inl (TooLarge (le_value (rev pfx)))
                    else Inr (le_value (rev pfx)))"
  by (simp add: parse_len_def LEN_PREFIX_def unat_of_be_bytes32)

lemma take_frame_frame [codec_simps]:
  "frame_fits body \<Longrightarrow> take_frame (frame_of body @ rest) = (Inr (Some body), rest)"
  by (simp add: take_frame_def frame_of_def LEN_PREFIX_def parse_len_frame Let_def)

lemma take_frame_partial [codec_simps]:
  assumes "frame_fits body" "strict_prefix p (frame_of body)"
  shows "take_frame p = (Inr None, p)"
proof (cases "length p < LEN_PREFIX")
  case True
  then show ?thesis by (simp add: take_frame_def)
next
  case False
  from assms(2) obtain q where q: "frame_of body = p @ q" "q \<noteq> []"
    by (auto simp: strict_prefix_def prefix_def)
  then have len: "length p < LEN_PREFIX + length body"
    using length_frame_of [of body] by (cases q) (simp_all del: length_frame_of)
  have "take LEN_PREFIX p = take LEN_PREFIX (frame_of body)"
    using False q(1) by simp
  then have "take LEN_PREFIX p = be_bytes32 (word_of_nat (length body))"
    by (simp add: frame_of_def LEN_PREFIX_def)
  with False len assms(1) show ?thesis
    by (simp add: take_frame_def parse_len_frame)
qed

lemma take_frame_Some:
  assumes "take_frame buf = (Inr (Some body), rest)"
  shows "frame_fits body \<and> buf = frame_of body @ rest"
proof -
  have ge: "\<not> length buf < LEN_PREFIX"
    using assms by (auto simp: take_frame_def)
  then obtain len where len: "parse_len (take LEN_PREFIX buf) = (Inr len :: 'a CodecError + nat)"
    using assms by (auto simp: take_frame_def split: sum.splits)
  with ge assms have le: "LEN_PREFIX + len \<le> length buf"
    and body: "body = take len (drop LEN_PREFIX buf)" and rest: "rest = drop (LEN_PREFIX + len) buf"
    by (auto simp: take_frame_def Let_def drop_take split: if_splits)
  then have lb: "length body = len" by simp
  have "of_be_bytes32 (take LEN_PREFIX buf) = word_of_nat len"
    using len by (auto simp: parse_len_def Let_def split: if_splits)
  then have "be_bytes32 (word_of_nat len) = take LEN_PREFIX buf"
    using be_bytes32_of_be_bytes32 [of "take LEN_PREFIX buf"] ge by (simp add: LEN_PREFIX_def)
  then have "frame_of body = take LEN_PREFIX buf @ body"
    by (simp add: frame_of_def lb)
  then have "frame_of body @ rest = buf"
    by (simp add: body rest) (metis append_take_drop_id drop_drop add.commute)
  then show ?thesis
    using parse_len_le [OF len] lb by (simp add: frame_fits_def)
qed

lemma take_frame_None:
  "take_frame buf = (Inr None, buf') \<Longrightarrow> buf' = buf \<and> length buf < LEN_PREFIX + MAX_FRAME_LEN"
  by (auto simp: take_frame_def Let_def LEN_PREFIX_def MAX_FRAME_LEN_def
      split: if_splits sum.splits dest!: parse_len_le)

lemma take_frame_error:
  "take_frame buf = (Inl e, buf') \<Longrightarrow>
     buf' = buf \<and> LEN_PREFIX \<le> length buf \<and> parse_len (take LEN_PREFIX buf) = Inl e"
  by (auto simp: take_frame_def Let_def split: if_splits sum.splits)

lemma take_frame_error_append:
  "take_frame buf = (Inl e, buf') \<Longrightarrow> take_frame (buf @ extra) = (Inl e, buf' @ extra)"
  using take_frame_error [of buf e buf'] by (simp add: take_frame_def)

end
