(* ===== verification/Auth.thy ===== *)
theory Auth
  imports Proto
begin

text \<open>
  The authentication registry, \<^verbatim>\<open>quish-auth/src/lib.rs\<close>: credentials, verdicts, the
  \<^verbatim>\<open>AuthBackend\<close> trait as a record of functions, the operator's user policy, dispatch, and the
  constant-time floor.  A backend's \<^verbatim>\<open>authenticate\<close> may fail to return (\<open>Pending\<close>).

  The base64 decoder and the \<^verbatim>\<open>postcard\<close> decoder of tokens are arguments.
\<close>

subsection \<open>Data\<close>

record Token =
  tok_username :: string
  pubkey :: "byte list"
  timestamp :: u64
  signature :: "byte list"

record ChallengeState =
  token :: string
  pending_user :: "string option"

record ChallengeResponse =
  cr_state :: ChallengeState
  cr_responses :: "string list"

definition ChallengeResponse_new :: "ChallengeState \<Rightarrow> string list \<Rightarrow> ChallengeResponse" where
  "ChallengeResponse_new st rs = \<lparr>cr_state = st, cr_responses = rs\<rparr>"

record ConnInfo =
  peer_addr :: SocketAddr
  channel_binding :: "byte list"
  challenge :: "ChallengeResponse option"

datatype Credentials =
    Password string string
  | SignedToken Token
  | Jwt string

datatype Verdict =
    Allow string
  | ChallengeV ChallengeState "Prompt list"
  | Deny

record AuthBackend =
  bk_name :: string
  supports :: "Credentials \<Rightarrow> bool"
  bk_authenticate :: "ConnInfo \<Rightarrow> Credentials \<Rightarrow> Verdict poll"

record UserPolicy =
  allow_users :: "string list"
  deny_users :: "string list"

definition permits :: "UserPolicy \<Rightarrow> string \<Rightarrow> bool" where
  "permits p user =
     (if list_ex (\<lambda>u. u = user) (deny_users p) then False
      else allow_users p = [] \<or> list_ex (\<lambda>u. u = user) (allow_users p))"

subsection \<open>The Authorization header\<close>

type_synonym 'be base64_decode = "string \<Rightarrow> 'be + byte list"
type_synonym 'pe token_decode = "byte list \<Rightarrow> 'pe + Token"

definition parse_token :: "'be base64_decode \<Rightarrow> 'pe token_decode \<Rightarrow> string \<Rightarrow> Token option" where
  "parse_token unb64 from_bytes b64 =
     Option.bind (res_ok (unb64 (trim b64))) (\<lambda>bytes. res_ok (from_bytes bytes))"

definition parse_authorization ::
  "'be base64_decode \<Rightarrow> 'pe token_decode \<Rightarrow> string option \<Rightarrow> Credentials option" where
  "parse_authorization unb64 from_bytes header = Option.bind header (\<lambda>header.
     case strip_prefix ''Basic '' header of
       Some rest \<Rightarrow>
         Option.bind (res_ok (unb64 (trim rest))) (\<lambda>decoded.
         Option.bind (from_utf8 decoded) (\<lambda>s.
         Option.bind (split_once (CHR '':'') s) (\<lambda>(user, pass). Some (Password user pass))))
     | None \<Rightarrow>
         (case strip_prefix ''Bearer '' header of
            Some rest \<Rightarrow>
              (let rest = trim rest in
               if CHR ''.'' \<in> set rest then Some (Jwt rest)
               else map_option SignedToken (parse_token unb64 from_bytes rest))
          | None \<Rightarrow> None))"

definition basic_header :: "(byte list \<Rightarrow> string) \<Rightarrow> string \<Rightarrow> string \<Rightarrow> string" where
  "basic_header b64 username password =
     ''Basic '' @ b64 (as_bytes (username @ '':'' @ password))"

definition bearer_header :: "string \<Rightarrow> string" where
  "bearer_header token_b64 = ''Bearer '' @ token_b64"

subsection \<open>The registry\<close>

record Registry =
  backends :: "AuthBackend list"
  fail_delay :: nanos
  policy :: UserPolicy

definition Registry_new :: "AuthBackend list \<Rightarrow> nanos \<Rightarrow> UserPolicy \<Rightarrow> Registry" where
  "Registry_new bks delay pol = \<lparr>backends = bks, fail_delay = delay, policy = pol\<rparr>"

fun dispatch :: "AuthBackend list \<Rightarrow> Credentials \<Rightarrow> ConnInfo \<Rightarrow> Verdict poll" where
  "dispatch [] creds conn = Ready Deny"
| "dispatch (b # bs) creds conn =
     (if supports b creds then bk_authenticate b conn creds else dispatch bs creds conn)"

text \<open>\<open>parse\<close> is \<^const>\<open>parse_authorization\<close> with its codecs.\<close>

definition verdict ::
  "(string option \<Rightarrow> Credentials option) \<Rightarrow> Registry \<Rightarrow> string option \<Rightarrow> ConnInfo \<Rightarrow> Verdict poll" where
  "verdict parse reg authorization conn =
     poll_bind (case parse authorization of
         Some creds \<Rightarrow> dispatch (backends reg) creds conn
       | None \<Rightarrow> Ready Deny)
     (\<lambda>v. case v of
         Allow user \<Rightarrow> if \<not> permits (policy reg) user then Ready Deny else Ready v
       | _ \<Rightarrow> Ready v)"

fun is_allow :: "Verdict \<Rightarrow> bool" where
  "is_allow (Allow _) = True"
| "is_allow _ = False"

text \<open>The verdict with the instant it is returned at: the raw verdict took \<open>elapsed\<close>, and a
  non-success then sleeps until \<open>started + fail_delay\<close>.\<close>

definition authenticate ::
  "(string option \<Rightarrow> Credentials option) \<Rightarrow> Registry \<Rightarrow> nanos \<Rightarrow> nanos \<Rightarrow> string option \<Rightarrow> ConnInfo \<Rightarrow>
     (Verdict \<times> nanos) poll" where
  "authenticate parse reg started elapsed authorization conn =
     poll_bind (verdict parse reg authorization conn) (\<lambda>v.
       Ready (v, if is_allow v then started + elapsed
                 else max (started + elapsed) (started + fail_delay reg)))"

subsection \<open>The development backend\<close>

definition DevInsecureBackend :: "string \<Rightarrow> AuthBackend" where
  "DevInsecureBackend user =
     \<lparr>bk_name = ''dev-insecure'',
      supports = (\<lambda>creds. case creds of Password _ _ \<Rightarrow> True | _ \<Rightarrow> False),
      bk_authenticate = (\<lambda>_ creds. case creds of
          Password username _ \<Rightarrow> if username = user then Ready (Allow user) else Ready Deny
        | _ \<Rightarrow> Ready Deny)\<rparr>"

subsection \<open>Lemmas on dispatch\<close>

lemma permits_iff [policy_simps]:
  "permits p u \<longleftrightarrow> u \<notin> set (deny_users p) \<and> (allow_users p = [] \<or> u \<in> set (allow_users p))"
  by (auto simp: permits_def list_ex_iff)

lemma dispatch_first:
  "dispatch bs creds conn = (case find (\<lambda>b. supports b creds) bs of
     None \<Rightarrow> Ready Deny | Some b \<Rightarrow> bk_authenticate b conn creds)"
  by (induction bs) auto

lemma dispatch_AllowD:
  "dispatch bs creds conn = Ready (Allow u) \<Longrightarrow>
     \<exists>b \<in> set bs. supports b creds \<and> bk_authenticate b conn creds = Ready (Allow u)"
  by (induction bs) (auto split: if_splits)

lemma verdict_Allow_iff:
  "verdict parse reg hdr conn = Ready (Allow u) \<longleftrightarrow>
     permits (policy reg) u \<and>
     (\<exists>creds. parse hdr = Some creds \<and> dispatch (backends reg) creds conn = Ready (Allow u))"
  (is "?l \<longleftrightarrow> ?r")
proof
  assume ?l
  then obtain v where v: "(case parse hdr of Some creds \<Rightarrow> dispatch (backends reg) creds conn
      | None \<Rightarrow> Ready Deny) = Ready v"
    and k: "(case v of Allow user \<Rightarrow> if \<not> permits (policy reg) user then Ready Deny else Ready v
      | _ \<Rightarrow> Ready v) = Ready (Allow u)"
    unfolding verdict_def poll_bind_eq_Ready by blast
  from k have "v = Allow u" "permits (policy reg) u"
    by (cases v; simp split: if_splits)+
  with v show ?r by (auto split: option.splits)
next
  assume ?r
  then show ?l by (auto simp: verdict_def)
qed

subsection \<open>What a backend promises the registry\<close>

text \<open>\<open>evidence conn creds u\<close> is what must hold of the connection and the credential whenever the
  backend lets \<open>u\<close> in.\<close>

definition backend_sound ::
  "(ConnInfo \<Rightarrow> Credentials \<Rightarrow> string \<Rightarrow> bool) \<Rightarrow> AuthBackend \<Rightarrow> bool" where
  "backend_sound evidence b \<longleftrightarrow> (\<forall>conn creds u.
     supports b creds \<longrightarrow> bk_authenticate b conn creds = Ready (Allow u) \<longrightarrow> evidence conn creds u)"

locale auth_backend =
  fixes b :: AuthBackend
    and evidence :: "ConnInfo \<Rightarrow> Credentials \<Rightarrow> string \<Rightarrow> bool"
  assumes allow_evidence:
    "supports b creds \<Longrightarrow> bk_authenticate b conn creds = Ready (Allow u) \<Longrightarrow> evidence conn creds u"
begin

lemma backend_soundI [intro]: "backend_sound evidence b"
  using allow_evidence by (auto simp: backend_sound_def)

text \<open>The registry with this backend alone lets in only users with evidence whom the policy permits.\<close>

lemma single_registry:
  "verdict parse (Registry_new [b] d pol) hdr conn = Ready (Allow u) \<Longrightarrow>
     permits pol u \<and> (\<exists>creds. parse hdr = Some creds \<and> evidence conn creds u)"
  by (auto simp: verdict_Allow_iff Registry_new_def intro: allow_evidence split: if_splits)

end

lemma verdict_Allow_sound:
  assumes "verdict parse reg hdr conn = Ready (Allow u)"
    and "\<And>b. b \<in> set (backends reg) \<Longrightarrow> backend_sound evidence b"
  shows "permits (policy reg) u \<and> (\<exists>creds. parse hdr = Some creds \<and> evidence conn creds u)"
  using assms unfolding verdict_Allow_iff backend_sound_def by (blast dest: dispatch_AllowD)

lemma backend_sound_mono:
  "backend_sound e b \<Longrightarrow> (\<And>conn c u. e conn c u \<Longrightarrow> e' conn c u) \<Longrightarrow> backend_sound e' b"
  unfolding backend_sound_def by blast

interpretation dev: auth_backend "DevInsecureBackend user"
  "\<lambda>conn creds u. u = user \<and> (\<exists>pw. creds = Password user pw)" for user
  by unfold_locales
     (auto simp: DevInsecureBackend_def split: Credentials.splits if_splits)

subsection \<open>Properties\<close>

text \<open>What is used of the base64 engine: it decodes what it encoded, and its output is from the
  base64 alphabet.\<close>

definition base64_char :: "char \<Rightarrow> bool" where
  "base64_char c \<longleftrightarrow> c \<in> set ''ABCDEFGHIJKLMNOPQRSTUVWXYZabcdefghijklmnopqrstuvwxyz0123456789+/=''"

definition base64_law :: "(byte list \<Rightarrow> string) \<Rightarrow> 'be base64_decode \<Rightarrow> bool" where
  "base64_law b64 unb64 \<longleftrightarrow> (\<forall>bs. unb64 (b64 bs) = Inr bs \<and> list_all base64_char (b64 bs))"

lemma base64_char_graphic: "base64_char c \<Longrightarrow> graphic c \<and> c \<noteq> CHR ''.''"
  by (auto simp: base64_char_def graphic_def)

lemma base64_trim [str_simps]: "list_all base64_char s \<Longrightarrow> trim s = s"
  by (rule trim_graphic) (auto simp: list_all_iff base64_char_graphic)

lemma base64_no_dot: "list_all base64_char s \<Longrightarrow> CHR ''.'' \<notin> set s"
  by (auto simp: list_all_iff dest: base64_char_graphic)

text \<open>The credential the client puts in a Basic header is the one the server reads from it,
  for every user name without a colon and every password.\<close>

lemma basic_header_roundtrip:
  assumes "base64_law enc dec" "CHR '':'' \<notin> set u" "utf8_valid (as_bytes (u @ '':'' @ pw))"
  shows "parse_authorization dec from_bytes (Some (basic_header enc u pw)) = Some (Password u pw)"
proof -
  define x where "x = enc (as_bytes (u @ '':'' @ pw))"
  have x: "dec x = Inr (as_bytes (u @ '':'' @ pw))" "trim x = x"
    using assms(1) by (auto simp: base64_law_def x_def intro: base64_trim)
  have "split_once (CHR '':'') (u @ '':'' @ pw) = Some (u, pw)"
    using split_once_append [OF assms(2)] by simp
  moreover have "from_utf8 (as_bytes (u @ '':'' @ pw)) = Some (u @ '':'' @ pw)"
    using assms(3) by (rule from_utf8_as_bytes)
  moreover have "strip_prefix ''Basic '' (basic_header enc u pw) = Some x"
    by (simp add: strip_prefix_eq_Some basic_header_def x_def)
  ultimately show ?thesis
    using x by (simp add: parse_authorization_def)
qed

text \<open>An encoder into the alphabet, two characters a byte, with its decoder: the law can be met.\<close>

definition nibble_char :: "nat \<Rightarrow> char" where
  "nibble_char n = char_of (65 + n)"

definition nibble_encode :: "byte list \<Rightarrow> string" where
  "nibble_encode bs = concat (map (\<lambda>b. [nibble_char (unat b div 16), nibble_char (unat b mod 16)]) bs)"

fun nibble_decode :: "string \<Rightarrow> unit + byte list" where
  "nibble_decode [] = Inr []"
| "nibble_decode [_] = Inl ()"
| "nibble_decode (a # b # r) =
     rbind (nibble_decode r) (\<lambda>bs. Inr (word_of_nat (16 * (of_char a - 65) + (of_char b - 65)) # bs))"

lemma nibble_char_props:
  "n < 16 \<Longrightarrow> of_char (nibble_char n) = (65 + n :: nat)" "n < 16 \<Longrightarrow> base64_char (nibble_char n)"
proof -
  show "n < 16 \<Longrightarrow> of_char (nibble_char n) = (65 + n :: nat)" by (simp add: nibble_char_def)
  have "\<forall>n \<in> {..<16}. base64_char (nibble_char n)" by code_simp
  then show "n < 16 \<Longrightarrow> base64_char (nibble_char n)" by simp
qed

lemma nibble_base64_law: "base64_law nibble_encode nibble_decode"
proof -
  have "nibble_decode (nibble_encode bs) = Inr bs \<and> list_all base64_char (nibble_encode bs)" for bs
  proof (induction bs)
    case Nil
    then show ?case by (simp add: nibble_encode_def)
  next
    case (Cons b bs)
    have "unat b div 16 < 16" using unat_byte_less [of b] by linarith
    then show ?case using Cons by (simp add: nibble_encode_def nibble_char_props)
  qed
  then show ?thesis by (simp add: base64_law_def)
qed

end
