(* ===== verification/Challenges.thy ===== *)
theory Challenges
  imports Auth
begin

text \<open>
  Stores whose entries belong to a connection and are claimed at most once, and the first of them:
  the \<^verbatim>\<open>ChallengeStore\<close> of \<^verbatim>\<open>quish-server/src/transport.rs\<close>, which the monitor's state and the
  development backend both hold.
\<close>

subsection \<open>What a claim store promises\<close>

locale claim_store =
  fixes claim :: "conn_id \<Rightarrow> 'k \<Rightarrow> 's \<Rightarrow> 'v option \<times> 's"
    and owns :: "'s \<Rightarrow> conn_id \<Rightarrow> 'k \<Rightarrow> 'v \<Rightarrow> bool"
  assumes claim_owned: "fst (claim c k s) = Some v \<longleftrightarrow> owns s c k v"
    and claim_once: "fst (claim c k s) = Some v \<Longrightarrow> fst (claim c k (snd (claim c k s))) = None"
    and claim_other: "c \<noteq> c' \<Longrightarrow> owns (snd (claim c k s)) c' k' v \<longleftrightarrow> owns s c' k' v"
    and claim_shrinks: "owns (snd (claim c k s)) c' k' v \<Longrightarrow> owns s c' k' v"
begin

text \<open>Whatever other connections claim in between, a connection still gets its own entry.\<close>

lemma claims_of_others:
  assumes "\<forall>(c', k') \<in> set ops. c' \<noteq> c" "owns s c k v"
  shows "fst (claim c k (fold (\<lambda>(c', k') s. snd (claim c' k' s)) ops s)) = Some v"
  using assms
proof (induction ops arbitrary: s)
  case Nil
  then show ?case by (simp add: claim_owned)
next
  case (Cons op ops)
  obtain c' k' where op: "op = (c', k')" by (cases op)
  then have "owns (snd (claim c' k' s)) c k v"
    using Cons.prems claim_other [of c' c k' s k v] by auto
  then show ?case using Cons.IH Cons.prems op by simp
qed

text \<open>An entry once claimed is gone for good: no sequence of claims brings it back.\<close>

lemma claimed_is_gone:
  assumes "fst (claim c k s) = Some v"
  shows "fst (claim c k (fold (\<lambda>(c', k') s. snd (claim c' k' s)) ops (snd (claim c k s)))) = None"
proof -
  have none: "\<not> owns (snd (claim c k s)) c k w" for w
    using claim_once [OF assms] claim_owned [of c k "snd (claim c k s)" w] by auto
  have "owns (fold (\<lambda>(c', k') s. snd (claim c' k' s)) ops s') c k w \<Longrightarrow> owns s' c k w" for s' w
  proof (induction ops arbitrary: s')
    case Nil
    then show ?case by simp
  next
    case (Cons op ops)
    obtain c' k' where "op = (c', k')" by (cases op)
    with Cons.prems have "owns (snd (claim c' k' s')) c k w" using Cons.IH by simp
    then show ?case by (rule claim_shrinks)
  qed
  with none have "\<forall>w. \<not> owns (fold (\<lambda>(c', k') s. snd (claim c' k' s)) ops (snd (claim c k s))) c k w"
    by blast
  then show ?thesis by (simp only: claim_owned [symmetric] not_Some_eq)
qed

end

subsection \<open>The challenge store\<close>

definition CHALLENGE_TTL :: nanos where
  "CHALLENGE_TTL = secs 60"

type_synonym ChallengeStore = "conn_id \<Rightarrow> (ChallengeState \<times> nanos) option"

definition cs_insert :: "nanos \<Rightarrow> conn_id \<Rightarrow> ChallengeState \<Rightarrow> ChallengeStore \<Rightarrow> ChallengeStore" where
  "cs_insert now c st m = m(c \<mapsto> (st, now))"

definition cs_take :: "nanos \<Rightarrow> conn_id \<Rightarrow> string \<Rightarrow> ChallengeStore \<Rightarrow> ChallengeState option \<times> ChallengeStore" where
  "cs_take now c tok m = (case m c of
       None \<Rightarrow> (None, m)
     | Some (st, created) \<Rightarrow>
         (if now - created > CHALLENGE_TTL \<or> token st \<noteq> tok then None else Some st, m(c := None)))"

definition cs_clear :: "conn_id \<Rightarrow> ChallengeStore \<Rightarrow> ChallengeStore" where
  "cs_clear c m = m(c := None)"

definition cs_owns :: "nanos \<Rightarrow> ChallengeStore \<Rightarrow> conn_id \<Rightarrow> string \<Rightarrow> ChallengeState \<Rightarrow> bool" where
  "cs_owns now m c tok st \<longleftrightarrow>
     (\<exists>created. m c = Some (st, created) \<and> now - created \<le> CHALLENGE_TTL \<and> token st = tok)"

subsection \<open>Lemmas\<close>

lemma cs_take_Some [store_simps]:
  "fst (cs_take now c tok m) = Some st \<longleftrightarrow> cs_owns now m c tok st"
  by (auto simp: cs_take_def cs_owns_def not_less split: option.splits)

lemma cs_take_state [store_simps]: "snd (cs_take now c tok m) = m(c := None)"
  by (auto simp: cs_take_def fun_upd_idem split: option.splits)

interpretation cs: claim_store "cs_take now" "cs_owns now" for now
proof (unfold_locales, goal_cases)
  case (1 c k s v)
  then show ?case by (rule cs_take_Some)
next
  case (2 c k s v)
  then show ?case by (simp add: cs_take_state) (simp add: cs_take_def)
next
  case (3 c c' k s k' v)
  then show ?case by (simp add: cs_take_state cs_owns_def)
next
  case (4 c k s c' k' v)
  then show ?case by (auto simp: cs_take_state cs_owns_def split: if_splits)
qed

subsection \<open>Properties\<close>

text \<open>A challenge parked for a connection is there for that connection's answer with the right
  token within a minute, whatever other connections try in between, and an answer, right or wrong,
  uses it up.\<close>

lemma challenge_kept_for_its_connection:
  assumes "\<forall>(c', k') \<in> set ops. c' \<noteq> c" "now - parked \<le> CHALLENGE_TTL"
  shows "fst (cs_take now c (token st)
             (fold (\<lambda>(c', k') m. snd (cs_take now c' k' m)) ops (cs_insert parked c st m))) = Some st
    \<and> fst (cs_take now c tok' (snd (cs_take now c tok m'))) = None"
proof
  have "cs_owns now (cs_insert parked c st m) c (token st) st"
    using assms(2) by (simp add: cs_owns_def cs_insert_def)
  then show "fst (cs_take now c (token st)
             (fold (\<lambda>(c', k') m. snd (cs_take now c' k' m)) ops (cs_insert parked c st m))) = Some st"
    by (rule cs.claims_of_others [OF assms(1)])
  show "fst (cs_take now c tok' (snd (cs_take now c tok m'))) = None"
    by (simp add: cs_take_state) (simp add: cs_take_def)
qed

text \<open>C24: a challenge is handed to the connection it was parked for, with the token it was issued
  under, and to nobody else; once handed out, no further claim by anyone yields it again.\<close>

theorem challenge_never_resumed_elsewhere:
  assumes "fst (cs_take now c tok m) = Some st"
  shows "(\<exists>parked. m c = Some (st, parked) \<and> now \<le> parked + CHALLENGE_TTL) \<and> token st = tok
    \<and> fst (cs_take now c tok (fold (\<lambda>(c', k') m. snd (cs_take now c' k' m)) ops (snd (cs_take now c tok m)))) = None"
  using assms cs.claimed_is_gone [OF assms] by (auto simp: cs_take_Some cs_owns_def)

lemma challenge_never_resumed_elsewhere_witness:
  "token \<lparr>token = ''t'', pending_user = None\<rparr> = ''t''
   \<and> fst (cs_take 7 1 ''t'' (fold (\<lambda>(c', k') m. snd (cs_take 7 c' k' m)) [(2, ''t'')]
       (snd (cs_take 7 1 ''t'' [1 \<mapsto> (\<lparr>token = ''t'', pending_user = None\<rparr>, 5)])))) = None"
proof -
  have "fst (cs_take 7 1 ''t'' [1 \<mapsto> (\<lparr>token = ''t'', pending_user = None\<rparr>, 5)]) = Some \<lparr>token = ''t'', pending_user = None\<rparr>"
    by (simp add: cs_take_def CHALLENGE_TTL_def secs_def)
  from challenge_never_resumed_elsewhere [OF this, of "[(2, ''t'')]"] show ?thesis by simp
qed

end
