(* ===== verification/Pam.thy ===== *)
theory Pam
  imports Auth
begin

text \<open>
  The PAM backend and PAM login sessions, \<^verbatim>\<open>quish-auth/src/pam.rs\<close>.  The PAM library is a record
  of functions: each call's answer, by service and user.
\<close>

definition SERVICE :: string where
  "SERVICE = ''quish''"

record PamLib =
  ctx_new :: "string \<Rightarrow> string option \<Rightarrow> bool"
  pam_authenticate :: "string \<Rightarrow> string \<Rightarrow> string \<Rightarrow> bool"
  pam_acct_mgmt :: "string \<Rightarrow> string \<Rightarrow> bool"
  pam_open_session :: "string \<Rightarrow> string \<Rightarrow> (string \<times> string) list option"

definition pam_backend_authenticate :: "PamLib \<Rightarrow> ConnInfo \<Rightarrow> Credentials \<Rightarrow> Verdict poll" where
  "pam_backend_authenticate pam conn creds = (case creds of
       Password username password \<Rightarrow>
         let ok = (if \<not> ctx_new pam SERVICE None then False
                   else pam_authenticate pam SERVICE username password \<and> pam_acct_mgmt pam SERVICE username)
         in if ok then Ready (Allow username) else Ready Deny
     | _ \<Rightarrow> Ready Deny)"

definition PamBackend :: "PamLib \<Rightarrow> AuthBackend" where
  "PamBackend pam =
     \<lparr>bk_name = ''pam'',
      supports = (\<lambda>creds. case creds of Password _ _ \<Rightarrow> True | _ \<Rightarrow> False),
      bk_authenticate = pam_backend_authenticate pam\<rparr>"

text \<open>An open login session: its user and the environment captured when it was opened.\<close>

record PamSession =
  ps_user :: string
  ps_env :: "(string \<times> string) list"

datatype pam_error = PamCtx | PamAcctMgmt | PamOpenSession

definition open_session :: "PamLib \<Rightarrow> string \<Rightarrow> pam_error + PamSession" where
  "open_session pam username =
     (if \<not> ctx_new pam SERVICE (Some username) then Inl PamCtx
      else if \<not> pam_acct_mgmt pam SERVICE username then Inl PamAcctMgmt
      else case pam_open_session pam SERVICE username of
             None \<Rightarrow> Inl PamOpenSession
           | Some env \<Rightarrow> Inr \<lparr>ps_user = username, ps_env = env\<rparr>)"

definition pam_evidence :: "PamLib \<Rightarrow> ConnInfo \<Rightarrow> Credentials \<Rightarrow> string \<Rightarrow> bool" where
  "pam_evidence pam conn creds u \<longleftrightarrow>
     (\<exists>pw. creds = Password u pw \<and> pam_authenticate pam SERVICE u pw \<and> pam_acct_mgmt pam SERVICE u)"

lemma pam_Allow_evidence:
  "pam_backend_authenticate pam conn creds = Ready (Allow u) \<Longrightarrow> pam_evidence pam conn creds u"
  by (cases creds) (auto simp: pam_backend_authenticate_def pam_evidence_def Let_def split: if_splits)

interpretation pam: auth_backend "PamBackend p" "pam_evidence p" for p
  by unfold_locales (simp add: PamBackend_def pam_Allow_evidence)

lemma open_session_user: "open_session pam u = Inr s \<Longrightarrow> ps_user s = u \<and> pam_acct_mgmt pam SERVICE u"
  by (auto simp: open_session_def split: if_splits option.splits)

end
