(* ===== verification/Frames.thy ===== *)
theory Frames
  imports Proto
begin

text \<open>
  Reassembly of frames off a stream: \<^verbatim>\<open>FrameReader\<close> and \<^verbatim>\<open>spawn_frame_reader\<close> of
  \<^verbatim>\<open>quish-server/src/session.rs\<close>, \<^verbatim>\<open>ChannelFrameReader\<close> of \<^verbatim>\<open>quish-client/src/main.rs\<close> and
  \<^verbatim>\<open>spawn_frame_reader\<close> of \<^verbatim>\<open>quish-client/src/terminal.rs\<close>.

  What \<^verbatim>\<open>recv_data\<close> answers is a list of events, consumed from the front; a reader that finds the
  list empty is waiting for the peer (\<open>Pending\<close>).
\<close>

subsection \<open>The readers\<close>

datatype recv_event = RChunk "byte list" | REnd | RNoErr | RErr

datatype 'e read_error = BadFrame 'e | RecvFailed

text \<open>The loop of \<^verbatim>\<open>next_frame\<close>, with the frame splitter as an argument.\<close>

fun pull :: "(byte list \<Rightarrow> ('e + 'b option) \<times> byte list) \<Rightarrow> recv_event list \<Rightarrow> byte list \<Rightarrow>
    ('e read_error + 'b option) poll \<times> recv_event list \<times> byte list" where
  "pull split [] buf =
     (case split buf of
        (Inl e, buf') \<Rightarrow> (Ready (Inl (BadFrame e)), [], buf')
      | (Inr (Some body), buf') \<Rightarrow> (Ready (Inr (Some body)), [], buf')
      | (Inr None, buf') \<Rightarrow> (Pending, [], buf'))"
| "pull split (ev # evs) buf =
     (case split buf of
        (Inl e, buf') \<Rightarrow> (Ready (Inl (BadFrame e)), ev # evs, buf')
      | (Inr (Some body), buf') \<Rightarrow> (Ready (Inr (Some body)), ev # evs, buf')
      | (Inr None, buf') \<Rightarrow>
          (case ev of
             RChunk chunk \<Rightarrow> pull split evs (buf' @ chunk)
           | REnd \<Rightarrow> (Ready (Inr None), evs, buf')
           | RNoErr \<Rightarrow> (Ready (Inr None), evs, buf')
           | RErr \<Rightarrow> (Ready (Inl RecvFailed), evs, buf')))"

record FrameReader =
  recv :: "recv_event list"
  buf :: "byte list"

definition FrameReader_new :: "recv_event list \<Rightarrow> FrameReader" where
  "FrameReader_new rx = \<lparr>recv = rx, buf = []\<rparr>"

definition next_frame ::
  "FrameReader \<Rightarrow> ('pe CodecError read_error + byte list option) poll \<times> FrameReader" where
  "next_frame r = (case pull take_frame (recv r) (buf r) of
     (res, evs, b) \<Rightarrow> (res, r\<lparr>recv := evs, buf := b\<rparr>))"

text \<open>The client's reader is the same structure with the same loop; \<^verbatim>\<open>next\<close> also decodes.\<close>

definition ChannelFrameReader_next ::
  "(byte list \<Rightarrow> 'pe + ChannelMessage) \<Rightarrow> FrameReader \<Rightarrow>
     ('pe CodecError read_error + ChannelMessage option) poll \<times> FrameReader" where
  "ChannelFrameReader_next from_bytes r = (case next_frame r of
     (Pending, r') \<Rightarrow> (Pending, r')
   | (Ready (Inl e), r') \<Rightarrow> (Ready (Inl e), r')
   | (Ready (Inr None), r') \<Rightarrow> (Ready (Inr None), r')
   | (Ready (Inr (Some body)), r') \<Rightarrow>
       (case decode from_bytes body of
          Inl e \<Rightarrow> (Ready (Inl (BadFrame e)), r')
        | Inr msg \<Rightarrow> (Ready (Inr (Some msg)), r')))"

text \<open>The bytes a reader still has before it.\<close>

fun event_bytes :: "recv_event \<Rightarrow> byte list" where
  "event_bytes (RChunk chunk) = chunk"
| "event_bytes _ = []"

definition unread :: "recv_event list \<Rightarrow> byte list \<Rightarrow> byte list" where
  "unread evs b = b @ concat (map event_bytes evs)"

lemma unread_simps [simp]:
  "unread [] b = b"
  "unread (ev # evs) b = b @ event_bytes ev @ concat (map event_bytes evs)"
  by (simp_all add: unread_def)

subsection \<open>What a frame splitter promises its readers\<close>

locale framing =
  fixes put :: "'b \<Rightarrow> byte list"
    and fits :: "'b \<Rightarrow> bool"
    and split :: "byte list \<Rightarrow> ('e + 'b option) \<times> byte list"
  assumes split_put: "fits f \<Longrightarrow> split (put f @ rest) = (Inr (Some f), rest)"
    and split_partial: "fits f \<Longrightarrow> strict_prefix p (put f) \<Longrightarrow> split p = (Inr None, p)"
    and split_Some: "split b = (Inr (Some f), rest) \<Longrightarrow> fits f \<and> b = put f @ rest"
    and split_None: "split b = (Inr None, b') \<Longrightarrow> b' = b"
    and split_Inl: "split b = (Inl e, b') \<Longrightarrow> b' = b"
    and put_nonempty: "put f \<noteq> []"
begin

text \<open>However the bytes of a frame are cut into chunks, one pull returns its body and leaves the
  bytes after it.\<close>

lemma pull_frame:
  assumes "fits f" "b @ concat chunks = put f @ rest"
  shows "\<exists>chunks' b'. pull split (map RChunk chunks @ evs) b
           = (Ready (Inr (Some f)), map RChunk chunks' @ evs, b') \<and> b' @ concat chunks' = rest
           \<and> length chunks' \<le> length chunks"
  using assms
proof (induction chunks arbitrary: b)
  case Nil
  then have "split b = (Inr (Some f), rest)" by (simp add: split_put)
  then show ?case
    by (cases evs) (auto intro!: exI [of _ "[]"])
next
  case (Cons c cs)
  show ?case
  proof (cases "prefix (put f) b")
    case True
    then obtain q where q: "b = put f @ q" by (auto simp: prefix_def)
    then have "split b = (Inr (Some f), q)" using Cons.prems by (simp add: split_put)
    with q Cons.prems show ?thesis
      by (auto intro!: exI [of _ "c # cs"])
  next
    case False
    moreover have "prefix b (put f) \<or> prefix (put f) b"
      using Cons.prems(2) by (metis prefixI prefix_same_cases)
    ultimately have "strict_prefix b (put f)" by (auto simp: strict_prefix_def)
    then have "split b = (Inr None, b)" using Cons.prems by (simp add: split_partial)
    then have "pull split (map RChunk (c # cs) @ evs) b = pull split (map RChunk cs @ evs) (b @ c)"
      by simp
    moreover obtain chunks' b' where "pull split (map RChunk cs @ evs) (b @ c)
        = (Ready (Inr (Some f)), map RChunk chunks' @ evs, b') \<and> b' @ concat chunks' = rest
          \<and> length chunks' \<le> length cs"
      using Cons.IH [of "b @ c"] Cons.prems by auto
    ultimately show ?thesis by (metis le_SucI length_Cons)
  qed
qed

text \<open>A pull that returns a frame takes exactly that frame's bytes off the unread ones.\<close>

lemma pull_Some_unread:
  "pull split evs b = (Ready (Inr (Some f)), evs', b') \<Longrightarrow>
     fits f \<and> unread evs b = put f @ unread evs' b'"
proof (induction evs arbitrary: b)
  case Nil
  then show ?case by (auto split: prod.splits sum.splits option.splits dest!: split_Some)
next
  case (Cons ev evs)
  obtain r c where sp: "split b = (r, c)" by (cases "split b")
  show ?case
  proof (cases r)
    case (Inl e)
    with sp Cons.prems show ?thesis by simp
  next
    case (Inr o')
    show ?thesis
    proof (cases o')
      case None
      with sp Inr have "c = b" by (auto dest: split_None)
      with sp Inr None Cons.prems Cons.IH [of "b @ event_bytes ev"] show ?thesis
        by (cases ev) (auto simp: unread_def)
    next
      case (Some g)
      with sp Inr Cons.prems show ?thesis by (auto simp: unread_def dest!: split_Some)
    qed
  qed
qed

lemma pull_Some_shrinks:
  "pull split evs b = (Ready (Inr (Some f)), evs', b') \<Longrightarrow>
     length (unread evs' b') < length (unread evs b)"
  using pull_Some_unread [of evs b f evs' b'] put_nonempty [of f] by auto

end

interpretation fr: framing frame_of frame_fits take_frame
proof (unfold_locales, goal_cases)
  case (1 b rest)
  then show ?case by (rule take_frame_frame)
next
  case (2 b p)
  then show ?case by (rule take_frame_partial)
next
  case (3 b f rest)
  then show ?case by (rule take_frame_Some)
next
  case (4 b b')
  then show ?case by (simp add: take_frame_None)
next
  case (5 b e b')
  then show ?case by (simp add: take_frame_error)
next
  case (6 f)
  then show ?case using length_frame_of [of f] by (auto simp: LEN_PREFIX_def simp del: length_frame_of)
qed

subsection \<open>The reader tasks\<close>

text \<open>What the task sends on its \<^verbatim>\<open>mpsc\<close>, in order.  \<open>alive n\<close> says whether the receiver is
  still there when \<open>n\<close> messages were sent.\<close>

function spawn_frame_reader ::
  "(byte list \<Rightarrow> 'pe + ChannelMessage) \<Rightarrow> (nat \<Rightarrow> bool) \<Rightarrow> nat \<Rightarrow> recv_event list \<Rightarrow> byte list \<Rightarrow> ChannelMessage list" where
  "spawn_frame_reader from_bytes alive n evs b =
     (case pull (take_frame :: _ \<Rightarrow> ('pe CodecError + _) \<times> _) evs b of
        (Ready (Inr (Some body)), evs', b') \<Rightarrow>
          (case (decode from_bytes body :: 'pe CodecError + ChannelMessage) of
             Inr msg \<Rightarrow> if alive n then msg # spawn_frame_reader from_bytes alive (Suc n) evs' b' else []
           | Inl _ \<Rightarrow> [])
      | _ \<Rightarrow> [])"
  by auto
termination
  by (relation "measure (\<lambda>(_, _, _, evs, b). length (unread evs b))")
     (auto dest!: fr.pull_Some_shrinks [OF sym])

text \<open>The client's task calls the splitter itself and reads a chunk only when it has no frame.\<close>

function client_frame_reader ::
  "(byte list \<Rightarrow> 'pe + ChannelMessage) \<Rightarrow> (nat \<Rightarrow> bool) \<Rightarrow> nat \<Rightarrow> recv_event list \<Rightarrow> byte list \<Rightarrow> ChannelMessage list" where
  "client_frame_reader from_bytes alive n evs b =
     (case (take_frame b :: ('pe CodecError + byte list option) \<times> byte list) of
        (Inr (Some body), b') \<Rightarrow>
          (case (decode from_bytes body :: 'pe CodecError + ChannelMessage) of
             Inr msg \<Rightarrow> if alive n then msg # client_frame_reader from_bytes alive (Suc n) evs b' else []
           | Inl _ \<Rightarrow> [])
      | (Inr None, b') \<Rightarrow>
          (case evs of RChunk chunk # evs' \<Rightarrow> client_frame_reader from_bytes alive n evs' (b' @ chunk) | _ \<Rightarrow> [])
      | (Inl _, _) \<Rightarrow> [])"
  by auto
termination
  by (relation "measures [\<lambda>(_, _, _, evs, b). length (unread evs b), \<lambda>(_, _, _, evs, b). length evs]")
     (auto simp: unread_def LEN_PREFIX_def dest!: take_frame_Some [OF sym] take_frame_None [OF sym])

declare spawn_frame_reader.simps [simp del] client_frame_reader.simps [simp del]

subsection \<open>Properties\<close>

lemma reader_task_stream:
  fixes from_bytes :: "byte list \<Rightarrow> 'pe + ChannelMessage"
  assumes "\<And>m. m \<in> set ms \<Longrightarrow> frame_fits (body m) \<and> from_bytes (body m) = Inr m"
    and "b @ concat chunks = concat (map (\<lambda>m. frame_of (body m)) ms)"
    and "\<And>k. alive k"
  shows "spawn_frame_reader from_bytes alive n (map RChunk chunks @ [REnd]) b = ms"
  using assms(1,2)
proof (induction ms arbitrary: b chunks n)
  case Nil
  then have "b = []" "\<forall>c \<in> set chunks. c = []" by auto
  then have "pull (take_frame :: _ \<Rightarrow> ('pe CodecError + _) \<times> _) (map RChunk chunks @ [REnd]) b
      = (Ready (Inr None), [], [])"
    by (induction chunks) (auto simp: take_frame_def LEN_PREFIX_def)
  then show ?case by (simp add: spawn_frame_reader.simps)
next
  case (Cons m ms)
  obtain cs' b' where pl: "pull (take_frame :: _ \<Rightarrow> ('pe CodecError + _) \<times> _) (map RChunk chunks @ [REnd]) b
      = (Ready (Inr (Some (body m))), map RChunk cs' @ [REnd], b')"
    and rest: "b' @ concat cs' = concat (map (\<lambda>m. frame_of (body m)) ms)"
    using fr.pull_frame [of "body m" b chunks "concat (map (\<lambda>m. frame_of (body m)) ms)" "[REnd]"]
      Cons.prems by auto
  have "decode from_bytes (body m) = (Inr m :: 'pe CodecError + _)"
    using Cons.prems(1) by (simp add: decode_def)
  moreover have "spawn_frame_reader from_bytes alive (Suc n) (map RChunk cs' @ [REnd]) b' = ms"
    using Cons.prems(1) rest by (intro Cons.IH) auto
  ultimately show ?case
    using pl assms(3) by (subst spawn_frame_reader.simps) simp
qed

lemma spawn_frame_reader_chunk:
  fixes from_bytes :: "byte list \<Rightarrow> 'pe + ChannelMessage"
  assumes "take_frame b = (Inr None :: 'pe CodecError + byte list option, b')"
  shows "spawn_frame_reader from_bytes alive n (RChunk c # evs) b
           = spawn_frame_reader from_bytes alive n evs (b' @ c)"
  using assms by (subst (1 2) spawn_frame_reader.simps) simp

lemma client_reader_eq:
  fixes from_bytes :: "byte list \<Rightarrow> 'pe + ChannelMessage"
  shows "client_frame_reader from_bytes alive n evs b = spawn_frame_reader from_bytes alive n evs b"
proof (induction from_bytes alive n evs b rule: client_frame_reader.induct)
  case (1 from_bytes alive n evs b)
  obtain r b' where tf: "take_frame b = (r :: 'pe CodecError + byte list option, b')"
    by (cases "take_frame b :: ('pe CodecError + byte list option) \<times> byte list")
  show ?case
  proof (cases "\<exists>c evs'. r = Inr None \<and> evs = RChunk c # evs'")
    case True
    then show ?thesis
      using 1 tf by (subst client_frame_reader.simps) (auto simp: spawn_frame_reader_chunk)
  next
    case False
    have "pull take_frame evs b = (case r of Inl e \<Rightarrow> (Ready (Inl (BadFrame e)), evs, b')
        | Inr (Some f) \<Rightarrow> (Ready (Inr (Some f)), evs, b')
        | Inr None \<Rightarrow> pull take_frame evs b)"
      using tf by (cases evs) (auto split: sum.splits option.splits)
    with False show ?thesis
      using 1 tf
      by (subst client_frame_reader.simps, subst spawn_frame_reader.simps)
         (cases evs; auto split: sum.splits option.splits recv_event.splits)
  qed
qed

lemma pull_Pending_bound:
  "pull take_frame evs b = (Pending, evs', b') \<Longrightarrow> evs' = [] \<and> length b' < LEN_PREFIX + MAX_FRAME_LEN"
  by (induction evs arbitrary: b)
     (auto split: prod.splits sum.splits option.splits recv_event.splits dest!: take_frame_None)

lemma try_map_encode_frames:
  "try_map (encode to_vec) ms = Inr frames \<Longrightarrow>
     frames = map (\<lambda>m. frame_of (projr (to_vec m))) ms
     \<and> (\<forall>m \<in> set ms. \<exists>body. to_vec m = Inr body \<and> frame_fits body)"
  by (induction ms arbitrary: frames) (auto simp: encode_eq_Inr)

text \<open>C10: the messages a peer encodes arrive, in order and none missing or added, at the server's
  reader task and at the client's, however the transport cuts the bytes into chunks.  The
  hypothesis on \<^verbatim>\<open>postcard\<close> is that it decodes what it encoded.\<close>

theorem frame_stream_roundtrip:
  fixes to_vec :: "ChannelMessage \<Rightarrow> 'pe + byte list"
    and from_bytes :: "byte list \<Rightarrow> 'pe + ChannelMessage"
  assumes postcard: "\<And>m bs. to_vec m = Inr bs \<Longrightarrow> from_bytes bs = Inr m"
    and sent: "try_map (encode to_vec) ms = Inr frames"
    and cut: "concat chunks = concat frames"
  shows "spawn_frame_reader from_bytes (\<lambda>_. True) 0 (map RChunk chunks @ [REnd]) [] = ms
    \<and> client_frame_reader from_bytes (\<lambda>_. True) 0 (map RChunk chunks @ [REnd]) [] = ms"
proof -
  have fit: "\<forall>m \<in> set ms. \<exists>body. to_vec m = Inr body \<and> frame_fits body"
    and fr: "frames = map (\<lambda>m. frame_of (projr (to_vec m))) ms"
    using try_map_encode_frames [OF sent] by auto
  have "spawn_frame_reader from_bytes (\<lambda>_. True) 0 (map RChunk chunks @ [REnd]) [] = ms"
  proof (rule reader_task_stream [where body = "\<lambda>m. projr (to_vec m)"])
    fix m assume "m \<in> set ms"
    with fit obtain body where "to_vec m = Inr body" "frame_fits body" by blast
    then show "frame_fits (projr (to_vec m)) \<and> from_bytes (projr (to_vec m)) = Inr m"
      by (simp add: postcard)
  qed (simp_all add: cut fr)
  then show ?thesis by (simp add: client_reader_eq)
qed

lemma frame_stream_roundtrip_witness:
  "spawn_frame_reader (\<lambda>bs. Inr (Data bs) :: unit + _) (\<lambda>_. True) 0
      (map RChunk [[0], [0, 0, 2, 7], [9, 0, 0, 0, 0]] @ [REnd]) [] = [Data [7, 9], Data []]
   \<and> client_frame_reader (\<lambda>bs. Inr (Data bs) :: unit + _) (\<lambda>_. True) 0
      (map RChunk [[0], [0, 0, 2, 7], [9, 0, 0, 0, 0]] @ [REnd]) [] = [Data [7, 9], Data []]"
proof (rule frame_stream_roundtrip [where frames = "[[0, 0, 0, 2, 7, 9], [0, 0, 0, 0]]"
      and to_vec = "\<lambda>m. case m of Data bs \<Rightarrow> Inr bs | _ \<Rightarrow> Inl ()"], goal_cases)
  case (1 m bs)
  then show ?case by (auto split: ChannelMessage.splits)
next
  case 2
  then show ?case by code_simp
next
  case 3
  then show ?case by simp
qed

text \<open>C30: a reader that waits for the peer holds less than one maximal frame, whatever the peer
  has sent so far.\<close>

theorem reader_buffer_bounded:
  "next_frame r = (Pending, r') \<Longrightarrow> recv r' = [] \<and> length (buf r') < LEN_PREFIX + MAX_FRAME_LEN"
  by (auto simp: next_frame_def split: prod.splits dest!: pull_Pending_bound)

lemma reader_buffer_bounded_witness:
  "next_frame (FrameReader_new [RChunk [0, 0], RChunk [0, 5, 1]])
      = (Pending :: (unit CodecError read_error + _) poll, \<lparr>recv = [], buf = [0, 0, 0, 5, 1]\<rparr>)
   \<and> length [0, 0, 0, 5, 1 :: byte] < LEN_PREFIX + MAX_FRAME_LEN"
proof -
  have nf: "next_frame (FrameReader_new [RChunk [0, 0], RChunk [0, 5, 1]])
      = (Pending :: (unit CodecError read_error + _) poll, \<lparr>recv = [], buf = [0, 0, 0, 5, 1]\<rparr>)"
    by code_simp
  from reader_buffer_bounded [OF nf] nf show ?thesis by simp
qed

lemma take_frame_short: "length b < LEN_PREFIX \<Longrightarrow> take_frame b = (Inr None, b)"
  by (simp add: take_frame_def)

lemma take_frame_oversized:
  assumes "length pfx = LEN_PREFIX" "MAX_FRAME_LEN < unat (of_be_bytes32 pfx)"
  shows "take_frame (pfx @ rest) = (Inl (TooLarge (unat (of_be_bytes32 pfx))), pfx @ rest)"
  using assms by (simp add: take_frame_def parse_len_def)

lemma pull_at_oversized:
  assumes "length pfx = LEN_PREFIX" "MAX_FRAME_LEN < unat (of_be_bytes32 pfx)"
  shows "pull take_frame evs (pfx @ b) = (Ready (Inl (BadFrame (TooLarge (unat (of_be_bytes32 pfx))))), evs, pfx @ b)"
  by (cases evs) (simp_all add: take_frame_oversized [OF assms])

text \<open>However the prefix is cut into chunks, the pull that has all of it fails.\<close>

lemma pull_oversized:
  assumes "length pfx = LEN_PREFIX" "MAX_FRAME_LEN < unat (of_be_bytes32 pfx)" "b @ concat chunks = pfx @ rest"
  shows "\<exists>chunks' b'. pull take_frame (map RChunk chunks @ evs) b
           = (Ready (Inl (BadFrame (TooLarge (unat (of_be_bytes32 pfx)) :: 'pe CodecError))), map RChunk chunks' @ evs, pfx @ b')
         \<and> b' @ concat chunks' = rest"
  using assms(3)
proof (induction chunks arbitrary: b)
  case Nil
  then show ?case
    by (intro exI [of _ "[]"] exI [of _ rest]) (simp add: pull_at_oversized [OF assms(1,2)])
next
  case (Cons c cs)
  show ?case
  proof (cases "length b < LEN_PREFIX")
    case True
    then have "pull take_frame (map RChunk (c # cs) @ evs) b
        = (pull take_frame (map RChunk cs @ evs) (b @ c) :: ('pe CodecError read_error + byte list option) poll \<times> _)"
      by (simp add: take_frame_short)
    with Cons.IH [of "b @ c"] Cons.prems show ?thesis by simp
  next
    case False
    then obtain b' where "b = pfx @ b'" "b' @ concat (c # cs) = rest"
      using Cons.prems assms(1) by (metis append_eq_append_conv_if append_take_drop_id not_less)
    then show ?thesis
      by (intro exI [of _ "c # cs"] exI [of _ b']) (simp add: take_frame_oversized [OF assms(1,2)])
  qed
qed

text \<open>C31: a length prefix over the cap ends the stream for good.  When the next four bytes of the
  stream announce more than the cap, buffered or still to come and however they are cut into chunks,
  the reader reports the announced length as too large as soon as it has them, without waiting for a
  body and without taking them off, and every later call reports the same, whatever else arrives.\<close>

theorem oversized_frame_is_final:
  assumes "length pfx = LEN_PREFIX" "MAX_FRAME_LEN < unat (of_be_bytes32 pfx)"
    and "recv r = map RChunk chunks @ evs" "buf r @ concat chunks = pfx @ rest"
  shows "\<exists>chunks' b'. next_frame r = (Ready (Inl (BadFrame (TooLarge (unat (of_be_bytes32 pfx)) :: 'pe CodecError))),
           \<lparr>recv = map RChunk chunks' @ evs, buf = pfx @ b'\<rparr>)
    \<and> b' @ concat chunks' = rest
    \<and> (\<forall>later. next_frame \<lparr>recv = later, buf = pfx @ b'\<rparr>
         = (Ready (Inl (BadFrame (TooLarge (unat (of_be_bytes32 pfx)) :: 'pe CodecError))), \<lparr>recv = later, buf = pfx @ b'\<rparr>))"
proof -
  obtain chunks' b' where "pull take_frame (recv r) (buf r)
      = (Ready (Inl (BadFrame (TooLarge (unat (of_be_bytes32 pfx)) :: 'pe CodecError))), map RChunk chunks' @ evs, pfx @ b')"
    and rest: "b' @ concat chunks' = rest"
    unfolding assms(3) using pull_oversized [OF assms(1,2,4)] by blast
  then have "next_frame r = (Ready (Inl (BadFrame (TooLarge (unat (of_be_bytes32 pfx)) :: 'pe CodecError))),
      \<lparr>recv = map RChunk chunks' @ evs, buf = pfx @ b'\<rparr>)"
    by (simp add: next_frame_def)
  then show ?thesis
    using rest by (auto simp: next_frame_def pull_at_oversized [OF assms(1,2)])
qed

lemma oversized_frame_is_final_witness:
  "\<exists>chunks' b'. next_frame \<lparr>recv = [RChunk [0, 1, 7], RErr], buf = [0, 1]\<rparr>
     = (Ready (Inl (BadFrame (TooLarge 65537 :: unit CodecError))), \<lparr>recv = map RChunk chunks' @ [RErr], buf = [0, 1, 0, 1] @ b'\<rparr>)
   \<and> b' @ concat chunks' = [7]"
proof -
  have n: "unat (of_be_bytes32 [0, 1, 0, 1]) = 65537" by code_simp
  from oversized_frame_is_final [of "[0, 1, 0, 1]" "\<lparr>recv = [RChunk [0, 1, 7], RErr], buf = [0, 1]\<rparr>" "[[0, 1, 7]]" "[RErr]" "[7]",
      where 'pe = unit, unfolded n]
  show ?thesis by (simp add: LEN_PREFIX_def MAX_FRAME_LEN_def) blast
qed

end
