(* ===== verification/Ipc.thy ===== *)
theory Ipc
  imports Frames
begin

text \<open>
  Messages and framing between the monitor and the worker, \<^verbatim>\<open>quish-server/src/ipc.rs\<close>: the
  request and response types, the datagram channel that passes descriptors, the length-prefixed
  signing stream, the hand-off of the PAM environment, and the reading of hand-off variables.
\<close>

subsection \<open>Constants\<close>

definition IPC_CAP :: nat where
  "IPC_CAP = 64 * 1024"

text \<open>The names of the hand-off variables of the session helper.\<close>

definition ENV_SESS_UID :: string where "ENV_SESS_UID = ''QUISH_SESS_UID''"
definition ENV_SESS_GID :: string where "ENV_SESS_GID = ''QUISH_SESS_GID''"
definition ENV_SESS_USER :: string where "ENV_SESS_USER = ''QUISH_SESS_USER''"
definition ENV_SESS_HOME :: string where "ENV_SESS_HOME = ''QUISH_SESS_HOME''"
definition ENV_SESS_SHELL :: string where "ENV_SESS_SHELL = ''QUISH_SESS_SHELL''"
definition ENV_SESS_TERM :: string where "ENV_SESS_TERM = ''QUISH_SESS_TERM''"
definition ENV_SESS_COMMAND :: string where "ENV_SESS_COMMAND = ''QUISH_SESS_COMMAND''"
definition ENV_SESS_TTY :: string where "ENV_SESS_TTY = ''QUISH_SESS_TTY''"
definition ENV_SESS_TRANSFER_PATH :: string where "ENV_SESS_TRANSFER_PATH = ''QUISH_SESS_TRANSFER_PATH''"
definition ENV_SESS_TRANSFER_WRITE_PATH :: string where
  "ENV_SESS_TRANSFER_WRITE_PATH = ''QUISH_SESS_TRANSFER_WRITE_PATH''"
definition ENV_SESS_TRANSFER_MODE :: string where "ENV_SESS_TRANSFER_MODE = ''QUISH_SESS_TRANSFER_MODE''"
definition ENV_SESS_MKDIR_PATH :: string where "ENV_SESS_MKDIR_PATH = ''QUISH_SESS_MKDIR_PATH''"
definition ENV_SESS_PAM_ENV :: string where "ENV_SESS_PAM_ENV = ''QUISH_SESS_PAM_ENV''"

lemmas sess_env_defs = ENV_SESS_UID_def ENV_SESS_GID_def ENV_SESS_USER_def ENV_SESS_HOME_def
  ENV_SESS_SHELL_def ENV_SESS_TERM_def ENV_SESS_COMMAND_def ENV_SESS_TTY_def ENV_SESS_TRANSFER_PATH_def
  ENV_SESS_TRANSFER_WRITE_PATH_def ENV_SESS_TRANSFER_MODE_def ENV_SESS_MKDIR_PATH_def ENV_SESS_PAM_ENV_def

subsection \<open>The PAM environment\<close>

definition pam_record :: "string \<times> string \<Rightarrow> string" where
  "pam_record kv = fst kv @ ''='' @ snd kv @ [CHR 0x0A]"

definition pam_record_ok :: "string \<times> string \<Rightarrow> bool" where
  "pam_record_ok kv \<longleftrightarrow>
     \<not> (CHR ''='' \<in> set (fst kv) \<or> CHR 0x0A \<in> set (fst kv) \<or> CHR 0x0A \<in> set (snd kv))"

definition encode_pam_env :: "(byte list \<Rightarrow> string) \<Rightarrow> (string \<times> string) list \<Rightarrow> string" where
  "encode_pam_env b64 env =
     b64 (as_bytes (foldl (\<lambda>blob kv. if pam_record_ok kv then blob @ pam_record kv else blob) [] env))"

definition decode_pam_env :: "(string \<Rightarrow> 'be + byte list) \<Rightarrow> string \<Rightarrow> (string \<times> string) list" where
  "decode_pam_env unb64 encoded = (case unb64 encoded of
       Inl _ \<Rightarrow> []
     | Inr blob \<Rightarrow> List.map_filter (\<lambda>line. if line = [] then None else split_once (CHR ''='') line)
         (split_on (CHR 0x0A) (map byte_char blob)))"

subsection \<open>Hand-off variables\<close>

type_synonym environ = "string \<Rightarrow> string option"

datatype env_error = MissingEnv string | BadEnv string

definition env_get :: "environ \<Rightarrow> string \<Rightarrow> env_error + string" where
  "env_get e key = ok_or (MissingEnv key) (e key)"

definition env_u32 :: "environ \<Rightarrow> string \<Rightarrow> env_error + u32" where
  "env_u32 e key = rbind (env_get e key) (\<lambda>v. ok_or (BadEnv key) (parse_u32 v))"

definition env_bool :: "environ \<Rightarrow> string \<Rightarrow> bool" where
  "env_bool e key \<longleftrightarrow> e key = Some ''true''"

subsection \<open>Messages\<close>

datatype Request =
    Authenticate conn_id "string option" string "byte list" "ChallengeAnswer option"
  | SpawnShell conn_id string
  | SpawnExec conn_id string
  | Reap session_id
  | Close conn_id
  | SignalReq session_id Signal
  | SpawnTransfer conn_id string
  | SpawnTransferWrite conn_id string u32
  | SpawnMkdir conn_id string u32

datatype Response =
    VerdictR bool
  | ChallengeR Challenge
  | Spawned session_id
  | Exited "32 word"
  | Failed
  | Closed

record SignRequest =
  sign_message :: "byte list"

datatype SignResponse = Signature "byte list" | SignFailed

subsection \<open>The control channel\<close>

text \<open>One datagram: its bytes and the descriptors that ride with it.\<close>

type_synonym 'fd datagram = "byte list \<times> 'fd list"

datatype ipc_error = EncodeIpc | TooManyFds | MessageTooLarge | ShortBody | DecodeBody

definition ANC_FDS :: nat where
  "ANC_FDS = 12"

text \<open>The ancillary buffer of 64 bytes holds a header of 16 and twelve descriptors of 4.\<close>

definition ctrl_send :: "('m \<Rightarrow> 'pe + byte list) \<Rightarrow> 'm \<Rightarrow> 'fd list \<Rightarrow> ipc_error + 'fd datagram" where
  "ctrl_send to_stdvec msg fds = (case to_stdvec msg of
       Inl _ \<Rightarrow> Inl EncodeIpc
     | Inr bytes \<Rightarrow> if fds \<noteq> [] \<and> length fds > ANC_FDS then Inl TooManyFds else Inr (bytes, fds))"

datatype ('m, 'fd) Recv = Msg 'm "'fd list" | Bad | RecvClosed

text \<open>The receive buffer has \<^const>\<open>IPC_CAP\<close> bytes: what a datagram has beyond them is lost.  An
  empty read without descriptors is the peer's close.\<close>

definition ctrl_recv :: "(byte list \<Rightarrow> 'pe + 'm) \<Rightarrow> 'fd datagram \<Rightarrow> ('m, 'fd) Recv" where
  "ctrl_recv from_bytes dgram = (case dgram of (bytes, fds) \<Rightarrow>
     (let b = take IPC_CAP bytes in
      if b = [] \<and> fds = [] then RecvClosed
      else case from_bytes b of Inr msg \<Rightarrow> Msg msg fds | Inl _ \<Rightarrow> Bad))"

subsection \<open>The signing stream\<close>

definition sign_write :: "('m \<Rightarrow> 'pe + byte list) \<Rightarrow> 'm \<Rightarrow> ipc_error + byte list" where
  "sign_write to_stdvec msg = (case to_stdvec msg of
       Inl _ \<Rightarrow> Inl EncodeIpc
     | Inr bytes \<Rightarrow>
         if length bytes > IPC_CAP then Inl MessageTooLarge
         else Inr (be_bytes32 (word_of_nat (length bytes)) @ bytes))"

text \<open>Read off the bytes the stream has; \<open>eof\<close> says whether the peer has closed after them.
  \<^verbatim>\<open>read_exact\<close> blocks when the stream is open and short, and fails when it is closed and short.\<close>

definition sign_read ::
  "(byte list \<Rightarrow> 'pe + 'm) \<Rightarrow> bool \<Rightarrow> byte list \<Rightarrow> (ipc_error + 'm option) poll \<times> byte list" where
  "sign_read from_bytes eof s =
     (if length s < 4 then (if eof then (Ready (Inr None), []) else (Pending, s))
      else let n = unat (of_be_bytes32 (take 4 s)); s = drop 4 s in
        if n > IPC_CAP then (Ready (Inl MessageTooLarge), s)
        else if length s < n then (if eof then (Ready (Inl ShortBody), []) else (Pending, s))
        else case from_bytes (take n s) of
               Inr m \<Rightarrow> (Ready (Inr (Some m)), drop n s)
             | Inl _ \<Rightarrow> (Ready (Inl DecodeBody), drop n s))"

subsection \<open>Lemmas\<close>

lemma pam_blob:
  "foldl (\<lambda>blob kv. if pam_record_ok kv then blob @ pam_record kv else blob) b env
     = b @ concat (map pam_record (filter pam_record_ok env))"
  by (induction env arbitrary: b) auto

lemma decode_pam_lines:
  "list_all pam_record_ok kvs \<Longrightarrow>
     List.map_filter (\<lambda>line. if line = [] then None else split_once (CHR ''='') line)
       (split_on (CHR 0x0A) (concat (map pam_record kvs))) = kvs"
proof (induction kvs)
  case Nil
  then show ?case by (simp add: map_filter_simps)
next
  case (Cons kv kvs)
  obtain k v where kv: "kv = (k, v)" by (cases kv)
  have ok: "CHR ''='' \<notin> set k" "CHR 0x0A \<notin> set (k @ ''='' @ v)"
    using Cons.prems kv by (auto simp: pam_record_ok_def)
  have "split_on (CHR 0x0A) (concat (map pam_record (kv # kvs)))
      = (k @ ''='' @ v) # split_on (CHR 0x0A) (concat (map pam_record kvs))"
    using split_on_line [OF ok(2), of "concat (map pam_record kvs)"] by (simp add: kv pam_record_def)
  moreover have "split_once (CHR ''='') (k @ ''='' @ v) = Some (k, v)"
    using split_once_append [OF ok(1)] by simp
  ultimately show ?case
    using Cons kv by (simp add: map_filter_simps)
qed

lemma env_u32_show [str_simps]: "e key = Some (show_nat (unat w)) \<Longrightarrow> env_u32 e key = Inr w"
  using unat_u32_less [of w]
  by (simp add: env_u32_def env_get_def ok_or_def parse_u32_def parse_unsigned_show_nat)

lemma sign_write_read:
  assumes "sign_write to_vec m = Inr bs" "\<And>b. to_vec m = Inr b \<Longrightarrow> from_bytes b = Inr m"
  shows "sign_read from_bytes eof (bs @ rest) = (Ready (Inr (Some m)), rest)"
proof -
  obtain b where b: "to_vec m = Inr b" "length b \<le> IPC_CAP" "bs = be_bytes32 (word_of_nat (length b)) @ b"
    using assms(1) by (auto simp: sign_write_def split: sum.splits if_splits)
  have "unat (word_of_nat (length b) :: u32) = length b"
    using b(2) by (simp add: IPC_CAP_def unsigned_of_nat take_bit_eq_mod)
  then show ?thesis
    using b assms(2) by (simp add: sign_read_def Let_def)
qed

lemma ctrl_roundtrip:
  assumes "ctrl_send to_vec m fds = Inr d" "\<And>b. to_vec m = Inr b \<Longrightarrow> from_bytes b = Inr m"
    and "length (fst d) \<le> IPC_CAP" "fst d \<noteq> []"
  shows "ctrl_recv from_bytes d = Msg m fds"
  using assms by (auto simp: ctrl_send_def ctrl_recv_def Let_def IPC_CAP_def split: sum.splits if_splits)

subsection \<open>Properties\<close>

text \<open>The PAM environment arrives at the session helper unchanged and in order, except for the
  records that cannot be represented, which are left out whole.\<close>

lemma pam_env_roundtrip:
  assumes "\<And>bs. dec (enc bs) = Inr bs"
  shows "decode_pam_env dec (encode_pam_env enc kvs) = filter pam_record_ok kvs"
proof -
  have "map byte_char (as_bytes s) = s" for s by (simp add: as_bytes_def comp_def)
  moreover have "list_all pam_record_ok (filter pam_record_ok kvs)" by (simp add: list_all_iff)
  ultimately show ?thesis
    by (simp add: decode_pam_env_def encode_pam_env_def assms pam_blob decode_pam_lines)
qed

end
