(* ===== verification/Rust_Net.thy ===== *)
theory Rust_Net
  imports Rust_Str
begin

text \<open>
  The parser of socket addresses of Rust's standard library, \<^verbatim>\<open>"...".parse::<SocketAddr>()\<close>.
  A parser returns the value and the rest of the input.  Flow information and scope identifiers of
  IPv6 addresses are read and dropped.
\<close>

type_synonym 'a parser = "string \<Rightarrow> ('a \<times> string) option"

definition read_char :: "char \<Rightarrow> unit parser" where
  "read_char c s = (case s of x # r \<Rightarrow> if x = c then Some ((), r) else None | [] \<Rightarrow> None)"

fun radix_val :: "nat \<Rightarrow> char \<Rightarrow> nat option" where
  "radix_val radix c =
     (let n = (of_char c :: nat);
          v = (if 48 \<le> n \<and> n \<le> 57 then Some (n - 48)
               else if 97 \<le> n \<and> n \<le> 122 then Some (n - 87)
               else if 65 \<le> n \<and> n \<le> 90 then Some (n - 55) else None)
      in case v of Some d \<Rightarrow> if d < radix then Some d else None | None \<Rightarrow> None)"

text \<open>\<^verbatim>\<open>read_number\<close>: the longest run of digits; too many digits, a forbidden leading zero or a value
  out of range fail.\<close>

definition read_number :: "nat \<Rightarrow> nat option \<Rightarrow> bool \<Rightarrow> nat \<Rightarrow> nat parser" where
  "read_number radix max_digits allow_zero_prefix bound s =
     (let ds = takeWhile (\<lambda>c. radix_val radix c \<noteq> None) s;
          v = foldl (\<lambda>a c. radix * a + the (radix_val radix c)) 0 ds
      in if ds = [] \<or> (case max_digits of Some m \<Rightarrow> length ds > m | None \<Rightarrow> False)
            \<or> (\<not> allow_zero_prefix \<and> hd ds = CHR ''0'' \<and> length ds > 1) \<or> v \<ge> bound
         then None else Some (v, drop (length ds) s))"

definition read_octet :: "nat parser" where
  "read_octet = read_number 10 (Some 3) False 256"

fun read_octets :: "nat \<Rightarrow> nat list parser" where
  "read_octets 0 s = Some ([], s)"
| "read_octets (Suc k) s =
     Option.bind (read_octet s) (\<lambda>(o', r).
       if k = 0 then Some ([o'], r)
       else Option.bind (read_char (CHR ''.'') r) (\<lambda>(_, r).
            Option.bind (read_octets k r) (\<lambda>(os, r). Some (o' # os, r))))"

definition read_ipv4 :: "nat list parser" where
  "read_ipv4 = read_octets 4"

text \<open>A separated item: the separator is read before every item but the first.\<close>

definition read_separated :: "char \<Rightarrow> nat \<Rightarrow> 'a parser \<Rightarrow> 'a parser" where
  "read_separated sep i p s =
     (if i > 0 then Option.bind (read_char sep s) (\<lambda>(_, r). p r) else p s)"

text \<open>Up to \<open>left\<close> groups of an IPv6 address from position \<open>i\<close>, and whether they end in an embedded
  IPv4 address.\<close>

fun read_groups :: "nat \<Rightarrow> nat \<Rightarrow> string \<Rightarrow> nat list \<times> bool \<times> string" where
  "read_groups i 0 s = ([], False, s)"
| "read_groups i (Suc left) s =
     (case (if left > 0 then read_separated (CHR '':'') i read_ipv4 s else None) of
        Some (os, r) \<Rightarrow> ([256 * os ! 0 + os ! 1, 256 * os ! 2 + os ! 3], True, r)
      | None \<Rightarrow>
          (case read_separated (CHR '':'') i (read_number 16 (Some 4) True 65536) s of
             Some (g, r) \<Rightarrow> (case read_groups (Suc i) left r of (gs, v4, r') \<Rightarrow> (g # gs, v4, r'))
           | None \<Rightarrow> ([], False, s)))"

definition read_ipv6 :: "nat list parser" where
  "read_ipv6 s =
     (case read_groups 0 8 s of (head, head_v4, r) \<Rightarrow>
        if length head = 8 then Some (head, r)
        else if head_v4 then None
        else Option.bind (read_char (CHR '':'') r) (\<lambda>(_, r).
             Option.bind (read_char (CHR '':'') r) (\<lambda>(_, r).
               case read_groups 0 (8 - (length head + 1)) r of (tail, _, r) \<Rightarrow>
                 Some (head @ replicate (8 - length head - length tail) 0 @ tail, r))))"

definition of_groups :: "nat \<Rightarrow> nat list \<Rightarrow> nat" where
  "of_groups base gs = foldl (\<lambda>a g. base * a + g) 0 gs"

definition read_port :: "u16 parser" where
  "read_port s = Option.bind (read_char (CHR '':'') s) (\<lambda>(_, r).
     map_option (\<lambda>(n, r). (word_of_nat n, r)) (read_number 10 None True 65536 r))"

definition read_socket_v4 :: "SocketAddr parser" where
  "read_socket_v4 s = Option.bind (read_ipv4 s) (\<lambda>(os, r).
     map_option (\<lambda>(p, r). ((V4 (word_of_nat (of_groups 256 os)), p), r)) (read_port r))"

definition read_scope :: "unit parser" where
  "read_scope s = (case read_char (CHR ''%'') s of
       None \<Rightarrow> Some ((), s)
     | Some (_, r) \<Rightarrow> map_option (\<lambda>(_, r). ((), r)) (read_number 10 None True (2 ^ 32) r))"

definition read_socket_v6 :: "SocketAddr parser" where
  "read_socket_v6 s = Option.bind (read_char (CHR ''['') s) (\<lambda>(_, r).
     Option.bind (read_ipv6 r) (\<lambda>(gs, r).
     Option.bind (read_scope r) (\<lambda>(_, r).
     Option.bind (read_char (CHR '']'') r) (\<lambda>(_, r).
       map_option (\<lambda>(p, r). ((V6 (word_of_nat (of_groups 65536 gs)), p), r)) (read_port r)))))"

definition parse_socket_addr :: "string \<Rightarrow> SocketAddr option" where
  "parse_socket_addr s =
     Option.bind (case read_socket_v4 s of Some x \<Rightarrow> Some x | None \<Rightarrow> read_socket_v6 s)
       (\<lambda>(a, r). if r = [] then Some a else None)"

text \<open>\<^verbatim>\<open>IpAddr::is_loopback\<close>: 127.0.0.0/8, and \<^verbatim>\<open>::1\<close>.\<close>

fun is_loopback :: "IpAddr \<Rightarrow> bool" where
  "is_loopback (V4 a) \<longleftrightarrow> drop_bit 24 a = 127"
| "is_loopback (V6 a) \<longleftrightarrow> a = 1"

lemma parse_socket_addr_examples:
  "parse_socket_addr ''127.0.0.1:443'' = Some (V4 0x7F000001, 443)"
  "parse_socket_addr ''[::1]:22'' = Some (V6 1, 22)"
  "parse_socket_addr ''[fe80::1%2]:22'' = Some (V6 0xFE800000000000000000000000000001, 22)"
  "parse_socket_addr ''1.2.3.04:22'' = None"
  by code_simp+

subsection \<open>Printing\<close>

text \<open>\<^verbatim>\<open>to_string\<close> of addresses: dotted quads; hexadecimal groups with the first of the longest runs
  of two or more zero groups written \<^verbatim>\<open>::\<close>, and IPv4-mapped addresses with a dotted tail.\<close>

definition octets :: "32 word \<Rightarrow> nat list" where
  "octets a = map (\<lambda>i. unat a div 256 ^ i mod 256) [3, 2, 1, 0]"

definition groups :: "128 word \<Rightarrow> nat list" where
  "groups a = map (\<lambda>i. unat a div 65536 ^ i mod 65536) [7, 6, 5, 4, 3, 2, 1, 0]"

fun intercalate :: "string \<Rightarrow> string list \<Rightarrow> string" where
  "intercalate sep [] = []"
| "intercalate sep [x] = x"
| "intercalate sep (x # xs) = x @ sep @ intercalate sep xs"

definition show_ipv4 :: "32 word \<Rightarrow> string" where
  "show_ipv4 a = intercalate ''.'' (map show_nat (octets a))"

definition hex_char :: "nat \<Rightarrow> char" where
  "hex_char n = (if n < 10 then char_of (48 + n) else char_of (87 + n))"

fun show_hex :: "nat \<Rightarrow> string" where
  "show_hex n = (if n < 16 then [hex_char n] else show_hex (n div 16) @ [hex_char (n mod 16)])"

declare show_hex.simps [simp del]

text \<open>Start and length of the first longest run of zero groups.\<close>

fun zero_run :: "nat list \<Rightarrow> nat \<Rightarrow> nat \<times> nat \<Rightarrow> nat \<times> nat \<Rightarrow> nat \<times> nat" where
  "zero_run [] i cur best = best"
| "zero_run (g # gs) i (cs, cl) (bs, bl) =
     (if g = 0 then
        let cs' = (if cl = 0 then i else cs); cl' = cl + 1 in
        zero_run gs (i + 1) (cs', cl') (if cl' > bl then (cs', cl') else (bs, bl))
      else zero_run gs (i + 1) (0, 0) (bs, bl))"

definition show_groups :: "nat list \<Rightarrow> string" where
  "show_groups gs = intercalate '':'' (map show_hex gs)"

definition show_ipv6 :: "128 word \<Rightarrow> string" where
  "show_ipv6 a =
     (let gs = groups a in
      if take 6 gs = [0, 0, 0, 0, 0, 65535] then ''::ffff:'' @ show_ipv4 (word_of_nat (unat a mod 2 ^ 32))
      else case zero_run gs 0 (0, 0) (0, 0) of (s, l) \<Rightarrow>
        if l > 1 then show_groups (take s gs) @ ''::'' @ show_groups (drop (s + l) gs)
        else show_groups gs)"

fun show_socket_addr :: "SocketAddr \<Rightarrow> string" where
  "show_socket_addr (V4 a, p) = show_ipv4 a @ '':'' @ show_nat (unat p)"
| "show_socket_addr (V6 a, p) = ''['' @ show_ipv6 a @ '']:'' @ show_nat (unat p)"

lemma show_socket_addr_examples:
  "show_socket_addr (V4 0x7F000001, 443) = ''127.0.0.1:443''"
  "show_socket_addr (V6 1, 22) = ''[::1]:22''"
  "show_socket_addr (V6 0x20010DB8000000000000000000010000, 22) = ''[2001:db8::1:0]:22''"
  "show_socket_addr (V6 0xFFFF7F000001, 22) = ''[::ffff:127.0.0.1]:22''"
  by code_simp+

text \<open>\<^verbatim>\<open>"...".parse::<IpAddr>()\<close>.\<close>

definition parse_ip_addr :: "string \<Rightarrow> IpAddr option" where
  "parse_ip_addr s =
     Option.bind (case read_ipv4 s of
         Some (os, r) \<Rightarrow> Some (V4 (word_of_nat (of_groups 256 os)), r)
       | None \<Rightarrow> map_option (\<lambda>(gs, r). (V6 (word_of_nat (of_groups 65536 gs)), r)) (read_ipv6 s))
       (\<lambda>(a, r). if r = [] then Some a else None)"

subsection \<open>Printed IPv4 addresses parse back\<close>

lemma radix_val_10: "radix_val 10 c = (if is_digit c then Some (digit_val c) else None)"
  by (auto simp: is_digit_def digit_val_def Let_def)

lemma foldl_radix_digits:
  "list_all is_digit s \<Longrightarrow> foldl (\<lambda>a c. 10 * a + the (radix_val 10 c)) n s = foldl (\<lambda>a c. 10 * a + digit_val c) n s"
  by (induction s arbitrary: n) (simp_all add: radix_val_10 del: radix_val.simps)

lemma show_nat_no_leading_zero: "n \<ge> 10 \<Longrightarrow> hd (show_nat n) \<noteq> CHR ''0''"
proof (induction n rule: show_nat.induct)
  case (1 n)
  have "hd (show_nat (n div 10)) \<noteq> CHR ''0''"
  proof (cases "n div 10 < 10")
    case True
    then have "hd (show_nat (n div 10)) = digit_char (n div 10)" by (subst show_nat.simps) simp
    moreover have "(of_char (digit_char (n div 10)) :: nat) \<noteq> of_char (CHR ''0'')"
      using True 1 by (simp add: of_char_digit_char)
    ultimately show ?thesis by metis
  qed (use 1 in auto)
  then show ?case using 1 show_nat_digits [of "n div 10"] by (subst show_nat.simps) simp
qed

lemma length_show_nat_3: "n < 1000 \<Longrightarrow> length (show_nat n) \<le> 3"
  by (subst show_nat.simps, simp, subst show_nat.simps, simp, subst show_nat.simps, simp)

lemma read_number_show_nat:
  assumes "n < bound" "rest = [] \<or> \<not> is_digit (hd rest)"
    "\<And>m. k = Some m \<Longrightarrow> length (show_nat n) \<le> m"
  shows "read_number 10 k z bound (show_nat n @ rest) = Some (n, rest)"
proof -
  have d: "list_all is_digit (show_nat n)" "show_nat n \<noteq> []" "digits_val (show_nat n) = n"
    using show_nat_digits [of n] by auto
  have t: "takeWhile (\<lambda>c. radix_val 10 c \<noteq> None) (show_nat n @ rest) = show_nat n"
    using d(1) assms(2) by (subst takeWhile_append2) (auto simp: radix_val_10 list_all_iff takeWhile_eq_Nil_iff simp del: radix_val.simps)
  have z: "\<not> (hd (show_nat n) = CHR ''0'' \<and> length (show_nat n) > 1)"
    using show_nat_no_leading_zero [of n] by (cases "n < 10") (auto simp: show_nat.simps [of n])
  show ?thesis
    unfolding read_number_def Let_def t foldl_radix_digits [OF d(1)]
    using d(2,3) assms(1,3) z by (auto simp: digits_val_def split: option.splits)
qed

lemma read_octet_show: "n < 256 \<Longrightarrow> rest = [] \<or> \<not> is_digit (hd rest) \<Longrightarrow> read_octet (show_nat n @ rest) = Some (n, rest)"
  unfolding read_octet_def using length_show_nat_3 [of n] by (intro read_number_show_nat) auto

lemma read_ipv4_show:
  assumes "rest = [] \<or> \<not> is_digit (hd rest)"
  shows "read_ipv4 (show_ipv4 a @ rest) = Some (octets a, rest)"
proof -
  have dot: "\<not> is_digit (CHR ''.'')" by (simp add: is_digit_def)
  define o3 o2 o1 o0 where o: "o3 = unat a div 256 ^ 3 mod 256" "o2 = unat a div 256 ^ 2 mod 256"
    "o1 = unat a div 256 ^ 1 mod 256" "o0 = unat a div 256 ^ 0 mod 256"
  have oa: "octets a = [o3, o2, o1, o0]" by (simp add: octets_def o)
  have lt: "o3 < 256" "o2 < 256" "o1 < 256" "o0 < 256" by (simp_all add: o)
  show ?thesis
    unfolding read_ipv4_def show_ipv4_def oa
    using lt assms dot
    by (simp add: eval_nat_numeral(2,3) read_octet_show read_char_def)
qed

lemma of_groups_octets: "of_groups 256 (octets a) = unat a"
proof -
  define n where "n = unat a"
  have "n < 2 ^ 32" unfolding n_def using unsigned_less [of a] by simp
  then have top: "n div 256 div 256 div 256 mod 256 = n div 256 div 256 div 256"
    by (simp add: less_mult_imp_div_less flip: div_mult2_eq)
  have "of_groups 256 (octets a) =
      256 * (256 * (256 * (n div 256 div 256 div 256 mod 256) + n div 256 div 256 mod 256) + n div 256 mod 256) + n mod 256"
    unfolding of_groups_def octets_def n_def by (simp flip: div_mult2_eq)
  also have "\<dots> = n" unfolding top by (simp only: mult_div_mod_eq)
  finally show ?thesis by (simp add: n_def)
qed

lemma read_port_show: "read_port ('':'' @ show_nat (unat p)) = Some (p, [])"
proof -
  have "unat p < 65536" using unsigned_less [of p] by simp
  then show ?thesis
    using read_number_show_nat [of "unat p" 65536 "[]" None True] by (simp add: read_port_def read_char_def)
qed

lemma parse_show_socket_v4 [str_simps]: "parse_socket_addr (show_socket_addr (V4 a, p)) = Some (V4 a, p)"
  using read_ipv4_show [of "'':'' @ show_nat (unat p)" a] read_port_show [of p]
  by (simp add: parse_socket_addr_def read_socket_v4_def of_groups_octets is_digit_def)

lemma parse_show_ipv4 [str_simps]: "parse_ip_addr (show_ipv4 a) = Some (V4 a)"
  using read_ipv4_show [of "[]" a] by (simp add: parse_ip_addr_def of_groups_octets)

end
