(* ===== verification/Monitor.thy ===== *)
theory Monitor
  imports Challenges Pam Ipc Rust_Net
begin

text \<open>
  The privileged monitor's control loop, \<^verbatim>\<open>quish-server/src/monitor.rs\<close>: its state, one handler
  per request of the worker, the spawning of session helpers under the authenticated user, and
  their reaping.

  What the operating system answers while a request is served is the record \<open>MonEnv\<close>; what the
  monitor does to processes and PAM sessions is the list of effects a handler returns.  The
  registry's verdict is part of the environment, since it depends on clock and files.
\<close>

subsection \<open>Processes\<close>

text \<open>An entry of the password database.\<close>

record PwUser =
  pw_name :: string
  pw_uid :: u32
  pw_gid :: u32
  pw_dir :: string
  pw_shell :: string

datatype stdio = Inherit | Null | Piped | Tty string

record Command =
  program :: string
  cmd_args :: "string list"
  cmd_env :: "string \<Rightarrow> string option"
  cmd_stdin :: stdio
  cmd_stdout :: stdio
  cmd_stderr :: stdio

record Child =
  pid :: u32
  child_cmd :: Command

datatype os_signal = SIGHUP | SIGKILL | SIGINT | SIGQUIT | SIGTERM

datatype fd = PtyMaster string | StdinOf u32 | StdoutOf u32 | StderrOf u32

datatype effect =
    Spawn Child
  | Killpg u32 os_signal
  | Kill u32 os_signal
  | Wait u32
  | PamOpen string
  | PamClose string

type_synonym verdict_fn = "string option \<Rightarrow> ConnInfo \<Rightarrow> Verdict poll"

record MonEnv =
  mon_verdict :: verdict_fn
  mon_now :: nanos
  mon_done :: nanos
  getpwnam :: "string \<Rightarrow> PwUser option"
  pam_lib :: "PamLib option"
  mon_b64 :: "byte list \<Rightarrow> string"
  current_exe :: string
  open_pty :: "string option"
  os_spawn :: "Command \<Rightarrow> u32 option"
  try_wait :: "u32 \<Rightarrow> 32 word option option"
  wait_child :: "u32 \<Rightarrow> 32 word option option"

text \<open>\<open>mon_verdict\<close> is the registry's \<^const>\<open>verdict\<close> at that time, \<open>mon_now\<close> the instant before it is
  awaited and \<open>mon_done\<close> the instant after.  \<open>pam_lib\<close> is \<^const>\<open>None\<close> in a build without the \<^verbatim>\<open>pam\<close> feature.  \<open>open_pty\<close> is the path of the
  slave when the pseudo-terminal could be opened, granted, unlocked, named and its slave opened and
  duplicated.  The inner option of the wait results is \<^verbatim>\<open>ExitStatus::code()\<close>.\<close>

subsection \<open>Spawning helpers\<close>

datatype spawn_error = NoSuchUser | PtyFailed | SpawnFailed | NoPipe

definition lookup_user :: "MonEnv \<Rightarrow> string \<Rightarrow> spawn_error + PwUser" where
  "lookup_user e user = ok_or NoSuchUser (getpwnam e user)"

definition session_command :: "MonEnv \<Rightarrow> PwUser \<Rightarrow> Command" where
  "session_command e u =
     (let shell = (if pw_shell u = [] then ''/bin/sh'' else pw_shell u) in
      \<lparr>program = current_exe e, cmd_args = [''--internal-run-session''],
       cmd_env = [ENV_SESS_UID \<mapsto> show_nat (unat (pw_uid u)), ENV_SESS_GID \<mapsto> show_nat (unat (pw_gid u)),
                  ENV_SESS_USER \<mapsto> pw_name u, ENV_SESS_HOME \<mapsto> pw_dir u, ENV_SESS_SHELL \<mapsto> shell],
       cmd_stdin = Inherit, cmd_stdout = Inherit, cmd_stderr = Inherit\<rparr>)"

definition set_env :: "string \<Rightarrow> string \<Rightarrow> Command \<Rightarrow> Command" where
  "set_env k v c = c\<lparr>cmd_env := (cmd_env c)(k \<mapsto> v)\<rparr>"

definition set_env_opt :: "string \<Rightarrow> string option \<Rightarrow> Command \<Rightarrow> Command" where
  "set_env_opt k v c = (case v of Some x \<Rightarrow> set_env k x c | None \<Rightarrow> c)"

definition set_stdio :: "stdio \<Rightarrow> stdio \<Rightarrow> stdio \<Rightarrow> Command \<Rightarrow> Command" where
  "set_stdio i o' e' c = c\<lparr>cmd_stdin := i, cmd_stdout := o', cmd_stderr := e'\<rparr>"

definition spawn :: "MonEnv \<Rightarrow> Command \<Rightarrow> spawn_error + Child" where
  "spawn e c = (case os_spawn e c of Some p \<Rightarrow> Inr \<lparr>pid = p, child_cmd = c\<rparr> | None \<Rightarrow> Inl SpawnFailed)"

text \<open>The pipe end of a child is there when the stream was asked to be piped.\<close>

definition take_pipe :: "stdio \<Rightarrow> fd \<Rightarrow> spawn_error + fd" where
  "take_pipe s f = (if s = Piped then Inr f else Inl NoPipe)"

definition spawn_shell :: "MonEnv \<Rightarrow> string \<Rightarrow> string \<Rightarrow> string option \<Rightarrow> spawn_error + Child \<times> fd list" where
  "spawn_shell e user term pam_env =
     rbind (lookup_user e user) (\<lambda>u.
     rbind (ok_or PtyFailed (open_pty e)) (\<lambda>slave_path.
       let cmd = set_env_opt ENV_SESS_PAM_ENV pam_env
                  (set_stdio (Tty slave_path) (Tty slave_path) (Tty slave_path)
                    (set_env ENV_SESS_TTY slave_path (set_env ENV_SESS_TERM term (session_command e u))))
       in rbind (spawn e cmd) (\<lambda>child. Inr (child, [PtyMaster slave_path]))))"

definition spawn_exec :: "MonEnv \<Rightarrow> string \<Rightarrow> string \<Rightarrow> string option \<Rightarrow> spawn_error + Child \<times> fd list" where
  "spawn_exec e user command pam_env =
     rbind (lookup_user e user) (\<lambda>u.
       let cmd = set_env_opt ENV_SESS_PAM_ENV pam_env
                  (set_stdio Piped Piped Piped (set_env ENV_SESS_COMMAND command (session_command e u)))
       in rbind (spawn e cmd) (\<lambda>child.
          rbind (take_pipe (cmd_stdin cmd) (StdinOf (pid child))) (\<lambda>i.
          rbind (take_pipe (cmd_stdout cmd) (StdoutOf (pid child))) (\<lambda>out.
          rbind (take_pipe (cmd_stderr cmd) (StderrOf (pid child))) (\<lambda>err.
            Inr (child, [i, out, err]))))))"

definition spawn_transfer :: "MonEnv \<Rightarrow> string \<Rightarrow> string \<Rightarrow> spawn_error + Child \<times> fd list" where
  "spawn_transfer e user path =
     rbind (lookup_user e user) (\<lambda>u.
       let cmd = set_stdio Null Piped Inherit (set_env ENV_SESS_TRANSFER_PATH path (session_command e u))
       in rbind (spawn e cmd) (\<lambda>child.
          rbind (take_pipe (cmd_stdout cmd) (StdoutOf (pid child))) (\<lambda>out. Inr (child, [out]))))"

definition spawn_mkdir :: "MonEnv \<Rightarrow> string \<Rightarrow> string \<Rightarrow> u32 \<Rightarrow> spawn_error + Child \<times> fd list" where
  "spawn_mkdir e user path mode =
     rbind (lookup_user e user) (\<lambda>u.
       let cmd = set_stdio Null Piped Inherit (set_env ENV_SESS_TRANSFER_MODE (show_nat (unat mode))
                   (set_env ENV_SESS_MKDIR_PATH path (session_command e u)))
       in rbind (spawn e cmd) (\<lambda>child.
          rbind (take_pipe (cmd_stdout cmd) (StdoutOf (pid child))) (\<lambda>out. Inr (child, [out]))))"

definition spawn_transfer_write :: "MonEnv \<Rightarrow> string \<Rightarrow> string \<Rightarrow> u32 \<Rightarrow> spawn_error + Child \<times> fd list" where
  "spawn_transfer_write e user path mode =
     rbind (lookup_user e user) (\<lambda>u.
       let cmd = set_stdio Piped Piped Inherit (set_env ENV_SESS_TRANSFER_MODE (show_nat (unat mode))
                   (set_env ENV_SESS_TRANSFER_WRITE_PATH path (session_command e u)))
       in rbind (spawn e cmd) (\<lambda>child.
          rbind (take_pipe (cmd_stdin cmd) (StdinOf (pid child))) (\<lambda>i.
          rbind (take_pipe (cmd_stdout cmd) (StdoutOf (pid child))) (\<lambda>out. Inr (child, [i, out])))))"

text \<open>A PAM login session is opened before a shell or a command, when the build has PAM; a failure
  to open one is logged and the session goes on without.\<close>

definition open_pam :: "MonEnv \<Rightarrow> string \<Rightarrow> PamSession option" where
  "open_pam e user = (case pam_lib e of
       None \<Rightarrow> None
     | Some lib \<Rightarrow> (case open_session lib user of Inr s \<Rightarrow> Some s | Inl _ \<Rightarrow> None))"

definition pam_env_of :: "MonEnv \<Rightarrow> PamSession option \<Rightarrow> string option" where
  "pam_env_of e pam = map_option (\<lambda>s. encode_pam_env (mon_b64 e) (ps_env s)) pam"

subsection \<open>Reaping\<close>

definition exit_code :: "32 word option \<Rightarrow> 32 word" where
  "exit_code c = (case c of Some x \<Rightarrow> x | None \<Rightarrow> -1)"

definition reap_child :: "MonEnv \<Rightarrow> Child \<Rightarrow> 32 word \<times> effect list" where
  "reap_child e child =
     (let p = pid child in
      case try_wait e p of
        Some status \<Rightarrow> (exit_code status, [Wait p])
      | None \<Rightarrow>
          ((case wait_child e p of Some status \<Rightarrow> exit_code status | None \<Rightarrow> -1),
           [Killpg p SIGHUP, Kill p SIGHUP, Killpg p SIGKILL, Kill p SIGKILL, Wait p]))"

subsection \<open>The state\<close>

type_synonym SessionIndex = "conn_id \<Rightarrow> session_id list option"

definition idx_insert :: "conn_id \<Rightarrow> session_id \<Rightarrow> SessionIndex \<Rightarrow> SessionIndex" where
  "idx_insert c sid ix = ix(c \<mapsto> (case ix c of Some sids \<Rightarrow> sids | None \<Rightarrow> []) @ [sid])"

definition idx_take_conn :: "conn_id \<Rightarrow> SessionIndex \<Rightarrow> session_id list \<times> SessionIndex" where
  "idx_take_conn c ix = ((case ix c of Some sids \<Rightarrow> sids | None \<Rightarrow> []), ix(c := None))"

definition idx_forget :: "session_id \<Rightarrow> SessionIndex \<Rightarrow> SessionIndex" where
  "idx_forget sid ix = (\<lambda>c. map_option (filter (\<lambda>s. s \<noteq> sid)) (ix c))"

record State =
  users :: "conn_id \<Rightarrow> string option"
  sessions :: "session_id \<Rightarrow> Child option"
  conn_sessions :: SessionIndex
  challenges :: ChallengeStore
  next_session :: u64
  pam_sessions :: "session_id \<Rightarrow> PamSession option"

definition State_default :: State where
  "State_default = \<lparr>users = Map.empty, sessions = Map.empty, conn_sessions = Map.empty,
     challenges = Map.empty, next_session = 0, pam_sessions = Map.empty\<rparr>"

definition alloc :: "conn_id \<Rightarrow> Child \<Rightarrow> State \<Rightarrow> session_id \<times> State" where
  "alloc c child st =
     (let sid = next_session st + 1 in
      (sid, st\<lparr>next_session := sid, sessions := (sessions st)(sid \<mapsto> child),
               conn_sessions := idx_insert c sid (conn_sessions st)\<rparr>))"

definition forget_session :: "session_id \<Rightarrow> State \<Rightarrow> State" where
  "forget_session sid st =
     st\<lparr>sessions := (sessions st)(sid := None), conn_sessions := idx_forget sid (conn_sessions st)\<rparr>"

subsection \<open>The handlers\<close>

text \<open>A handler gives the new state, the reply, the descriptors passed with it, and the effects.\<close>

type_synonym reply = "State \<times> Response \<times> fd list \<times> effect list"

definition auth_conn_info ::
  "MonEnv \<Rightarrow> State \<Rightarrow> conn_id \<Rightarrow> string \<Rightarrow> byte list \<Rightarrow> ChallengeAnswer option \<Rightarrow> ConnInfo \<times> State" where
  "auth_conn_info e st c peer binding answer =
     (let conn = \<lparr>peer_addr = (case parse_socket_addr peer of Some a \<Rightarrow> a | None \<Rightarrow> (V4 0, 0)),
                  channel_binding = binding, challenge = None\<rparr>
      in case answer of
           None \<Rightarrow> (conn, st)
         | Some ans \<Rightarrow>
             (case cs_take (mon_now e) c (ans_token ans) (challenges st) of (parked, chs) \<Rightarrow>
               (conn\<lparr>challenge := map_option (\<lambda>s. ChallengeResponse_new s (responses ans)) parked\<rparr>,
                st\<lparr>challenges := chs\<rparr>)))"

definition handle_authenticate ::
  "MonEnv \<Rightarrow> State \<Rightarrow> conn_id \<Rightarrow> string option \<Rightarrow> string \<Rightarrow> byte list \<Rightarrow> ChallengeAnswer option \<Rightarrow> reply poll" where
  "handle_authenticate e st c authorization peer binding answer =
     (case auth_conn_info e st c peer binding answer of (conn, st) \<Rightarrow>
       poll_bind (mon_verdict e authorization conn) (\<lambda>v. Ready (case v of
           Allow user \<Rightarrow> (st\<lparr>users := (users st)(c \<mapsto> user)\<rparr>, VerdictR True, [], [])
         | ChallengeV state ps \<Rightarrow>
             (st\<lparr>challenges := cs_insert (mon_done e) c state (challenges st)\<rparr>,
              ChallengeR \<lparr>chal_token = token state, prompts = ps\<rparr>, [], [])
         | Deny \<Rightarrow> (st, VerdictR False, [], []))))"

text \<open>Shells and commands: with a PAM session around the child.\<close>

definition spawn_with_pam ::
  "MonEnv \<Rightarrow> State \<Rightarrow> conn_id \<Rightarrow> (string \<Rightarrow> string option \<Rightarrow> spawn_error + Child \<times> fd list) \<Rightarrow> reply" where
  "spawn_with_pam e st c mk = (case users st c of
       None \<Rightarrow> (st, Failed, [], [])
     | Some user \<Rightarrow>
         (let pam = open_pam e user;
              opened = (case pam of Some s \<Rightarrow> [PamOpen (ps_user s)] | None \<Rightarrow> [])
          in case mk user (pam_env_of e pam) of
               Inr (child, fds) \<Rightarrow>
                 (case alloc c child st of (sid, st) \<Rightarrow>
                    (case pam of
                       Some guard \<Rightarrow> st\<lparr>pam_sessions := (pam_sessions st)(sid \<mapsto> guard)\<rparr>
                     | None \<Rightarrow> st,
                     Spawned sid, fds, opened @ [Spawn child]))
             | Inl _ \<Rightarrow> (st, Failed, [], opened @ (case pam of Some s \<Rightarrow> [PamClose (ps_user s)] | None \<Rightarrow> []))))"

definition spawn_plain ::
  "State \<Rightarrow> conn_id \<Rightarrow> (string \<Rightarrow> spawn_error + Child \<times> fd list) \<Rightarrow> reply" where
  "spawn_plain st c mk = (case users st c of
       None \<Rightarrow> (st, Failed, [], [])
     | Some user \<Rightarrow>
         (case mk user of
            Inr (child, fds) \<Rightarrow> (case alloc c child st of (sid, st) \<Rightarrow> (st, Spawned sid, fds, [Spawn child]))
          | Inl _ \<Rightarrow> (st, Failed, [], [])))"

definition handle_spawn_shell :: "MonEnv \<Rightarrow> State \<Rightarrow> conn_id \<Rightarrow> string \<Rightarrow> reply" where
  [simp]: "handle_spawn_shell e st c term = spawn_with_pam e st c (\<lambda>user pe. spawn_shell e user term pe)"

definition handle_spawn_exec :: "MonEnv \<Rightarrow> State \<Rightarrow> conn_id \<Rightarrow> string \<Rightarrow> reply" where
  [simp]: "handle_spawn_exec e st c command = spawn_with_pam e st c (\<lambda>user pe. spawn_exec e user command pe)"

definition handle_spawn_transfer :: "MonEnv \<Rightarrow> State \<Rightarrow> conn_id \<Rightarrow> string \<Rightarrow> reply" where
  [simp]: "handle_spawn_transfer e st c path = spawn_plain st c (\<lambda>user. spawn_transfer e user path)"

definition handle_spawn_transfer_write :: "MonEnv \<Rightarrow> State \<Rightarrow> conn_id \<Rightarrow> string \<Rightarrow> u32 \<Rightarrow> reply" where
  [simp]: "handle_spawn_transfer_write e st c path mode = spawn_plain st c (\<lambda>user. spawn_transfer_write e user path mode)"

definition handle_spawn_mkdir :: "MonEnv \<Rightarrow> State \<Rightarrow> conn_id \<Rightarrow> string \<Rightarrow> u32 \<Rightarrow> reply" where
  [simp]: "handle_spawn_mkdir e st c path mode = spawn_plain st c (\<lambda>user. spawn_mkdir e user path mode)"

definition close_pam :: "session_id \<Rightarrow> State \<Rightarrow> State \<times> effect list" where
  "close_pam sid st =
     (st\<lparr>pam_sessions := (pam_sessions st)(sid := None)\<rparr>,
      case pam_sessions st sid of Some s \<Rightarrow> [PamClose (ps_user s)] | None \<Rightarrow> [])"

definition handle_reap :: "MonEnv \<Rightarrow> State \<Rightarrow> session_id \<Rightarrow> reply" where
  "handle_reap e st sid = (case sessions st sid of
       None \<Rightarrow> (st, Failed, [], [])
     | Some child \<Rightarrow>
         (let st = forget_session sid (st\<lparr>sessions := (sessions st)(sid := None)\<rparr>) in
          case reap_child e child of (code, killed) \<Rightarrow>
          case close_pam sid st of (st, closed) \<Rightarrow> (st, Exited code, [], killed @ closed)))"

fun close_sessions :: "MonEnv \<Rightarrow> session_id list \<Rightarrow> State \<Rightarrow> State \<times> effect list" where
  "close_sessions e [] st = (st, [])"
| "close_sessions e (sid # sids) st =
     (case (case sessions st sid of
              Some child \<Rightarrow> (st\<lparr>sessions := (sessions st)(sid := None)\<rparr>, snd (reap_child e child))
            | None \<Rightarrow> (st, [])) of (st, killed) \<Rightarrow>
      case close_pam sid st of (st, closed) \<Rightarrow>
      case close_sessions e sids st of (st, effs) \<Rightarrow> (st, killed @ closed @ effs))"

definition handle_close :: "MonEnv \<Rightarrow> State \<Rightarrow> conn_id \<Rightarrow> reply" where
  "handle_close e st c =
     (let st = st\<lparr>users := (users st)(c := None), challenges := cs_clear c (challenges st)\<rparr> in
      case idx_take_conn c (conn_sessions st) of (sids, ix) \<Rightarrow>
      case close_sessions e sids (st\<lparr>conn_sessions := ix\<rparr>) of (st, effs) \<Rightarrow> (st, Closed, [], effs))"

fun os_signal_of :: "Signal \<Rightarrow> os_signal" where
  "os_signal_of SigInt = SIGINT"
| "os_signal_of SigQuit = SIGQUIT"
| "os_signal_of SigTerm = SIGTERM"

definition handle_signal :: "State \<Rightarrow> session_id \<Rightarrow> Signal \<Rightarrow> reply" where
  "handle_signal st sid sig =
     (st, Closed, [], case sessions st sid of Some child \<Rightarrow> [Killpg (pid child) (os_signal_of sig)] | None \<Rightarrow> [])"

text \<open>One turn of \<^verbatim>\<open>serve_control\<close>.\<close>

fun handle :: "MonEnv \<Rightarrow> State \<Rightarrow> Request \<Rightarrow> reply poll" where
  "handle e st (Authenticate c authorization peer binding answer) =
     handle_authenticate e st c authorization peer binding answer"
| "handle e st (SpawnShell c term) = Ready (handle_spawn_shell e st c term)"
| "handle e st (SpawnExec c command) = Ready (handle_spawn_exec e st c command)"
| "handle e st (SpawnTransfer c path) = Ready (handle_spawn_transfer e st c path)"
| "handle e st (SpawnTransferWrite c path mode) = Ready (handle_spawn_transfer_write e st c path mode)"
| "handle e st (SpawnMkdir c path mode) = Ready (handle_spawn_mkdir e st c path mode)"
| "handle e st (Reap sid) = Ready (handle_reap e st sid)"
| "handle e st (Close c) = Ready (handle_close e st c)"
| "handle e st (SignalReq sid sig) = Ready (handle_signal st sid sig)"

text \<open>Runs of the loop: the state with what was served so far, the latest first.\<close>

record served =
  sv_env :: MonEnv
  sv_req :: Request
  sv_resp :: Response
  sv_fds :: "fd list"
  sv_eff :: "effect list"

inductive mon_run :: "State \<Rightarrow> served list \<Rightarrow> bool" where
  Start: "mon_run State_default []"
| Serve: "mon_run st tr \<Longrightarrow> handle e st req = Ready (st', resp, fds, effs) \<Longrightarrow>
     mon_run st' (\<lparr>sv_env = e, sv_req = req, sv_resp = resp, sv_fds = fds, sv_eff = effs\<rparr> # tr)"

inductive_cases mon_run_NilE: "mon_run st []"
inductive_cases mon_run_ConsE: "mon_run st (s # tr)"

subsection \<open>What the session index promises the state\<close>

locale conn_index =
  fixes ins :: "conn_id \<Rightarrow> session_id \<Rightarrow> 'ix \<Rightarrow> 'ix"
    and take_all :: "conn_id \<Rightarrow> 'ix \<Rightarrow> session_id list \<times> 'ix"
    and forget :: "session_id \<Rightarrow> 'ix \<Rightarrow> 'ix"
    and owned :: "'ix \<Rightarrow> conn_id \<Rightarrow> session_id set"
  assumes owned_ins: "owned (ins c sid ix) c' = (if c' = c then insert sid (owned ix c) else owned ix c')"
    and taken: "set (fst (take_all c ix)) = owned ix c"
    and owned_take: "owned (snd (take_all c ix)) c' = (if c' = c then {} else owned ix c')"
    and owned_forget: "owned (forget sid ix) c = owned ix c - {sid}"
begin

text \<open>The index covers a set of sessions: each belongs to exactly one connection.\<close>

definition covers :: "'ix \<Rightarrow> session_id set \<Rightarrow> bool" where
  "covers ix S \<longleftrightarrow> S = (\<Union>c. owned ix c) \<and> (\<forall>c c'. c \<noteq> c' \<longrightarrow> owned ix c \<inter> owned ix c' = {})"

lemma covers_ins: "covers ix S \<Longrightarrow> sid \<notin> S \<Longrightarrow> covers (ins c sid ix) (insert sid S)"
  by (auto simp: covers_def owned_ins split: if_splits)

lemma covers_take: "covers ix S \<Longrightarrow> covers (snd (take_all c ix)) (S - owned ix c)"
  by (auto simp: covers_def owned_take split: if_splits)

lemma covers_forget: "covers ix S \<Longrightarrow> covers (forget sid ix) (S - {sid})"
  by (auto simp: covers_def owned_forget)

lemma covers_owned: "covers ix S \<Longrightarrow> owned ix c \<subseteq> S"
  by (auto simp: covers_def)

end

definition idx_owned :: "SessionIndex \<Rightarrow> conn_id \<Rightarrow> session_id set" where
  "idx_owned ix c = (case ix c of Some sids \<Rightarrow> set sids | None \<Rightarrow> {})"

interpretation ix: conn_index idx_insert idx_take_conn idx_forget idx_owned
  by unfold_locales
     (auto simp: idx_owned_def idx_insert_def idx_take_conn_def idx_forget_def split: option.splits)

subsection \<open>Lemmas on spawning\<close>

text \<open>A command that hands the session helper the identity of a user.\<close>

definition runs_as :: "Command \<Rightarrow> PwUser \<Rightarrow> bool" where
  "runs_as c u \<longleftrightarrow> cmd_args c = [''--internal-run-session'']
     \<and> cmd_env c ENV_SESS_UID = Some (show_nat (unat (pw_uid u)))
     \<and> cmd_env c ENV_SESS_GID = Some (show_nat (unat (pw_gid u)))
     \<and> cmd_env c ENV_SESS_USER = Some (pw_name u)
     \<and> cmd_env c ENV_SESS_HOME = Some (pw_dir u)"

lemma runs_as_session_command [simp]: "runs_as (session_command e u) u"
  by (simp add: runs_as_def session_command_def Let_def sess_env_defs)

lemma runs_as_set_stdio [simp]: "runs_as (set_stdio i ou er c) u \<longleftrightarrow> runs_as c u"
  by (simp add: runs_as_def set_stdio_def)

lemma runs_as_set_env:
  "k \<notin> {ENV_SESS_UID, ENV_SESS_GID, ENV_SESS_USER, ENV_SESS_HOME} \<Longrightarrow> runs_as (set_env k v c) u \<longleftrightarrow> runs_as c u"
  by (auto simp: runs_as_def set_env_def)

lemma runs_as_kinds [simp]:
  "runs_as (set_env ENV_SESS_TERM v c) u \<longleftrightarrow> runs_as c u"
  "runs_as (set_env ENV_SESS_TTY v c) u \<longleftrightarrow> runs_as c u"
  "runs_as (set_env ENV_SESS_COMMAND v c) u \<longleftrightarrow> runs_as c u"
  "runs_as (set_env ENV_SESS_TRANSFER_PATH v c) u \<longleftrightarrow> runs_as c u"
  "runs_as (set_env ENV_SESS_TRANSFER_WRITE_PATH v c) u \<longleftrightarrow> runs_as c u"
  "runs_as (set_env ENV_SESS_TRANSFER_MODE v c) u \<longleftrightarrow> runs_as c u"
  "runs_as (set_env ENV_SESS_MKDIR_PATH v c) u \<longleftrightarrow> runs_as c u"
  "runs_as (set_env_opt ENV_SESS_PAM_ENV ov c) u \<longleftrightarrow> runs_as c u"
  by (auto simp: runs_as_set_env set_env_opt_def sess_env_defs split: option.splits)

lemma spawn_Inr [simp]:
  "spawn e c = Inr child \<longleftrightarrow> os_spawn e c = Some (pid child) \<and> child_cmd child = c"
  by (cases child) (auto simp: spawn_def split: option.splits)

definition spawned_for :: "MonEnv \<Rightarrow> string \<Rightarrow> Child \<Rightarrow> bool" where
  "spawned_for e user child \<longleftrightarrow>
     (\<exists>u. getpwnam e user = Some u \<and> runs_as (child_cmd child) u \<and> os_spawn e (child_cmd child) = Some (pid child))"

lemma spawners_run_as_user:
  "spawn_shell e user term pe = Inr (child, fds) \<Longrightarrow> spawned_for e user child"
  "spawn_exec e user command pe = Inr (child, fds) \<Longrightarrow> spawned_for e user child"
  "spawn_transfer e user path = Inr (child, fds) \<Longrightarrow> spawned_for e user child"
  "spawn_mkdir e user path mode = Inr (child, fds) \<Longrightarrow> spawned_for e user child"
  "spawn_transfer_write e user path mode = Inr (child, fds) \<Longrightarrow> spawned_for e user child"
  by (auto simp: spawned_for_def spawn_shell_def spawn_exec_def spawn_transfer_def spawn_mkdir_def
      spawn_transfer_write_def lookup_user_def Let_def)

subsection \<open>What a turn does\<close>

text \<open>A reply is a spawn for connection \<open>c\<close>: a fresh session of its user, entered in the index.\<close>

definition is_spawn :: "MonEnv \<Rightarrow> State \<Rightarrow> conn_id \<Rightarrow> string \<Rightarrow> Child \<Rightarrow> PamSession option \<Rightarrow> reply \<Rightarrow> bool" where
  "is_spawn e st c user child pam r \<longleftrightarrow> (\<exists>fds. users st c = Some user \<and> spawned_for e user child
     \<and> (pam \<noteq> None \<longrightarrow> map_option ps_user pam = Some user)
     \<and> r = (st\<lparr>next_session := next_session st + 1, sessions := (sessions st)(next_session st + 1 \<mapsto> child),
              conn_sessions := idx_insert c (next_session st + 1) (conn_sessions st),
              pam_sessions := (case pam of Some s \<Rightarrow> (pam_sessions st)(next_session st + 1 \<mapsto> s) | None \<Rightarrow> pam_sessions st)\<rparr>,
            Spawned (next_session st + 1), fds,
            (case pam of Some s \<Rightarrow> [PamOpen (ps_user s)] | None \<Rightarrow> []) @ [Spawn child]))"

definition is_spawn_failure :: "State \<Rightarrow> reply \<Rightarrow> bool" where
  "is_spawn_failure st r \<longleftrightarrow> (\<exists>effs. r = (st, Failed, [], effs) \<and> (effs = [] \<or> (\<exists>u. effs = [PamOpen u, PamClose u])))"

lemma open_pam_user: "open_pam e user = Some s \<Longrightarrow> ps_user s = user"
  by (auto simp: open_pam_def dest: open_session_user split: option.splits sum.splits)

lemma spawn_with_pam_cases:
  assumes "\<And>user pe child fds. mk user pe = Inr (child, fds) \<Longrightarrow> spawned_for e user child"
  shows "is_spawn_failure st (spawn_with_pam e st c mk)
    \<or> (\<exists>user child pam. is_spawn e st c user child pam (spawn_with_pam e st c mk))"
proof (cases "users st c")
  case None
  then show ?thesis by (simp add: spawn_with_pam_def is_spawn_failure_def)
next
  case (Some user)
  note u = this
  show ?thesis
  proof (cases "mk user (pam_env_of e (open_pam e user))")
    case (Inl x)
    with u show ?thesis
      by (auto simp: spawn_with_pam_def is_spawn_failure_def Let_def split: option.splits)
  next
    case (Inr r)
    then obtain child fds where r: "mk user (pam_env_of e (open_pam e user)) = Inr (child, fds)"
      by (cases r) auto
    with u have "is_spawn e st c user child (open_pam e user) (spawn_with_pam e st c mk)"
      using assms [OF r] open_pam_user [of e user]
      by (auto simp: is_spawn_def spawn_with_pam_def alloc_def Let_def split: option.splits)
    then show ?thesis by blast
  qed
qed

lemma spawn_plain_cases:
  assumes "\<And>user child fds. mk user = Inr (child, fds) \<Longrightarrow> spawned_for e user child"
  shows "is_spawn_failure st (spawn_plain st c mk)
    \<or> (\<exists>user child. is_spawn e st c user child None (spawn_plain st c mk))"
proof (cases "users st c")
  case None
  then show ?thesis by (simp add: spawn_plain_def is_spawn_failure_def)
next
  case (Some user)
  show ?thesis
  proof (cases "mk user")
    case (Inl x)
    with Some show ?thesis by (simp add: spawn_plain_def is_spawn_failure_def)
  next
    case (Inr r)
    then obtain child fds where r: "mk user = Inr (child, fds)" by (cases r) auto
    with Some have "is_spawn e st c user child None (spawn_plain st c mk)"
      using assms [OF r] by (auto simp: is_spawn_def spawn_plain_def alloc_def Let_def)
    then show ?thesis by blast
  qed
qed

fun spawn_conn :: "Request \<Rightarrow> conn_id option" where
  "spawn_conn (SpawnShell c _) = Some c"
| "spawn_conn (SpawnExec c _) = Some c"
| "spawn_conn (SpawnTransfer c _) = Some c"
| "spawn_conn (SpawnTransferWrite c _ _) = Some c"
| "spawn_conn (SpawnMkdir c _ _) = Some c"
| "spawn_conn _ = None"

lemma handle_spawn_cases:
  assumes "spawn_conn req = Some c" "handle e st req = Ready r"
  shows "is_spawn_failure st r \<or> (\<exists>user child pam. is_spawn e st c user child pam r)"
proof -
  note sp = spawners_run_as_user
  from assms show ?thesis
  proof (cases req)
    case (SpawnShell c' tm)
    with assms show ?thesis using spawn_with_pam_cases [of "\<lambda>user pe. spawn_shell e user tm pe" e st c] sp(1) by auto
  next
    case (SpawnExec c' command)
    with assms show ?thesis using spawn_with_pam_cases [of "\<lambda>user pe. spawn_exec e user command pe" e st c] sp(2) by auto
  next
    case (SpawnTransfer c' path)
    with assms show ?thesis using spawn_plain_cases [of "\<lambda>user. spawn_transfer e user path" e st c] sp(3) by auto
  next
    case (SpawnTransferWrite c' path mode)
    with assms show ?thesis using spawn_plain_cases [of "\<lambda>user. spawn_transfer_write e user path mode" e st c] sp(5) by auto
  next
    case (SpawnMkdir c' path mode)
    with assms show ?thesis using spawn_plain_cases [of "\<lambda>user. spawn_mkdir e user path mode" e st c] sp(4) by auto
  qed auto
qed

text \<open>The connection a backend sees in a turn: of the request, with a challenge only where the answer
  names it.\<close>

definition turn_conn :: "string \<Rightarrow> byte list \<Rightarrow> ChallengeAnswer option \<Rightarrow> ConnInfo \<Rightarrow> bool" where
  "turn_conn peer b ans conn \<longleftrightarrow>
     peer_addr conn = (case parse_socket_addr peer of Some a \<Rightarrow> a | None \<Rightarrow> (V4 0, 0)) \<and> channel_binding conn = b
   \<and> (\<forall>resp. challenge conn = Some resp \<longrightarrow>
        (\<exists>a. ans = Some a \<and> cr_responses resp = responses a \<and> token (cr_state resp) = ans_token a))"

lemma auth_conn_info_spec:
  assumes "auth_conn_info e st c peer b ans = (conn, st1)"
  shows "turn_conn peer b ans conn"
    and "st1 = st\<lparr>challenges := (if ans = None then challenges st else (challenges st)(c := None))\<rparr>"
    and "challenge conn = Some resp \<Longrightarrow>
      \<exists>t. challenges st c = Some (cr_state resp, t) \<and> mon_now e - t \<le> CHALLENGE_TTL"
proof -
  have own: "\<exists>t. challenges st c = Some (x, t) \<and> mon_now e - t \<le> CHALLENGE_TTL \<and> token x = ans_token a"
    if "fst (cs_take (mon_now e) c (ans_token a) (challenges st)) = Some x" for a x
    using that by (auto simp: cs_take_Some cs_owns_def)
  show "turn_conn peer b ans conn"
    using assms own by (cases ans)
      (auto simp: auth_conn_info_def turn_conn_def Let_def case_prod_unfold ChallengeResponse_new_def, blast)
  show "st1 = st\<lparr>challenges := (if ans = None then challenges st else (challenges st)(c := None))\<rparr>"
    using assms by (cases ans) (auto simp: auth_conn_info_def Let_def case_prod_unfold cs_take_state)
  show "challenge conn = Some resp \<Longrightarrow> \<exists>t. challenges st c = Some (cr_state resp, t) \<and> mon_now e - t \<le> CHALLENGE_TTL"
    using assms own by (cases ans)
      (auto simp: auth_conn_info_def Let_def case_prod_unfold ChallengeResponse_new_def, blast)
qed

text \<open>What an authentication may come to.\<close>

lemma handle_authenticate_cases:
  assumes "handle_authenticate e st c auth peer b ans = Ready (st', resp, fds, effs)"
  obtains conn st1 v where "auth_conn_info e st c peer b ans = (conn, st1)" "mon_verdict e auth conn = Ready v"
    "fds = []" "effs = []"
    "st' = (case v of Allow user \<Rightarrow> st1\<lparr>users := (users st1)(c \<mapsto> user)\<rparr>
        | ChallengeV state ps \<Rightarrow> st1\<lparr>challenges := cs_insert (mon_done e) c state (challenges st1)\<rparr> | Deny \<Rightarrow> st1)"
    "resp = (case v of Allow user \<Rightarrow> VerdictR True
        | ChallengeV state ps \<Rightarrow> ChallengeR \<lparr>chal_token = token state, prompts = ps\<rparr> | Deny \<Rightarrow> VerdictR False)"
proof -
  obtain conn st1 where ci: "auth_conn_info e st c peer b ans = (conn, st1)" by (cases "auth_conn_info e st c peer b ans")
  with assms obtain v where v: "mon_verdict e auth conn = Ready v"
    by (auto simp: handle_authenticate_def)
  show thesis
    by (rule that [OF ci v]) (use assms ci v in \<open>auto simp: handle_authenticate_def split: Verdict.splits\<close>)
qed

text \<open>Authentication changes the users and the challenges only.\<close>

lemma handle_authenticate_state:
  assumes "handle_authenticate e st c auth peer b ans = Ready (st', resp, fds, effs)"
  shows "sessions st' = sessions st" "conn_sessions st' = conn_sessions st" "next_session st' = next_session st"
    "pam_sessions st' = pam_sessions st" "effs = []" "fds = []"
    "users st' = users st \<and> resp \<noteq> VerdictR True
     \<or> (\<exists>user conn. users st' = (users st)(c \<mapsto> user) \<and> resp = VerdictR True \<and> turn_conn peer b ans conn
          \<and> mon_verdict e auth conn = Ready (Allow user)
          \<and> (\<forall>r. challenge conn = Some r \<longrightarrow>
               (\<exists>t. challenges st c = Some (cr_state r, t) \<and> mon_now e - t \<le> CHALLENGE_TTL)))"
proof -
  obtain conn st1 v where ci: "auth_conn_info e st c peer b ans = (conn, st1)" and v: "mon_verdict e auth conn = Ready v"
    and f: "fds = []" "effs = []" and st': "st' = (case v of Allow user \<Rightarrow> st1\<lparr>users := (users st1)(c \<mapsto> user)\<rparr>
        | ChallengeV state ps \<Rightarrow> st1\<lparr>challenges := cs_insert (mon_done e) c state (challenges st1)\<rparr> | Deny \<Rightarrow> st1)"
    and resp: "resp = (case v of Allow user \<Rightarrow> VerdictR True
        | ChallengeV state ps \<Rightarrow> ChallengeR \<lparr>chal_token = token state, prompts = ps\<rparr> | Deny \<Rightarrow> VerdictR False)"
    using assms by (rule handle_authenticate_cases)
  note sp = auth_conn_info_spec [OF ci]
  show "sessions st' = sessions st" "conn_sessions st' = conn_sessions st" "next_session st' = next_session st"
    "pam_sessions st' = pam_sessions st" "effs = []" "fds = []"
    using st' f by (cases v; simp add: sp(2))+
  show "users st' = users st \<and> resp \<noteq> VerdictR True
     \<or> (\<exists>user conn. users st' = (users st)(c \<mapsto> user) \<and> resp = VerdictR True \<and> turn_conn peer b ans conn
          \<and> mon_verdict e auth conn = Ready (Allow user)
          \<and> (\<forall>r. challenge conn = Some r \<longrightarrow>
               (\<exists>t. challenges st c = Some (cr_state r, t) \<and> mon_now e - t \<le> CHALLENGE_TTL)))"
  proof (cases v)
    case (Allow user)
    with st' resp have "users st' = (users st)(c \<mapsto> user)" "resp = VerdictR True" by (simp_all add: sp(2))
    with v Allow sp(1,3) show ?thesis by blast
  qed (use st' resp in \<open>simp_all add: sp(2)\<close>)
qed

subsection \<open>Closing and reaping\<close>

lemma close_pam_simps [simp]:
  "sessions (fst (close_pam sid st)) = sessions st"
  "conn_sessions (fst (close_pam sid st)) = conn_sessions st"
  "users (fst (close_pam sid st)) = users st"
  "challenges (fst (close_pam sid st)) = challenges st"
  "next_session (fst (close_pam sid st)) = next_session st"
  "pam_sessions (fst (close_pam sid st)) = (pam_sessions st)(sid := None)"
  by (simp_all add: close_pam_def)

text \<open>Closing a list of sessions, one at a time.\<close>

definition close_one :: "MonEnv \<Rightarrow> session_id \<Rightarrow> State \<Rightarrow> State \<times> effect list" where
  "close_one e sid st =
     (st\<lparr>sessions := (sessions st)(sid := None), pam_sessions := (pam_sessions st)(sid := None)\<rparr>,
      (case sessions st sid of Some child \<Rightarrow> snd (reap_child e child) | None \<Rightarrow> [])
        @ (case pam_sessions st sid of Some s \<Rightarrow> [PamClose (ps_user s)] | None \<Rightarrow> []))"

lemma close_sessions_Cons:
  "close_sessions e (sid # sids) st =
     (fst (close_sessions e sids (fst (close_one e sid st))),
      snd (close_one e sid st) @ snd (close_sessions e sids (fst (close_one e sid st))))"
proof (cases "sessions st sid")
  case None
  then have "st\<lparr>sessions := (sessions st)(sid := None)\<rparr> = st"
    by (simp add: fun_upd_idem)
  then have "close_one e sid st = close_pam sid st"
    using None by (simp add: close_one_def close_pam_def fun_upd_idem)
  with None show ?thesis by (simp add: case_prod_unfold)
next
  case (Some child)
  then show ?thesis by (simp add: case_prod_unfold close_one_def close_pam_def)
qed

lemma close_sessions_state:
  "fst (close_sessions e sids st) =
     st\<lparr>sessions := (\<lambda>sid. if sid \<in> set sids then None else sessions st sid),
        pam_sessions := (\<lambda>sid. if sid \<in> set sids then None else pam_sessions st sid)\<rparr>"
proof (induction sids arbitrary: st)
  case Nil
  then show ?case by simp
next
  case (Cons sid sids)
  show ?case
    unfolding close_sessions_Cons fst_conv Cons.IH
    by (simp add: close_one_def fun_eq_iff)
qed

lemma handle_close_state:
  "fst (handle_close e st c) =
     st\<lparr>users := (users st)(c := None), challenges := (challenges st)(c := None),
        conn_sessions := (conn_sessions st)(c := None),
        sessions := (\<lambda>sid. if sid \<in> idx_owned (conn_sessions st) c then None else sessions st sid),
        pam_sessions := (\<lambda>sid. if sid \<in> idx_owned (conn_sessions st) c then None else pam_sessions st sid)\<rparr>"
  by (cases "conn_sessions st c")
     (simp_all add: handle_close_def Let_def case_prod_unfold close_sessions_state idx_take_conn_def idx_owned_def
       cs_clear_def cong: if_cong)

lemma handle_reap_state:
  "sessions st sid = Some child \<Longrightarrow> fst (handle_reap e st sid) =
     st\<lparr>sessions := (sessions st)(sid := None), conn_sessions := idx_forget sid (conn_sessions st),
        pam_sessions := (pam_sessions st)(sid := None)\<rparr>"
  by (simp add: handle_reap_def Let_def case_prod_unfold forget_session_def close_pam_def)

subsection \<open>The invariant\<close>

definition mon_inv :: "State \<Rightarrow> bool" where
  "mon_inv st \<longleftrightarrow> ix.covers (conn_sessions st) (dom (sessions st))
     \<and> (\<forall>sid \<in> dom (sessions st). unat sid \<le> unat (next_session st))
     \<and> finite (dom (sessions st)) \<and> dom (pam_sessions st) \<subseteq> dom (sessions st)"

lemma unat_Suc: "unat (w :: u64) + 1 < 2 ^ 64 \<Longrightarrow> unat (w + 1) = unat w + 1"
  by (simp add: unat_word_ariths)

lemma mon_inv_spawn:
  assumes "mon_inv st" "is_spawn e st c user child pam (st', resp, fds, effs)" "unat (next_session st) + 1 < 2 ^ 64"
  shows "mon_inv st' \<and> unat (next_session st') = unat (next_session st) + 1"
proof -
  let ?sid = "next_session st + 1"
  have n: "unat ?sid = unat (next_session st) + 1" using assms(3) by (rule unat_Suc)
  then have fresh: "?sid \<notin> dom (sessions st)"
    using assms(1) by (force simp: mon_inv_def)
  then have "ix.covers (idx_insert c ?sid (conn_sessions st)) (insert ?sid (dom (sessions st)))"
    using assms(1) by (intro ix.covers_ins) (auto simp: mon_inv_def)
  moreover have "unat sid \<le> Suc (unat (next_session st))" if "sessions st sid = Some y" for sid y
  proof -
    have "sid \<in> dom (sessions st)" using that by (rule domI)
    then have "unat sid \<le> unat (next_session st)" using assms(1) unfolding mon_inv_def by blast
    then show ?thesis by simp
  qed
  ultimately show ?thesis
    using assms(1,2) n
    by (auto simp: mon_inv_def is_spawn_def split: option.splits)
qed

lemma mon_inv_close: "mon_inv st \<Longrightarrow> mon_inv (fst (handle_close e st c))"
proof -
  assume inv: "mon_inv st"
  have d: "dom (\<lambda>sid. if sid \<in> A then None else m sid) = dom m - A" for A and m :: "session_id \<Rightarrow> 'a option"
    by (auto split: if_splits)
  have "ix.covers (snd (idx_take_conn c (conn_sessions st))) (dom (sessions st) - idx_owned (conn_sessions st) c)"
    using inv by (intro ix.covers_take) (simp add: mon_inv_def)
  then have "ix.covers ((conn_sessions st)(c := None)) (dom (sessions st) - idx_owned (conn_sessions st) c)"
    by (simp add: idx_take_conn_def)
  then show ?thesis
    using inv unfolding handle_close_state mon_inv_def by (auto simp: d)
qed

lemma mon_inv_reap: "mon_inv st \<Longrightarrow> mon_inv (fst (handle_reap e st sid))"
proof (cases "sessions st sid")
  case None
  then show "mon_inv st \<Longrightarrow> ?thesis" by (simp add: handle_reap_def)
next
  case (Some child)
  assume inv: "mon_inv st"
  then have "ix.covers (idx_forget sid (conn_sessions st)) (dom (sessions st) - {sid})"
    by (intro ix.covers_forget) (simp add: mon_inv_def)
  then show ?thesis
    using inv unfolding handle_reap_state [OF Some] mon_inv_def by auto
qed

lemma handle_next_session:
  assumes "handle e st req = Ready (st', resp, fds, effs)"
  shows "next_session st' = next_session st
    \<or> (\<exists>c user child pam. spawn_conn req = Some c \<and> is_spawn e st c user child pam (st', resp, fds, effs))"
proof (cases "spawn_conn req")
  case (Some c)
  with handle_spawn_cases [OF Some assms] show ?thesis
    by (auto simp: is_spawn_failure_def)
next
  case None
  with assms show ?thesis
  proof (cases req)
    case (Authenticate c auth peer b ans)
    with assms show ?thesis using handle_authenticate_state(3) by auto
  next
    case (Reap sid)
    with assms show ?thesis
      by (cases "sessions st sid") (auto simp: handle_reap_def Let_def case_prod_unfold forget_session_def)
  next
    case (Close c)
    with assms handle_close_state [of e st c] show ?thesis by auto
  next
    case (SignalReq sid sig)
    with assms show ?thesis by (auto simp: handle_signal_def)
  qed auto
qed

lemma mon_inv_handle:
  assumes inv: "mon_inv st" and h: "handle e st req = Ready (st', resp, fds, effs)"
    and room: "unat (next_session st) + 1 < 2 ^ 64"
  shows "mon_inv st' \<and> unat (next_session st') \<le> unat (next_session st) + 1"
proof (cases "spawn_conn req")
  case (Some c)
  from handle_spawn_cases [OF this h] show ?thesis
  proof (elim disjE exE)
    assume "is_spawn_failure st (st', resp, fds, effs)"
    with inv show ?thesis by (auto simp: is_spawn_failure_def)
  next
    fix user child pam
    assume "is_spawn e st c user child pam (st', resp, fds, effs)"
    with mon_inv_spawn [OF inv this room] show ?thesis by simp
  qed
next
  case None
  then have "next_session st' = next_session st" using handle_next_session [OF h] by auto
  moreover have "mon_inv st'"
    using None h
  proof (cases req)
    case (Authenticate c auth peer b ans)
    with h inv show ?thesis using handle_authenticate_state(1-4) by (auto simp: mon_inv_def)
  next
    case (Reap sid)
    with h mon_inv_reap [OF inv, of e sid] show ?thesis by simp
  next
    case (Close c)
    with h mon_inv_close [OF inv, of e c] show ?thesis by simp
  next
    case (SignalReq sid sig)
    with h inv show ?thesis by (auto simp: handle_signal_def)
  qed auto
  ultimately show ?thesis by simp
qed

lemma mon_inv_run:
  "mon_run st tr \<Longrightarrow> length tr < 2 ^ 64 \<Longrightarrow> mon_inv st \<and> unat (next_session st) \<le> length tr"
proof (induction rule: mon_run.induct)
  case Start
  then show ?case by (simp add: mon_inv_def State_default_def ix.covers_def idx_owned_def)
next
  case (Serve st tr e req st' resp fds effs)
  then have "mon_inv st" "unat (next_session st) \<le> length tr" by auto
  with mon_inv_handle [OF this(1) Serve.hyps(2)] Serve.prems show ?case by auto
qed

subsection \<open>Where an identity comes from\<close>

text \<open>A turn that authenticated connection \<open>c\<close> as \<open>u\<close>, and a history whose latest such turn for \<open>c\<close> is
  not followed by its close.\<close>

definition grants :: "served \<Rightarrow> conn_id \<Rightarrow> string \<Rightarrow> bool" where
  "grants s c u \<longleftrightarrow> (\<exists>auth peer b ans conn. sv_req s = Authenticate c auth peer b ans \<and> sv_resp s = VerdictR True
     \<and> turn_conn peer b ans conn \<and> mon_verdict (sv_env s) auth conn = Ready (Allow u))"

definition authenticated :: "served list \<Rightarrow> conn_id \<Rightarrow> string \<Rightarrow> bool" where
  "authenticated tr c u \<longleftrightarrow> (\<exists>later s earlier. tr = later @ s # earlier \<and> grants s c u
     \<and> (\<forall>x \<in> set later. sv_req x \<noteq> Close c))"

lemma authenticated_Cons:
  "authenticated tr c u \<Longrightarrow> sv_req s \<noteq> Close c \<Longrightarrow> authenticated (s # tr) c u"
  unfolding authenticated_def by (metis append_Cons set_ConsD)

lemma authenticated_now: "grants s c u \<Longrightarrow> authenticated (s # tr) c u"
  unfolding authenticated_def by (metis append_Nil empty_iff empty_set)

lemma handle_users:
  assumes "handle e st req = Ready (st', resp, fds, effs)" "users st' c = Some u"
  shows "(users st c = Some u \<and> req \<noteq> Close c)
    \<or> grants \<lparr>sv_env = e, sv_req = req, sv_resp = resp, sv_fds = fds, sv_eff = effs\<rparr> c u"
proof (cases "spawn_conn req")
  case (Some c')
  from handle_spawn_cases [OF this assms(1)] have "users st' = users st"
    by (auto simp: is_spawn_failure_def is_spawn_def)
  with assms(2) Some show ?thesis by auto
next
  case None
  with assms show ?thesis
  proof (cases req)
    case (Authenticate c' auth peer b ans)
    with assms have ha: "handle_authenticate e st c' auth peer b ans = Ready (st', resp, fds, effs)" by simp
    have "users st' = users st \<and> resp \<noteq> VerdictR True
       \<or> (\<exists>user conn. users st' = (users st)(c' \<mapsto> user) \<and> resp = VerdictR True \<and> turn_conn peer b ans conn
          \<and> mon_verdict e auth conn = Ready (Allow user))"
      using handle_authenticate_state(7) [OF ha] by blast
    with assms(2) Authenticate show ?thesis
      by (auto simp: grants_def split: if_splits)
  next
    case (Reap sid)
    with assms show ?thesis
      by (cases "sessions st sid") (auto simp: handle_reap_def Let_def case_prod_unfold forget_session_def)
  next
    case (Close c')
    with assms handle_close_state [of e st c'] show ?thesis by (auto split: if_splits)
  next
    case (SignalReq sid sig)
    with assms show ?thesis by (auto simp: handle_signal_def)
  qed auto
qed

lemma users_authenticated: "mon_run st tr \<Longrightarrow> users st c = Some u \<Longrightarrow> authenticated tr c u"
proof (induction arbitrary: c u rule: mon_run.induct)
  case Start
  then show ?case by (simp add: State_default_def)
next
  case (Serve st tr e req st' resp fds effs)
  from handle_users [OF Serve.hyps(2) Serve.prems] show ?case
    using Serve.IH authenticated_Cons [of tr c u] authenticated_now by force
qed

lemma Spawn_only_by_spawn:
  assumes "handle e st req = Ready (st', resp, fds, effs)" "Spawn child \<in> set effs"
  shows "\<exists>c user pam. spawn_conn req = Some c \<and> is_spawn e st c user child pam (st', resp, fds, effs)"
proof (cases "spawn_conn req")
  case (Some c)
  from handle_spawn_cases [OF this assms(1)] Some assms(2) show ?thesis
    by (auto simp: is_spawn_failure_def is_spawn_def split: option.splits)
next
  case None
  have reap: "Spawn child \<notin> set (snd (reap_child e ch))" for ch
    by (simp add: reap_child_def Let_def split: option.splits)
  have cp: "Spawn child \<notin> set (snd (close_pam sid s))" for sid s
    by (simp add: close_pam_def split: option.splits)
  have cs: "Spawn child \<notin> set (snd (close_sessions e sids s))" for sids s
  proof (induction sids arbitrary: s)
    case (Cons sid sids)
    then show ?case unfolding close_sessions_Cons snd_conv
      by (simp add: close_one_def reap split: option.splits)
  qed simp
  from None assms show ?thesis
  proof (cases req)
    case (Authenticate c auth peer b ans)
    with assms show ?thesis
      using handle_authenticate_state(5) [of e st c auth peer b ans st' resp fds effs] by simp
  next
    case (Reap sid)
    with assms reap cp show ?thesis
      by (cases "sessions st sid") (auto simp: handle_reap_def Let_def case_prod_unfold)
  next
    case (Close c)
    with assms cs show ?thesis by (auto simp: handle_close_def Let_def case_prod_unfold)
  next
    case (SignalReq sid sig)
    with assms show ?thesis by (auto simp: handle_signal_def split: option.splits)
  qed auto
qed

lemma mon_run_last:
  "mon_run st (s # tr) \<Longrightarrow>
     \<exists>st0. mon_run st0 tr \<and> handle (sv_env s) st0 (sv_req s) = Ready (st, sv_resp s, sv_fds s, sv_eff s)"
  by (erule mon_run_ConsE) auto

subsection \<open>Balance of PAM sessions\<close>

fun is_pam_open :: "effect \<Rightarrow> bool" where
  "is_pam_open (PamOpen _) = True"
| "is_pam_open _ = False"

fun is_pam_close :: "effect \<Rightarrow> bool" where
  "is_pam_close (PamClose _) = True"
| "is_pam_close _ = False"

definition pam_opened :: "effect list \<Rightarrow> nat" where
  "pam_opened effs = length (filter is_pam_open effs)"

definition pam_closed :: "effect list \<Rightarrow> nat" where
  "pam_closed effs = length (filter is_pam_close effs)"

lemma pam_count_simps [simp]:
  "pam_opened [] = 0" "pam_closed [] = 0"
  "pam_opened (x # xs) = (if is_pam_open x then 1 else 0) + pam_opened xs"
  "pam_closed (x # xs) = (if is_pam_close x then 1 else 0) + pam_closed xs"
  "pam_opened (xs @ ys) = pam_opened xs + pam_opened ys"
  "pam_closed (xs @ ys) = pam_closed xs + pam_closed ys"
  by (simp_all add: pam_opened_def pam_closed_def)

lemma reap_child_no_pam [simp]:
  "pam_opened (snd (reap_child e ch)) = 0" "pam_closed (snd (reap_child e ch)) = 0"
  by (simp_all add: reap_child_def Let_def split: option.splits)

lemma card_dom_clear:
  "finite (dom m) \<Longrightarrow> card (dom m) = (case m k of Some _ \<Rightarrow> 1 | None \<Rightarrow> 0) + card (dom (m(k := None)))"
proof (cases "m k")
  case None
  then have "m(k := None) = m" by (simp add: fun_upd_idem)
  with None show ?thesis by simp
next
  case (Some x)
  assume fin: "finite (dom m)"
  have "k \<in> dom m" using Some by (rule domI)
  from card_Suc_Diff1 [OF fin this] Some show ?thesis by simp
qed

lemma close_sessions_pam:
  "finite (dom (pam_sessions st)) \<Longrightarrow>
     pam_opened (snd (close_sessions e sids st)) = 0
     \<and> card (dom (pam_sessions st)) =
         pam_closed (snd (close_sessions e sids st)) + card (dom (pam_sessions (fst (close_sessions e sids st))))"
proof (induction sids arbitrary: st)
  case Nil
  then show ?case by simp
next
  case (Cons sid sids)
  let ?st1 = "fst (close_one e sid st)"
  have p: "pam_sessions ?st1 = (pam_sessions st)(sid := None)" by (simp add: close_one_def)
  then have fin: "finite (dom (pam_sessions ?st1))" using Cons.prems by simp
  have one: "pam_opened (snd (close_one e sid st)) = 0"
    "pam_closed (snd (close_one e sid st)) = (case pam_sessions st sid of Some _ \<Rightarrow> 1 | None \<Rightarrow> 0)"
    by (simp_all add: close_one_def split: option.splits)
  from Cons.IH [OF fin] card_dom_clear [OF Cons.prems, of sid, folded p] one show ?case
    unfolding close_sessions_Cons fst_conv snd_conv by simp
qed

lemma handle_pam_balance:
  assumes inv: "mon_inv st" and h: "handle e st req = Ready (st', resp, fds, effs)"
    and room: "unat (next_session st) + 1 < 2 ^ 64"
  shows "pam_opened effs + card (dom (pam_sessions st)) = pam_closed effs + card (dom (pam_sessions st'))"
proof (cases "spawn_conn req")
  case (Some c)
  have fin: "finite (dom (pam_sessions st))" using inv finite_subset by (auto simp: mon_inv_def)
  from handle_spawn_cases [OF Some h] show ?thesis
  proof (elim disjE exE)
    assume "is_spawn_failure st (st', resp, fds, effs)"
    then show ?thesis by (auto simp: is_spawn_failure_def)
  next
    fix user child pam
    assume sp: "is_spawn e st c user child pam (st', resp, fds, effs)"
    have "next_session st + 1 \<notin> dom (sessions st)"
      using inv unat_Suc [OF room] by (force simp: mon_inv_def)
    then have "next_session st + 1 \<notin> dom (pam_sessions st)" using inv by (auto simp: mon_inv_def)
    with sp fin show ?thesis by (auto simp: is_spawn_def split: option.splits)
  qed
next
  case None
  have fin: "finite (dom (pam_sessions st))" using inv finite_subset by (auto simp: mon_inv_def)
  from None h show ?thesis
  proof (cases req)
    case (Authenticate c auth peer b ans)
    with h have "effs = []" "pam_sessions st' = pam_sessions st"
      using handle_authenticate_state [of e st c auth peer b ans st' resp fds effs] by simp_all
    then show ?thesis by simp
  next
    case (Reap sid)
    with h card_dom_clear [OF fin, of sid] show ?thesis
      by (cases "sessions st sid")
         (auto simp: handle_reap_def Let_def case_prod_unfold forget_session_def close_pam_def split: option.splits)
  next
    case (Close c)
    define st1 where "st1 = st\<lparr>users := (users st)(c := None), challenges := cs_clear c (challenges st),
        conn_sessions := snd (idx_take_conn c (conn_sessions st))\<rparr>"
    have "(st', resp, fds, effs) = (fst (close_sessions e (fst (idx_take_conn c (conn_sessions st))) st1), Closed, [],
        snd (close_sessions e (fst (idx_take_conn c (conn_sessions st))) st1))"
      using h Close by (simp add: handle_close_def Let_def case_prod_unfold st1_def)
    then show ?thesis
      using close_sessions_pam [of st1 e "fst (idx_take_conn c (conn_sessions st))"] fin by (simp add: st1_def)
  next
    case (SignalReq sid sig)
    with h show ?thesis by (auto simp: handle_signal_def split: option.splits)
  qed auto
qed

lemma run_pam_balance:
  "mon_run st tr \<Longrightarrow> length tr < 2 ^ 64 \<Longrightarrow>
     pam_opened (concat (map sv_eff tr)) = pam_closed (concat (map sv_eff tr)) + card (dom (pam_sessions st))"
proof (induction rule: mon_run.induct)
  case Start
  then show ?case by (simp add: State_default_def)
next
  case (Serve st tr e req st' resp fds effs)
  then have inv: "mon_inv st" "unat (next_session st) \<le> length tr" using mon_inv_run by auto
  with handle_pam_balance [OF inv(1) Serve.hyps(2)] Serve show ?case by auto
qed

subsection \<open>Properties\<close>

text \<open>C3: every process the monitor ever starts is a session helper started for a connection whose
  latest authentication it accepted and that has not been closed since, and the helper is handed
  the uid, gid, name and home directory of exactly the user that authentication yielded.\<close>

theorem session_runs_as_authenticated_user:
  assumes "mon_run st (s # tr)" "Spawn child \<in> set (sv_eff s)"
  shows "\<exists>c u pw. spawn_conn (sv_req s) = Some c \<and> authenticated tr c u
    \<and> getpwnam (sv_env s) u = Some pw \<and> runs_as (child_cmd child) pw"
proof -
  from mon_run_last [OF assms(1)] obtain st0 where run: "mon_run st0 tr"
    and h: "handle (sv_env s) st0 (sv_req s) = Ready (st, sv_resp s, sv_fds s, sv_eff s)" by blast
  from Spawn_only_by_spawn [OF h assms(2)] obtain c user pam where "spawn_conn (sv_req s) = Some c"
    "is_spawn (sv_env s) st0 c user child pam (st, sv_resp s, sv_fds s, sv_eff s)" by blast
  then show ?thesis
    using users_authenticated [OF run, of c user] by (auto simp: is_spawn_def spawned_for_def)
qed

text \<open>A monitor whose registry lets every header in as one user, with PAM, on which a run can be
  played through.\<close>

definition demo_env :: MonEnv where
  "demo_env = \<lparr>mon_verdict = (\<lambda>_ _. Ready (Allow ''al'')), mon_now = 0, mon_done = 0,
     getpwnam = (\<lambda>n. if n = ''al'' then Some \<lparr>pw_name = ''al'', pw_uid = 1000, pw_gid = 100, pw_dir = ''/h'', pw_shell = []\<rparr> else None),
     pam_lib = Some \<lparr>ctx_new = (\<lambda>_ _. True), pam_authenticate = (\<lambda>_ _ _. True), pam_acct_mgmt = (\<lambda>_ _. True),
       pam_open_session = (\<lambda>_ _. Some [])\<rparr>,
     mon_b64 = map byte_char, current_exe = ''quishd'', open_pty = Some ''/dev/pts/1'', os_spawn = (\<lambda>_. Some 7),
     try_wait = (\<lambda>_. None), wait_child = (\<lambda>_. Some (Some 0))\<rparr>"

definition demo_child :: Child where
  "demo_child = \<lparr>pid = 7, child_cmd = set_env_opt ENV_SESS_PAM_ENV (Some [])
     (set_stdio Piped Piped Piped (set_env ENV_SESS_COMMAND ''id'' (session_command demo_env
       \<lparr>pw_name = ''al'', pw_uid = 1000, pw_gid = 100, pw_dir = ''/h'', pw_shell = []\<rparr>)))\<rparr>"

definition demo_authed :: State where
  "demo_authed = State_default\<lparr>users := [1 \<mapsto> ''al'']\<rparr>"

definition demo_live :: State where
  "demo_live = demo_authed\<lparr>next_session := 1, sessions := [1 \<mapsto> demo_child], conn_sessions := [1 \<mapsto> [1]],
     pam_sessions := [1 \<mapsto> \<lparr>ps_user = ''al'', ps_env = []\<rparr>]\<rparr>"

definition demo_trace :: "served list" where
  "demo_trace =
    [\<lparr>sv_env = demo_env, sv_req = SpawnExec 1 ''id'', sv_resp = Spawned 1, sv_fds = [StdinOf 7, StdoutOf 7, StderrOf 7],
      sv_eff = [PamOpen ''al'', Spawn demo_child]\<rparr>,
     \<lparr>sv_env = demo_env, sv_req = Authenticate 1 None [] [] None, sv_resp = VerdictR True, sv_fds = [], sv_eff = []\<rparr>]"

lemma demo_spawn:
  "handle demo_env demo_authed (SpawnExec 1 ''id'')
      = Ready (demo_live, Spawned 1, [StdinOf 7, StdoutOf 7, StderrOf 7], [PamOpen ''al'', Spawn demo_child])"
proof -
  have "encode_pam_env (map byte_char) [] = []" by (simp add: encode_pam_env_def as_bytes_def)
  then show ?thesis
    by (simp add: spawn_with_pam_def demo_authed_def demo_live_def demo_child_def State_default_def spawn_exec_def
        lookup_user_def ok_or_def spawn_def demo_env_def Let_def take_pipe_def alloc_def idx_insert_def
        open_pam_def open_session_def pam_env_of_def set_env_opt_def set_env_def set_stdio_def)
qed

lemma demo_run: "mon_run demo_live demo_trace"
proof -
  have "handle demo_env State_default (Authenticate 1 None [] [] None) = Ready (demo_authed, VerdictR True, [], [])"
    by (simp add: handle_authenticate_def auth_conn_info_def demo_env_def demo_authed_def State_default_def)
  from mon_run.Serve [OF mon_run.Start this] have r1: "mon_run demo_authed (tl demo_trace)"
    by (simp add: demo_trace_def)
  from mon_run.Serve [OF r1 demo_spawn] show ?thesis by (simp add: demo_trace_def)
qed

lemma session_runs_as_authenticated_user_witness:
  "\<exists>c u pw. spawn_conn (SpawnExec 1 ''id'') = Some c \<and> authenticated (tl demo_trace) c u
    \<and> getpwnam demo_env u = Some pw \<and> runs_as (child_cmd demo_child) pw"
proof -
  have "mon_run demo_live (hd demo_trace # tl demo_trace)"
    using demo_run by (simp add: demo_trace_def)
  from session_runs_as_authenticated_user [OF this, of demo_child] show ?thesis
    by (simp add: demo_trace_def)
qed

text \<open>C14: closing a connection ends it: its identity, its challenge and all its sessions are gone,
  each of their processes was waited for and each PAM session dropped, while every other connection
  keeps its identity, its challenge, its sessions and their PAM sessions.\<close>

theorem close_ends_connection:
  assumes "mon_run st tr" "length tr < 2 ^ 64" "handle e st (Close c) = Ready (st', resp, fds, effs)"
  shows "users st' c = None \<and> challenges st' c = None \<and> idx_owned (conn_sessions st') c = {}
    \<and> (\<forall>sid \<in> idx_owned (conn_sessions st) c. sessions st' sid = None \<and> pam_sessions st' sid = None
         \<and> (\<exists>child. sessions st sid = Some child \<and> Wait (pid child) \<in> set effs))
    \<and> (\<forall>c'. c' \<noteq> c \<longrightarrow> users st' c' = users st c' \<and> challenges st' c' = challenges st c'
         \<and> idx_owned (conn_sessions st') c' = idx_owned (conn_sessions st) c'
         \<and> (\<forall>sid \<in> idx_owned (conn_sessions st) c'.
              sessions st' sid = sessions st sid \<and> pam_sessions st' sid = pam_sessions st sid))"
proof -
  have cov: "ix.covers (conn_sessions st) (dom (sessions st))"
    using mon_inv_run [OF assms(1,2)] by (simp add: mon_inv_def)
  have st': "st' = fst (handle_close e st c)" and effs: "effs = snd (snd (snd (handle_close e st c)))"
    using assms(3) by simp_all
  have waited: "\<exists>child. sessions st sid = Some child \<and> Wait (pid child) \<in> set effs"
    if "sid \<in> idx_owned (conn_sessions st) c" for sid
  proof -
    from that cov obtain child where ch: "sessions st sid = Some child" using ix.covers_owned by blast
    have "Wait (pid child) \<in> set (snd (close_sessions e sids s))"
      if "sid \<in> set sids" "sessions s sid = Some child" for sids s
      using that
    proof (induction sids arbitrary: s)
      case (Cons x sids)
      then show ?case unfolding close_sessions_Cons snd_conv
        by (cases "x = sid") (auto simp: close_one_def reap_child_def Let_def split: option.splits)
    qed simp
    then have "Wait (pid child) \<in> set effs"
      using ch that unfolding effs by (simp add: handle_close_def Let_def case_prod_unfold ix.taken)
    with ch show ?thesis by blast
  qed
  have other: "c' \<noteq> c \<Longrightarrow> sid \<in> idx_owned (conn_sessions st) c' \<Longrightarrow> sid \<notin> idx_owned (conn_sessions st) c" for c' sid
    using cov unfolding ix.covers_def by blast
  show ?thesis
    unfolding st' handle_close_state using waited other by (auto simp: idx_owned_def)
qed

text \<open>C15: PAM sessions balance: in every run, as many were opened as were closed or are still held
  for a live session, so none is left once the sessions are gone.\<close>

theorem pam_sessions_balance:
  assumes "mon_run st tr" "length tr < 2 ^ 64"
  shows "pam_opened (concat (map sv_eff tr)) = pam_closed (concat (map sv_eff tr)) + card (dom (pam_sessions st))
    \<and> dom (pam_sessions st) \<subseteq> dom (sessions st)
    \<and> (sessions st = Map.empty \<longrightarrow> pam_opened (concat (map sv_eff tr)) = pam_closed (concat (map sv_eff tr)))"
  using run_pam_balance [OF assms] mon_inv_run [OF assms] by (auto simp: mon_inv_def)

lemma pam_sessions_balance_witness:
  "pam_opened (concat (map sv_eff demo_trace)) = pam_closed (concat (map sv_eff demo_trace)) + card (dom (pam_sessions demo_live))
    \<and> dom (pam_sessions demo_live) \<subseteq> dom (sessions demo_live)"
  using pam_sessions_balance [OF demo_run] by (simp add: demo_trace_def)

lemma close_ends_connection_witness:
  "users (fst (handle_close demo_env demo_live 1)) 1 = None
   \<and> sessions (fst (handle_close demo_env demo_live 1)) 1 = None"
proof -
  obtain st' resp fds effs where h: "handle_close demo_env demo_live 1 = (st', resp, fds, effs)"
    by (cases "handle_close demo_env demo_live 1")
  then have "handle demo_env demo_live (Close 1) = Ready (st', resp, fds, effs)" by simp
  from close_ends_connection [OF demo_run _ this] h show ?thesis
    by (simp add: demo_trace_def demo_live_def idx_owned_def)
qed

subsection \<open>Where a parked challenge comes from\<close>

text \<open>A turn that issued a challenge, and a turn that leaves a connection's challenge alone: neither its
  close nor an answer.  A challenge is issued in a history when its turn is followed by such turns
  only.\<close>

definition parks :: "served \<Rightarrow> conn_id \<Rightarrow> ChallengeState \<Rightarrow> bool" where
  "parks s c cst \<longleftrightarrow> (\<exists>auth peer b ans conn ps. sv_req s = Authenticate c auth peer b ans
     \<and> turn_conn peer b ans conn \<and> mon_verdict (sv_env s) auth conn = Ready (ChallengeV cst ps)
     \<and> sv_resp s = ChallengeR \<lparr>chal_token = token cst, prompts = ps\<rparr>)"

definition spares_challenge :: "conn_id \<Rightarrow> served \<Rightarrow> bool" where
  "spares_challenge c s \<longleftrightarrow> (case sv_req s of
       Close d \<Rightarrow> d \<noteq> c
     | Authenticate d auth peer b ans \<Rightarrow> d \<noteq> c \<or> ans = None
     | _ \<Rightarrow> True)"

definition issued :: "served list \<Rightarrow> conn_id \<Rightarrow> ChallengeState \<Rightarrow> nanos \<Rightarrow> bool" where
  "issued tr c cst t \<longleftrightarrow> (\<exists>mid s rest. tr = mid @ s # rest \<and> parks s c cst \<and> mon_done (sv_env s) = t
     \<and> (\<forall>y \<in> set mid. spares_challenge c y))"

lemma issued_now: "parks s c cst \<Longrightarrow> issued (s # tr) c cst (mon_done (sv_env s))"
  unfolding issued_def by (metis append_Nil empty_iff empty_set)

lemma issued_Cons: "issued tr c cst t \<Longrightarrow> spares_challenge c s \<Longrightarrow> issued (s # tr) c cst t"
  unfolding issued_def by (metis append_Cons set_ConsD)

lemma handle_authenticate_challenges:
  assumes h: "handle_authenticate e st c auth peer b ans = Ready (st', resp, fds, effs)"
    and ch: "challenges st' c' = Some (cst, t)"
  shows "(challenges st c' = Some (cst, t) \<and> (c' = c \<longrightarrow> ans = None))
    \<or> (c' = c \<and> t = mon_done e \<and> (\<exists>conn ps. turn_conn peer b ans conn \<and> mon_verdict e auth conn = Ready (ChallengeV cst ps)
         \<and> resp = ChallengeR \<lparr>chal_token = token cst, prompts = ps\<rparr>))"
  using h
proof (rule handle_authenticate_cases)
  fix conn st1 v
  assume a: "auth_conn_info e st c peer b ans = (conn, st1)" "mon_verdict e auth conn = Ready v"
    "st' = (case v of Allow user \<Rightarrow> st1\<lparr>users := (users st1)(c \<mapsto> user)\<rparr>
        | ChallengeV state ps \<Rightarrow> st1\<lparr>challenges := cs_insert (mon_done e) c state (challenges st1)\<rparr> | Deny \<Rightarrow> st1)"
    "resp = (case v of Allow user \<Rightarrow> VerdictR True
        | ChallengeV state ps \<Rightarrow> ChallengeR \<lparr>chal_token = token state, prompts = ps\<rparr> | Deny \<Rightarrow> VerdictR False)"
  note sp = auth_conn_info_spec(1,2) [OF a(1)]
  show ?thesis
    using a(2-4) ch sp(1) unfolding sp(2) by (cases v) (auto simp: cs_insert_def split: if_splits)
qed

lemma handle_challenges:
  assumes "handle e st req = Ready (st', resp, fds, effs)" "challenges st' c = Some (cst, t)"
  shows "(challenges st c = Some (cst, t)
        \<and> spares_challenge c \<lparr>sv_env = e, sv_req = req, sv_resp = resp, sv_fds = fds, sv_eff = effs\<rparr>)
    \<or> (parks \<lparr>sv_env = e, sv_req = req, sv_resp = resp, sv_fds = fds, sv_eff = effs\<rparr> c cst \<and> t = mon_done e)"
proof (cases "spawn_conn req")
  case (Some c')
  from handle_spawn_cases [OF this assms(1)] have "challenges st' = challenges st"
    by (auto simp: is_spawn_failure_def is_spawn_def)
  with assms(2) Some show ?thesis by (cases req) (simp_all add: spares_challenge_def)
next
  case None
  with assms show ?thesis
  proof (cases req)
    case (Authenticate c' auth peer b ans)
    with assms have "handle_authenticate e st c' auth peer b ans = Ready (st', resp, fds, effs)" by simp
    from handle_authenticate_challenges [OF this assms(2)] Authenticate
    show ?thesis by (auto simp: parks_def spares_challenge_def)
  next
    case (Reap sid)
    with assms show ?thesis
      by (cases "sessions st sid")
        (auto simp: handle_reap_def Let_def case_prod_unfold forget_session_def spares_challenge_def)
  next
    case (Close c')
    with assms handle_close_state [of e st c'] show ?thesis by (auto simp: spares_challenge_def split: if_splits)
  next
    case (SignalReq sid sig)
    with assms show ?thesis by (auto simp: handle_signal_def spares_challenge_def)
  qed (auto simp: spares_challenge_def)
qed

lemma challenges_issued:
  "mon_run st tr \<Longrightarrow> challenges st c = Some (cst, t) \<Longrightarrow> issued tr c cst t"
proof (induction arbitrary: c cst t rule: mon_run.induct)
  case Start
  then show ?case by (simp add: State_default_def)
next
  case (Serve st tr e req st' resp fds effs)
  from handle_challenges [OF Serve.hyps(2) Serve.prems] Serve.IH show ?case
    using issued_now issued_Cons by fastforce
qed

text \<open>A user of a connection comes from a turn that let them in, not followed by the close; and if that
  turn resumed a challenge, the connection was issued it before, within its time to live, and had not
  answered it yet.\<close>

lemma users_provenance:
  assumes "mon_run st tr" "users st c = Some u"
  shows "\<exists>later s earlier auth peer b ans conn. tr = later @ s # earlier \<and> (\<forall>y \<in> set later. sv_req y \<noteq> Close c)
    \<and> sv_req s = Authenticate c auth peer b ans \<and> sv_resp s = VerdictR True \<and> turn_conn peer b ans conn
    \<and> mon_verdict (sv_env s) auth conn = Ready (Allow u)
    \<and> (\<forall>r. challenge conn = Some r \<longrightarrow>
         (\<exists>t. issued earlier c (cr_state r) t \<and> mon_now (sv_env s) - t \<le> CHALLENGE_TTL))"
  using assms
proof (induction arbitrary: c u rule: mon_run.induct)
  case Start
  then show ?case by (simp add: State_default_def)
next
  case (Serve st tr e req st' resp fds effs)
  let ?s = "\<lparr>sv_env = e, sv_req = req, sv_resp = resp, sv_fds = fds, sv_eff = effs\<rparr>"
  show ?case
  proof (cases "users st c = Some u \<and> req \<noteq> Close c")
    case True
    then obtain later s earlier auth peer b ans conn where "tr = later @ s # earlier" "\<forall>y \<in> set later. sv_req y \<noteq> Close c"
      "sv_req s = Authenticate c auth peer b ans \<and> sv_resp s = VerdictR True \<and> turn_conn peer b ans conn
        \<and> mon_verdict (sv_env s) auth conn = Ready (Allow u)
        \<and> (\<forall>r. challenge conn = Some r \<longrightarrow>
            (\<exists>t. issued earlier c (cr_state r) t \<and> mon_now (sv_env s) - t \<le> CHALLENGE_TTL))"
      using Serve.IH [of c u] by blast
    then show ?thesis
      using True by (intro exI [of _ "?s # later"] exI [of _ s] exI [of _ earlier]) auto
  next
    case False
    then have "grants ?s c u" using handle_users [OF Serve.hyps(2) Serve.prems] by blast
    then obtain auth peer b ans where req: "req = Authenticate c auth peer b ans" and rs: "resp = VerdictR True"
      by (auto simp: grants_def)
    then have "handle_authenticate e st c auth peer b ans = Ready (st', VerdictR True, fds, effs)"
      using Serve.hyps(2) by simp
    from handle_authenticate_state(7) [OF this] obtain user conn where
      g: "users st' = (users st)(c \<mapsto> user)" "turn_conn peer b ans conn" "mon_verdict e auth conn = Ready (Allow user)"
      and p: "\<And>r. challenge conn = Some r \<Longrightarrow> \<exists>t. challenges st c = Some (cr_state r, t) \<and> mon_now e - t \<le> CHALLENGE_TTL"
      by blast
    from g(1) Serve.prems have "user = u" by simp
    moreover have "\<exists>t. issued tr c (cr_state r) t \<and> mon_now e - t \<le> CHALLENGE_TTL" if "challenge conn = Some r" for r
      using p [OF that] challenges_issued [OF Serve.hyps(1)] by blast
    ultimately show ?thesis
      using g req rs by (intro exI [of _ "[]"] exI [of _ ?s] exI [of _ tr]) auto
  qed
qed

text \<open>An authentication the monitor serves after the close of its connection binds a user, and nothing
  removes the binding any more.\<close>

lemma late_authentication_outlives_close:
  assumes "handle e st (Close c) = Ready (st1, Closed, [], effs)" "\<And>a conn. mon_verdict e a conn = Ready (Allow u)"
  shows "\<exists>st2. handle e st1 (Authenticate c a peer b None) = Ready (st2, VerdictR True, [], []) \<and> users st2 c = Some u"
  using assms(2) by (simp add: handle_authenticate_def auth_conn_info_def)

end
