(* ===== verification/Worker.thy ===== *)
theory Worker
  imports Monitor
begin

text \<open>
  The worker's side of the control channel, \<^verbatim>\<open>quish-server/src/worker.rs\<close>: the client stubs, and
  the dispatch of an opened channel to a request of the monitor or a local forward.

  The result of \<^verbatim>\<open>call\<close> is an error or a response with descriptors.
\<close>

subsection \<open>Client stubs\<close>

definition MAX_SPAWN_ARG_LEN :: nat where
  "MAX_SPAWN_ARG_LEN = 60 * 1024"

definition spawn_arg_ok :: "nat \<Rightarrow> bool" where
  "spawn_arg_ok len \<longleftrightarrow> len \<le> MAX_SPAWN_ARG_LEN"

datatype call_error = CallFailed | Refused

type_synonym call_result = "call_error + Response \<times> fd list"

text \<open>What \<^verbatim>\<open>call\<close> makes of a datagram of the monitor.\<close>

definition call_reply :: "(Response, fd) Recv \<Rightarrow> call_result" where
  "call_reply r = (case r of Msg resp fds \<Rightarrow> Inr (resp, fds) | _ \<Rightarrow> Inl CallFailed)"

datatype AuthOutcome = OAllow | ODeny | OChallenge Challenge

definition auth_request ::
  "conn_id \<Rightarrow> string option \<Rightarrow> ChallengeAnswer option \<Rightarrow> ConnInfo \<Rightarrow> Request" where
  "auth_request c authorization answer conn =
     Authenticate c authorization (show_socket_addr (peer_addr conn)) (channel_binding conn) answer"

definition client_authenticate :: "call_result \<Rightarrow> call_error + AuthOutcome" where
  "client_authenticate r = rbind r (\<lambda>(resp, _). case resp of
       VerdictR True \<Rightarrow> Inr OAllow
     | VerdictR False \<Rightarrow> Inr ODeny
     | ChallengeR ch \<Rightarrow> Inr (OChallenge ch)
     | _ \<Rightarrow> Inr ODeny)"

definition client_spawn_shell :: "call_result \<Rightarrow> call_error + session_id \<times> fd" where
  "client_spawn_shell r = rbind r (\<lambda>(resp, fds). case resp of
       Spawned sid \<Rightarrow> if length fds = 1 then Inr (sid, fds ! 0) else Inl Refused
     | _ \<Rightarrow> Inl Refused)"

definition client_spawn_exec :: "call_result \<Rightarrow> call_error + session_id \<times> fd \<times> fd \<times> fd" where
  "client_spawn_exec r = rbind r (\<lambda>(resp, fds). case resp of
       Spawned sid \<Rightarrow> if length fds = 3 then Inr (sid, fds ! 0, fds ! 1, fds ! 2) else Inl Refused
     | _ \<Rightarrow> Inl Refused)"

definition client_spawn_transfer :: "call_result \<Rightarrow> call_error + session_id \<times> fd" where
  "client_spawn_transfer r = rbind r (\<lambda>(resp, fds). case resp of
       Spawned sid \<Rightarrow> if length fds = 1 then Inr (sid, fds ! 0) else Inl Refused
     | _ \<Rightarrow> Inl Refused)"

definition client_spawn_transfer_write :: "call_result \<Rightarrow> call_error + session_id \<times> fd \<times> fd" where
  "client_spawn_transfer_write r = rbind r (\<lambda>(resp, fds). case resp of
       Spawned sid \<Rightarrow> if length fds = 2 then Inr (sid, fds ! 0, fds ! 1) else Inl Refused
     | _ \<Rightarrow> Inl Refused)"

definition client_spawn_mkdir :: "call_result \<Rightarrow> call_error + session_id \<times> fd" where
  "client_spawn_mkdir r = rbind r (\<lambda>(resp, fds). case resp of
       Spawned sid \<Rightarrow> if length fds = 1 then Inr (sid, fds ! 0) else Inl Refused
     | _ \<Rightarrow> Inl Refused)"

definition client_reap :: "call_result \<Rightarrow> 32 word" where
  "client_reap r = (case r of Inr (Exited code, _) \<Rightarrow> code | _ \<Rightarrow> -1)"

subsection \<open>Channel dispatch\<close>

text \<open>What a freshly opened channel does: nothing, one request of the monitor with the session it
  runs, or a forward served by the worker itself.\<close>

datatype channel_action =
    Reject
  | RunShell Request u16 u16
  | RunExec Request
  | RunTransfer Request
  | RunTransferWrite Request
  | DoForward string u16
  | DoListen conn_id string u16
  | DoData conn_id u64

fun serve_channel :: "conn_id \<Rightarrow> ChannelOpen \<Rightarrow> channel_action" where
  "serve_channel c (Shell term cols rows) =
     (if \<not> spawn_arg_ok (length term) then Reject else RunShell (SpawnShell c term) cols rows)"
| "serve_channel c (Exec command) =
     (if \<not> spawn_arg_ok (length command) then Reject else RunExec (SpawnExec c command))"
| "serve_channel c (Forward host port) =
     (if \<not> spawn_arg_ok (length host) then Reject else DoForward host port)"
| "serve_channel c (RemoteForwardListen bind port) =
     (if \<not> spawn_arg_ok (length bind) then Reject else DoListen c bind port)"
| "serve_channel c (RemoteForwardData cref) = DoData c cref"
| "serve_channel c (ReadFile path) =
     (if \<not> spawn_arg_ok (length path) then Reject else RunTransfer (SpawnTransfer c path))"
| "serve_channel c (WriteFile path mode) =
     (if \<not> spawn_arg_ok (length path) then Reject else RunTransferWrite (SpawnTransferWrite c path mode))"
| "serve_channel c (MkDir path mode) =
     (if \<not> spawn_arg_ok (length path) then Reject else RunTransfer (SpawnMkdir c path mode))"

fun action_request :: "channel_action \<Rightarrow> Request option" where
  "action_request (RunShell r _ _) = Some r"
| "action_request (RunExec r) = Some r"
| "action_request (RunTransfer r) = Some r"
| "action_request (RunTransferWrite r) = Some r"
| "action_request _ = None"

text \<open>The client stub a request is made with, as far as success goes.\<close>

fun client_accepts :: "Request \<Rightarrow> call_result \<Rightarrow> session_id option" where
  "client_accepts (SpawnShell _ _) r = map_option fst (res_ok (client_spawn_shell r))"
| "client_accepts (SpawnExec _ _) r = map_option fst (res_ok (client_spawn_exec r))"
| "client_accepts (SpawnTransfer _ _) r = map_option fst (res_ok (client_spawn_transfer r))"
| "client_accepts (SpawnTransferWrite _ _ _) r = map_option fst (res_ok (client_spawn_transfer_write r))"
| "client_accepts (SpawnMkdir _ _ _) r = map_option fst (res_ok (client_spawn_mkdir r))"
| "client_accepts _ r = None"

subsection \<open>What the monitor promises the worker\<close>

fun fds_expected :: "Request \<Rightarrow> nat" where
  "fds_expected (SpawnExec _ _) = 3"
| "fds_expected (SpawnTransferWrite _ _ _) = 2"
| "fds_expected _ = 1"

locale monitor_service =
  fixes serve :: "'env \<Rightarrow> 'st \<Rightarrow> Request \<Rightarrow> ('st \<times> Response \<times> fd list \<times> 'eff) poll"
  assumes spawn_fds: "spawn_conn req \<noteq> None \<Longrightarrow> serve e st req = Ready (st', Spawned sid, fds, effs) \<Longrightarrow>
      length fds = fds_expected req"
    and spawn_reply: "spawn_conn req \<noteq> None \<Longrightarrow> serve e st req = Ready (st', resp, fds, effs) \<Longrightarrow>
      (\<exists>sid. resp = Spawned sid) \<or> resp = Failed"
begin

text \<open>The stub succeeds exactly when the monitor spawned, with the session the monitor allotted.\<close>

lemma client_agrees:
  assumes "spawn_conn req \<noteq> None" "serve e st req = Ready (st', resp, fds, effs)"
  shows "client_accepts req (Inr (resp, fds)) = (case resp of Spawned sid \<Rightarrow> Some sid | _ \<Rightarrow> None)"
proof (cases "resp = Failed")
  case True
  then show ?thesis
    using assms(1)
    by (cases req) (simp_all add: client_spawn_shell_def client_spawn_exec_def client_spawn_transfer_def
        client_spawn_transfer_write_def client_spawn_mkdir_def)
next
  case False
  then obtain sid where r: "resp = Spawned sid" using spawn_reply [OF assms] by blast
  then have "length fds = fds_expected req" using spawn_fds [OF assms(1)] assms(2) by blast
  with r assms(1) show ?thesis
    by (cases req) (simp_all add: client_spawn_shell_def client_spawn_exec_def client_spawn_transfer_def
        client_spawn_transfer_write_def client_spawn_mkdir_def)
qed

end

lemma spawners_fds:
  "spawn_shell e user tm pe = Inr (child, fds) \<Longrightarrow> length fds = 1"
  "spawn_exec e user command pe = Inr (child, fds) \<Longrightarrow> length fds = 3"
  "spawn_transfer e user path = Inr (child, fds) \<Longrightarrow> length fds = 1"
  "spawn_mkdir e user path mode = Inr (child, fds) \<Longrightarrow> length fds = 1"
  "spawn_transfer_write e user path mode = Inr (child, fds) \<Longrightarrow> length fds = 2"
  by (auto simp: spawn_shell_def spawn_exec_def spawn_transfer_def spawn_mkdir_def spawn_transfer_write_def Let_def)

lemma spawn_with_pam_fds:
  assumes "spawn_with_pam e st c mk = (st', Spawned sid, fds, effs)" "\<And>u p ch f. mk u p = Inr (ch, f) \<Longrightarrow> length f = n"
  shows "length fds = n"
  using assms by (auto simp: spawn_with_pam_def Let_def case_prod_unfold split: option.splits sum.splits)

lemma spawn_plain_fds:
  assumes "spawn_plain st c mk = (st', Spawned sid, fds, effs)" "\<And>u ch f. mk u = Inr (ch, f) \<Longrightarrow> length f = n"
  shows "length fds = n"
  using assms by (auto simp: spawn_plain_def case_prod_unfold split: option.splits sum.splits)

interpretation ms: monitor_service handle
proof (unfold_locales, goal_cases)
  case (1 req e st st' sid fds effs)
  then show ?case
    by (cases req)
       (auto dest!: spawn_with_pam_fds spawn_plain_fds dest: spawners_fds)
next
  case (2 req e st st' resp fds effs)
  then obtain c where "spawn_conn req = Some c" by auto
  from handle_spawn_cases [OF this 2(2)] show ?case
    by (auto simp: is_spawn_failure_def is_spawn_def)
qed

subsection \<open>Properties\<close>

text \<open>C32: worker and monitor agree on the descriptors of every kind of session: the worker's stub
  succeeds exactly when the monitor spawned, and with the session id it allotted, so no session is
  started that the worker then refuses.\<close>

theorem spawn_stub_agrees:
  assumes "spawn_conn req \<noteq> None" "handle e st req = Ready (st', resp, fds, effs)"
  shows "client_accepts req (Inr (resp, fds)) = (case resp of Spawned sid \<Rightarrow> Some sid | _ \<Rightarrow> None)"
  by (rule ms.client_agrees [OF assms])

lemma spawn_stub_agrees_witness:
  "client_accepts (SpawnExec 1 ''id'') (Inr (Spawned 1, [StdinOf 7, StdoutOf 7, StderrOf 7])) = Some 1"
proof -
  have "mon_run demo_live (hd demo_trace # tl demo_trace)" using demo_run by (simp add: demo_trace_def)
  from mon_run_last [OF this] obtain st0 where
    "handle demo_env st0 (SpawnExec 1 ''id'')
      = Ready (demo_live, Spawned 1, [StdinOf 7, StdoutOf 7, StderrOf 7], [PamOpen ''al'', Spawn demo_child])"
    by (auto simp: demo_trace_def)
  from spawn_stub_agrees [OF _ this] show ?thesis by simp
qed

text \<open>Whatever channel a connection opens, the request the worker makes of the monitor is for
  that connection, and its client-supplied argument is at most 60 KiB long.\<close>

lemma channel_acts_for_its_connection:
  assumes "action_request (serve_channel c op) = Some req"
  shows "spawn_conn req = Some c
    \<and> (\<exists>arg. length arg \<le> MAX_SPAWN_ARG_LEN \<and>
         (req = SpawnShell c arg \<or> req = SpawnExec c arg \<or> req = SpawnTransfer c arg
          \<or> (\<exists>mode. req = SpawnTransferWrite c arg mode \<or> req = SpawnMkdir c arg mode)))"
  using assms by (cases op) (auto simp: spawn_arg_ok_def split: if_splits)

end
