(* ===== verification/Rpc.thy ===== *)
theory Rpc
  imports Worker
begin

text \<open>
  The control channel under concurrency: \<^verbatim>\<open>MonitorClient::call\<close> of \<^verbatim>\<open>quish-server/src/worker.rs\<close>
  takes the lock, sends one request and receives one response.  The socket is two queues; every
  entry is tagged with the task that sent the request.  A task that is waiting for its response may
  be dropped, as the deadline around \<^verbatim>\<open>authenticate\<close> in \<^verbatim>\<open>transport.rs\<close> does; the lock is then
  released and the response stays in the socket.
\<close>

subsection \<open>Steps\<close>

type_synonym task = nat

record Socket =
  lock_holder :: "task option"
  to_monitor :: "(task \<times> Request) list"
  to_worker :: "(task \<times> Response \<times> fd list) list"
  mon_state :: State

definition Socket_new :: Socket where
  "Socket_new = \<lparr>lock_holder = None, to_monitor = [], to_worker = [], mon_state = State_default\<rparr>"

datatype rpc_label =
    LSend task Request
  | LServe task
  | LRecv task task Response "fd list"
  | LCancel task

inductive rpc_step :: "Socket \<Rightarrow> rpc_label \<Rightarrow> Socket \<Rightarrow> bool" where
  Send: "lock_holder s = None \<Longrightarrow>
     rpc_step s (LSend t req) (s\<lparr>lock_holder := Some t, to_monitor := to_monitor s @ [(t, req)]\<rparr>)"
| Serve: "to_monitor s = (t, req) # rest \<Longrightarrow> handle e (mon_state s) req = Ready (st', resp, fds, effs) \<Longrightarrow>
     rpc_step s (LServe t) (s\<lparr>to_monitor := rest, to_worker := to_worker s @ [(t, resp, fds)], mon_state := st'\<rparr>)"
| Recv: "lock_holder s = Some t \<Longrightarrow> to_worker s = (t', resp, fds) # rest \<Longrightarrow>
     rpc_step s (LRecv t t' resp fds) (s\<lparr>lock_holder := None, to_worker := rest\<rparr>)"
| Cancel: "lock_holder s = Some t \<Longrightarrow> rpc_step s (LCancel t) (s\<lparr>lock_holder := None\<rparr>)"

inductive_cases rpc_stepE: "rpc_step s l s'"

text \<open>Runs, with their labels in order.\<close>

inductive rpc_run :: "rpc_label list \<Rightarrow> Socket \<Rightarrow> bool" where
  Start: "rpc_run [] Socket_new"
| Step: "rpc_run ls s \<Longrightarrow> rpc_step s l s' \<Longrightarrow> rpc_run (ls @ [l]) s'"

subsection \<open>Lemmas\<close>

text \<open>While no call is dropped, all that is in the socket is the holder's one message.\<close>

definition rpc_inv :: "Socket \<Rightarrow> bool" where
  "rpc_inv s \<longleftrightarrow> map fst (to_monitor s) @ map fst (to_worker s) =
     (case lock_holder s of None \<Rightarrow> [] | Some t \<Rightarrow> [t])"

lemma rpc_inv_step:
  assumes "rpc_inv s" "rpc_step s l s'" "\<forall>t. l \<noteq> LCancel t"
  shows "rpc_inv s' \<and> (\<forall>t t' resp fds. l = LRecv t t' resp fds \<longrightarrow> t = t')"
  using assms(2)
proof (cases rule: rpc_step.cases)
  case (Send t req)
  with assms(1) show ?thesis by (auto simp: rpc_inv_def)
next
  case (Serve t req rest e st' resp fds effs)
  then have "to_worker s = []"
    using assms(1) by (auto simp: rpc_inv_def split: option.splits)
  with Serve assms(1) show ?thesis by (auto simp: rpc_inv_def split: option.splits)
next
  case (Recv t t' resp fds rest)
  then have "to_monitor s = [] \<and> t = t' \<and> rest = []"
    using assms(1) by (cases "to_monitor s") (auto simp: rpc_inv_def)
  with Recv show ?thesis by (auto simp: rpc_inv_def)
next
  case (Cancel t)
  with assms(3) show ?thesis by blast
qed

lemma rpc_inv_run:
  "rpc_run ls s \<Longrightarrow> (\<forall>t. LCancel t \<notin> set ls) \<Longrightarrow>
     rpc_inv s \<and> (\<forall>t t' resp fds. LRecv t t' resp fds \<in> set ls \<longrightarrow> t = t')"
proof (induction rule: rpc_run.induct)
  case Start
  then show ?case by (simp add: rpc_inv_def Socket_new_def)
next
  case (Step ls s l s')
  then have ih: "rpc_inv s" "\<forall>t t' resp fds. LRecv t t' resp fds \<in> set ls \<longrightarrow> t = t'"
    and nc: "\<forall>t. l \<noteq> LCancel t" by auto
  from rpc_inv_step [OF ih(1) Step.hyps(2) nc] ih(2) show ?case by auto
qed

subsection \<open>Properties\<close>

text \<open>C33: as long as no waiting call is dropped, the lock is enough: in every interleaving of callers
  and monitor, each response is received by the task whose request it answers.\<close>

theorem responses_matched_without_cancellation:
  assumes "rpc_run ls s" "\<forall>t. LCancel t \<notin> set ls" "LRecv t t' resp fds \<in> set ls"
  shows "t = t'"
  using rpc_inv_run [OF assms(1,2)] assms(3) by blast

lemma demo_serve_authenticate:
  "handle demo_env State_default (Authenticate 1 None [] [] None) = Ready (demo_authed, VerdictR True, [], [])"
  by (simp add: handle_authenticate_def auth_conn_info_def demo_env_def demo_authed_def State_default_def)

lemma responses_matched_without_cancellation_witness:
  "\<exists>s. rpc_run [LSend 5 (Authenticate 1 None [] [] None), LServe 5, LRecv 5 5 (VerdictR True) []] s \<and> (5 :: task) = 5"
proof -
  let ?s1 = "Socket_new\<lparr>lock_holder := Some 5, to_monitor := [(5, Authenticate 1 None [] [] None)]\<rparr>"
  let ?s2 = "?s1\<lparr>to_monitor := [], to_worker := [(5, VerdictR True, [])], mon_state := demo_authed\<rparr>"
  have "rpc_step Socket_new (LSend 5 (Authenticate 1 None [] [] None)) ?s1"
    using rpc_step.Send [of Socket_new 5 "Authenticate 1 None [] [] None"] by (simp add: Socket_new_def)
  moreover have "rpc_step ?s1 (LServe 5) ?s2"
    using rpc_step.Serve [of ?s1 5 "Authenticate 1 None [] [] None" "[]" demo_env demo_authed] demo_serve_authenticate
    by (simp add: Socket_new_def)
  moreover have "rpc_step ?s2 (LRecv 5 5 (VerdictR True) []) (?s2\<lparr>lock_holder := None, to_worker := []\<rparr>)"
    using rpc_step.Recv [of ?s2 5 5 "VerdictR True" "[]" "[]"] by (simp add: Socket_new_def)
  ultimately have "rpc_run ((([] @ [LSend 5 (Authenticate 1 None [] [] None)]) @ [LServe 5]) @ [LRecv 5 5 (VerdictR True) []])
      (?s2\<lparr>lock_holder := None, to_worker := []\<rparr>)"
    by (intro rpc_run.Step [OF rpc_run.Step [OF rpc_run.Step [OF rpc_run.Start]]])
  then have run: "rpc_run [LSend 5 (Authenticate 1 None [] [] None), LServe 5, LRecv 5 5 (VerdictR True) []]
      (?s2\<lparr>lock_holder := None, to_worker := []\<rparr>)" by simp
  have "(5 :: task) = 5"
    by (rule responses_matched_without_cancellation [OF run]) auto
  with run show ?thesis by blast
qed

text \<open>One dropped call shifts every later response: a connection that never authenticated receives
  the terminal the monitor opened for the user of another connection.\<close>

definition demo_shell :: State where
  "demo_shell = fst (spawn_with_pam demo_env demo_authed 1 (\<lambda>user pe. spawn_shell demo_env user ''xterm'' pe))"

lemma demo_serve_shell:
  "\<exists>effs. handle demo_env demo_authed (SpawnShell 1 ''xterm'')
     = Ready (demo_shell, Spawned 1, [PtyMaster ''/dev/pts/1''], effs)"
  by (simp add: spawn_with_pam_def demo_authed_def demo_shell_def State_default_def spawn_shell_def
      lookup_user_def ok_or_def spawn_def demo_env_def Let_def alloc_def open_pam_def open_session_def)

lemma demo_shell_users: "users demo_shell 2 = None"
  by (simp add: demo_shell_def spawn_with_pam_def demo_authed_def State_default_def spawn_shell_def
      lookup_user_def ok_or_def spawn_def demo_env_def Let_def alloc_def open_pam_def open_session_def)

theorem cancelled_call_leaks_session:
  "\<exists>ls s. rpc_run ls s \<and> LSend 1 (SpawnShell 1 ''xterm'') \<in> set ls \<and> LSend 2 (SpawnShell 2 ''xterm'') \<in> set ls
     \<and> LRecv 2 1 (Spawned 1) [PtyMaster ''/dev/pts/1''] \<in> set ls
     \<and> client_accepts (SpawnShell 2 ''xterm'') (Inr (Spawned 1, [PtyMaster ''/dev/pts/1''])) = Some 1
     \<and> users (mon_state s) 2 = None"
proof -
  let ?auth = "Authenticate 1 None [] [] None"
  let ?sh = "[PtyMaster ''/dev/pts/1'']"
  let ?s1 = "Socket_new\<lparr>lock_holder := Some 0, to_monitor := [(0, ?auth)]\<rparr>"
  let ?s2 = "?s1\<lparr>lock_holder := None\<rparr>"
  let ?s3 = "?s2\<lparr>lock_holder := Some 1, to_monitor := [(0, ?auth), (1, SpawnShell 1 ''xterm'')]\<rparr>"
  let ?s4 = "?s3\<lparr>to_monitor := [(1, SpawnShell 1 ''xterm'')], to_worker := [(0, VerdictR True, [])], mon_state := demo_authed\<rparr>"
  let ?s5 = "?s4\<lparr>to_monitor := [], to_worker := [(0, VerdictR True, []), (1, Spawned 1, ?sh)], mon_state := demo_shell\<rparr>"
  let ?s6 = "?s5\<lparr>lock_holder := None, to_worker := [(1, Spawned 1, ?sh)]\<rparr>"
  let ?s7 = "?s6\<lparr>lock_holder := Some 2, to_monitor := [(2, SpawnShell 2 ''xterm'')]\<rparr>"
  let ?s8 = "?s7\<lparr>lock_holder := None, to_worker := []\<rparr>"
  obtain effs where sh: "handle demo_env demo_authed (SpawnShell 1 ''xterm'') = Ready (demo_shell, Spawned 1, ?sh, effs)"
    using demo_serve_shell by blast
  have "rpc_step Socket_new (LSend 0 ?auth) ?s1"
    using rpc_step.Send [of Socket_new 0 ?auth] by (simp add: Socket_new_def)
  moreover have "rpc_step ?s1 (LCancel 0) ?s2" using rpc_step.Cancel [of ?s1 0] by simp
  moreover have "rpc_step ?s2 (LSend 1 (SpawnShell 1 ''xterm'')) ?s3"
    using rpc_step.Send [of ?s2 1 "SpawnShell 1 ''xterm''"] by simp
  moreover have "rpc_step ?s3 (LServe 0) ?s4"
    using rpc_step.Serve [of ?s3 0 ?auth "[(1, SpawnShell 1 ''xterm'')]" demo_env demo_authed] demo_serve_authenticate
    by (simp add: Socket_new_def)
  moreover have "rpc_step ?s4 (LServe 1) ?s5"
    using rpc_step.Serve [of ?s4 1 "SpawnShell 1 ''xterm''" "[]" demo_env demo_shell "Spawned 1" ?sh effs] sh by simp
  moreover have "rpc_step ?s5 (LRecv 1 0 (VerdictR True) []) ?s6"
    using rpc_step.Recv [of ?s5 1 0 "VerdictR True" "[]" "[(1, Spawned 1, ?sh)]"] by simp
  moreover have "rpc_step ?s6 (LSend 2 (SpawnShell 2 ''xterm'')) ?s7"
    using rpc_step.Send [of ?s6 2 "SpawnShell 2 ''xterm''"] by simp
  moreover have "rpc_step ?s7 (LRecv 2 1 (Spawned 1) ?sh) ?s8"
    using rpc_step.Recv [of ?s7 2 1 "Spawned 1" ?sh "[]"] by simp
  ultimately have "rpc_run (((((((([] @ [LSend 0 ?auth]) @ [LCancel 0]) @ [LSend 1 (SpawnShell 1 ''xterm'')]) @ [LServe 0])
      @ [LServe 1]) @ [LRecv 1 0 (VerdictR True) []]) @ [LSend 2 (SpawnShell 2 ''xterm'')]) @ [LRecv 2 1 (Spawned 1) ?sh]) ?s8"
    by (blast intro: rpc_run.intros)
  moreover have "client_accepts (SpawnShell 2 ''xterm'') (Inr (Spawned 1, ?sh)) = Some 1"
    by (simp add: client_spawn_shell_def)
  moreover have "users (mon_state ?s8) 2 = None" by (simp add: demo_shell_users)
  ultimately show ?thesis by (intro exI conjI) (assumption | simp)+
qed

end
