(* ===== verification/Pubkey.thy ===== *)
theory Pubkey
  imports Auth
begin

text \<open>
  The public-key backend, \<^verbatim>\<open>quish-auth/src/pubkey.rs\<close>: the signing payload, minting and parsing
  of tokens, the bounded read of \<^verbatim>\<open>authorized_keys\<close> and the backend itself.

  The file system is a map from paths to nodes; \<^verbatim>\<open>ssh_key\<close> and \<^verbatim>\<open>ed25519_dalek\<close> are fields of the
  environment record.
\<close>

subsection \<open>Constants and files\<close>

definition TOKEN_DOMAIN :: "byte list" where
  "TOKEN_DOMAIN = as_bytes ''quish-pubkey-auth-v1''"

definition TIMESTAMP_WINDOW_SECS :: u64 where
  "TIMESTAMP_WINDOW_SECS = 600"

definition MAX_AUTHORIZED_KEYS_BYTES :: nat where
  "MAX_AUTHORIZED_KEYS_BYTES = 64 * 1024"

text \<open>What \<^verbatim>\<open>open(2)\<close> for reading with \<^verbatim>\<open>O_NOFOLLOW\<close> finds at a path: a FIFO opened for reading
  blocks until it has a writer.\<close>

datatype file_node =
    Regular "byte list"
  | Unreadable
  | Symlink string
  | Fifo bool
  | OtherNode

type_synonym filesystem = "string \<Rightarrow> file_node option"

definition read_authorized_keys :: "filesystem \<Rightarrow> string \<Rightarrow> string option poll" where
  "read_authorized_keys fs path = (case fs path of
       None \<Rightarrow> Ready None
     | Some (Symlink _) \<Rightarrow> Ready None
     | Some (Fifo writer) \<Rightarrow> (if writer then Ready None else Pending)
     | Some OtherNode \<Rightarrow> Ready None
     | Some Unreadable \<Rightarrow> Ready None
     | Some (Regular content) \<Rightarrow> Ready (from_utf8 (take MAX_AUTHORIZED_KEYS_BYTES content)))"

text \<open>\<open>from_openssh\<close> parses a public-key line and gives the ed25519 key it holds, if it is one.\<close>

definition key_line_matches :: "(string \<Rightarrow> 'se + byte list option) \<Rightarrow> string \<Rightarrow> byte list \<Rightarrow> bool" where
  "key_line_matches from_openssh line pk =
     (let line = trim line in
      if line = [] \<or> prefix ''#'' line then False
      else case Option.bind (res_ok (from_openssh line)) (\<lambda>k. k) of
             Some k \<Rightarrow> k = pk
           | None \<Rightarrow> False)"

subsection \<open>Tokens\<close>

definition signing_payload :: "byte list \<Rightarrow> string \<Rightarrow> u64 \<Rightarrow> byte list" where
  "signing_payload binding username ts =
     TOKEN_DOMAIN @ binding @ as_bytes username @ le_bytes64 ts"

text \<open>\<open>sign\<close> and \<open>verifying_key\<close> are those of \<^verbatim>\<open>ed25519_dalek::SigningKey\<close>; \<^const>\<open>None\<close> is the
  panic of \<^verbatim>\<open>expect\<close>.\<close>

definition sign_token ::
  "(byte list \<Rightarrow> string) \<Rightarrow> (Token \<Rightarrow> 'pe + byte list) \<Rightarrow> ('sk \<Rightarrow> byte list \<Rightarrow> byte list) \<Rightarrow> ('sk \<Rightarrow> byte list) \<Rightarrow>
     'sk \<Rightarrow> string \<Rightarrow> byte list \<Rightarrow> u64 \<Rightarrow> string option" where
  "sign_token b64 to_stdvec sign verifying_key signing username binding ts =
     (let sig = sign signing (signing_payload binding username ts);
          tok = \<lparr>tok_username = username, pubkey = verifying_key signing, timestamp = ts, signature = sig\<rparr>
      in map_option b64 (res_ok (to_stdvec tok)))"

datatype build_error = BadPrivateKey | NotEd25519

text \<open>\<open>parse_private\<close> is \<^verbatim>\<open>ssh_key::PrivateKey::from_openssh\<close> followed by the selection of the
  ed25519 key pair.\<close>

definition build_token ::
  "(byte list \<Rightarrow> string) \<Rightarrow> (Token \<Rightarrow> 'pe + byte list) \<Rightarrow> ('sk \<Rightarrow> byte list \<Rightarrow> byte list) \<Rightarrow> ('sk \<Rightarrow> byte list) \<Rightarrow>
     (byte list \<Rightarrow> 'sk option option) \<Rightarrow> u64 \<Rightarrow> byte list \<Rightarrow> string \<Rightarrow> byte list \<Rightarrow> (build_error + string) option" where
  "build_token b64 to_stdvec sign verifying_key parse_private now openssh_private_key username binding =
     (case parse_private openssh_private_key of
        None \<Rightarrow> Some (Inl BadPrivateKey)
      | Some None \<Rightarrow> Some (Inl NotEd25519)
      | Some (Some signing) \<Rightarrow>
          map_option Inr (sign_token b64 to_stdvec sign verifying_key signing username binding now))"

text \<open>The ssh-key crate: a random ed25519 key, and the OpenSSH forms of a private key, which carries
  a comment, and of its public key.\<close>

record 'sk SshKeyLib =
  ssh_random :: "'sk option"
  ssh_private_openssh :: "'sk \<times> string \<Rightarrow> string option"
  ssh_public_openssh :: "'sk \<times> string \<Rightarrow> string option"

datatype keypair_error = GeneratingKey | EncodingPrivate | EncodingPublic

definition generate_keypair :: "'sk SshKeyLib \<Rightarrow> string \<Rightarrow> keypair_error + string \<times> string" where
  "generate_keypair lib comment =
     rbind (ok_or GeneratingKey (ssh_random lib)) (\<lambda>sk.
       let key = (sk, comment) in
       rbind (ok_or EncodingPrivate (ssh_private_openssh lib key)) (\<lambda>pem.
       rbind (ok_or EncodingPublic (ssh_public_openssh lib key)) (\<lambda>pub_line.
         Inr (pem, pub_line))))"

subsection \<open>The backend\<close>

record PubkeyEnv =
  now_secs :: u64
  pk_fs :: filesystem
  resolver :: "string \<Rightarrow> string option"
  ssh_from_openssh :: "string \<Rightarrow> unit + byte list option"
  vk_from_bytes :: "byte list \<Rightarrow> bool"
  ed_verify :: "byte list \<Rightarrow> byte list \<Rightarrow> byte list \<Rightarrow> bool"

definition key_authorized :: "PubkeyEnv \<Rightarrow> Token \<Rightarrow> bool poll" where
  "key_authorized env tok = (case resolver env (tok_username tok) of
       Some p \<Rightarrow> poll_bind (read_authorized_keys (pk_fs env) p) (\<lambda>r. case r of
           Some contents \<Rightarrow>
             Ready (list_ex (\<lambda>line. key_line_matches (ssh_from_openssh env) line (pubkey tok)) (lines contents))
         | None \<Rightarrow> Ready False)
     | None \<Rightarrow> Ready False)"

definition pubkey_authenticate :: "PubkeyEnv \<Rightarrow> ConnInfo \<Rightarrow> Credentials \<Rightarrow> Verdict poll" where
  "pubkey_authenticate env conn creds = (case creds of
       SignedToken tok \<Rightarrow>
         if abs_diff64 (timestamp tok) (now_secs env) > TIMESTAMP_WINDOW_SECS then Ready Deny
         else poll_bind (key_authorized env tok) (\<lambda>authorized.
           if \<not> authorized then Ready Deny
           else if \<not> vk_from_bytes env (pubkey tok) then Ready Deny
           else if length (signature tok) \<noteq> 64 then Ready Deny
           else let payload = signing_payload (channel_binding conn) (tok_username tok) (timestamp tok) in
             if ed_verify env (pubkey tok) payload (signature tok) then Ready (Allow (tok_username tok))
             else Ready Deny)
     | _ \<Rightarrow> Ready Deny)"

definition PubkeyBackend :: "PubkeyEnv \<Rightarrow> AuthBackend" where
  "PubkeyBackend env =
     \<lparr>bk_name = ''pubkey'',
      supports = (\<lambda>creds. case creds of SignedToken _ \<Rightarrow> True | _ \<Rightarrow> False),
      bk_authenticate = pubkey_authenticate env\<rparr>"

subsection \<open>Lemmas\<close>

text \<open>The payload determines the connection, the user and the time it was made for.\<close>

lemma signing_payload_inj:
  assumes "length b1 = CHANNEL_BINDING_LEN" "length b2 = CHANNEL_BINDING_LEN"
  shows "signing_payload b1 u1 t1 = signing_payload b2 u2 t2 \<longleftrightarrow> b1 = b2 \<and> u1 = u2 \<and> t1 = t2"
proof
  assume "signing_payload b1 u1 t1 = signing_payload b2 u2 t2"
  then have "b1 = b2 \<and> as_bytes u1 @ le_bytes64 t1 = as_bytes u2 @ le_bytes64 t2"
    using assms by (simp add: signing_payload_def)
  moreover from this have "as_bytes u1 = as_bytes u2 \<and> le_bytes64 t1 = le_bytes64 t2"
    by (simp add: append_eq_append_conv)
  ultimately show "b1 = b2 \<and> u1 = u2 \<and> t1 = t2" by simp
qed simp

lemma key_line_matches_Some:
  "key_line_matches f line pk \<longleftrightarrow> trim line \<noteq> [] \<and> \<not> prefix ''#'' (trim line) \<and> f (trim line) = Inr (Some pk)"
  by (auto simp: key_line_matches_def Let_def bind_eq_Some_conv split: option.splits)

text \<open>What lets a token in.\<close>

definition pubkey_evidence :: "PubkeyEnv \<Rightarrow> ConnInfo \<Rightarrow> Credentials \<Rightarrow> string \<Rightarrow> bool" where
  "pubkey_evidence env conn creds u \<longleftrightarrow> (\<exists>tok path content keys line.
     creds = SignedToken tok \<and> u = tok_username tok
     \<and> abs_diff64 (timestamp tok) (now_secs env) \<le> TIMESTAMP_WINDOW_SECS
     \<and> resolver env u = Some path \<and> pk_fs env path = Some (Regular content)
     \<and> from_utf8 (take MAX_AUTHORIZED_KEYS_BYTES content) = Some keys
     \<and> line \<in> set (lines keys) \<and> trim line \<noteq> [] \<and> \<not> prefix ''#'' (trim line)
     \<and> ssh_from_openssh env (trim line) = Inr (Some (pubkey tok))
     \<and> ed_verify env (pubkey tok) (signing_payload (channel_binding conn) u (timestamp tok)) (signature tok))"

lemma key_authorized_True:
  "key_authorized env tok = Ready True \<longleftrightarrow> (\<exists>path content keys line.
     resolver env (tok_username tok) = Some path \<and> pk_fs env path = Some (Regular content)
     \<and> from_utf8 (take MAX_AUTHORIZED_KEYS_BYTES content) = Some keys
     \<and> line \<in> set (lines keys) \<and> key_line_matches (ssh_from_openssh env) line (pubkey tok))"
  by (auto simp: key_authorized_def read_authorized_keys_def list_ex_iff
      split: option.splits file_node.splits if_splits)

lemma pubkey_Allow_iff:
  "pubkey_authenticate env conn creds = Ready (Allow u) \<longleftrightarrow> (\<exists>tok.
     creds = SignedToken tok \<and> u = tok_username tok
     \<and> abs_diff64 (timestamp tok) (now_secs env) \<le> TIMESTAMP_WINDOW_SECS
     \<and> key_authorized env tok = Ready True \<and> vk_from_bytes env (pubkey tok)
     \<and> length (signature tok) = 64
     \<and> ed_verify env (pubkey tok) (signing_payload (channel_binding conn) u (timestamp tok)) (signature tok))"
  by (cases creds) (auto simp: pubkey_authenticate_def Let_def not_less split: if_splits)

interpretation pk: auth_backend "PubkeyBackend env" "pubkey_evidence env" for env
proof (unfold_locales, goal_cases)
  case (1 creds conn u)
  then have "pubkey_authenticate env conn creds = Ready (Allow u)"
    by (simp add: PubkeyBackend_def)
  then show ?case
    unfolding pubkey_Allow_iff key_authorized_True key_line_matches_Some pubkey_evidence_def
    by blast
qed

subsection \<open>Properties\<close>

text \<open>C9: a token is good for the connection, the user and the time it was signed for only.  The
  hypothesis on ed25519 is that a signature verifies under \<open>k\<close> only over a payload the holder of
  \<open>k\<close> signed, and the holder signed for connection \<open>b0\<close> alone.\<close>

theorem token_bound_to_connection:
  assumes unforgeable: "\<And>p sg. ed_verify env (pubkey tok) p sg \<Longrightarrow> p \<in> minted"
    and holder: "\<And>p. p \<in> minted \<Longrightarrow> \<exists>t. p = signing_payload b0 u0 t \<and> t \<in> stamps"
    and len: "length b0 = CHANNEL_BINDING_LEN" "length (channel_binding conn) = CHANNEL_BINDING_LEN"
    and ok: "pubkey_authenticate env conn (SignedToken tok) = Ready (Allow u)"
  shows "channel_binding conn = b0 \<and> u = u0 \<and> timestamp tok \<in> stamps"
proof -
  from ok have "ed_verify env (pubkey tok) (signing_payload (channel_binding conn) u (timestamp tok)) (signature tok)"
    by (auto simp: pubkey_Allow_iff)
  then obtain t where "signing_payload (channel_binding conn) u (timestamp tok) = signing_payload b0 u0 t"
    and "t \<in> stamps"
    using holder [OF unforgeable] by blast
  then show ?thesis using len by (simp add: signing_payload_inj)
qed

lemma token_bound_to_connection_witness:
  "channel_binding \<lparr>peer_addr = (V4 0, 0), channel_binding = replicate 32 7, challenge = None\<rparr> = replicate 32 7
   \<and> ''alice'' = ''alice'' \<and> (1000 :: u64) \<in> {1000}"
proof (rule token_bound_to_connection [where
      env = "\<lparr>now_secs = 1000, pk_fs = (\<lambda>_. Some (Regular (as_bytes ''k''))), resolver = (\<lambda>_. Some ''f''),
        ssh_from_openssh = (\<lambda>_. Inr (Some [1])), vk_from_bytes = (\<lambda>_. True),
        ed_verify = (\<lambda>_ p _. p = signing_payload (replicate 32 7) ''alice'' 1000)\<rparr>"
      and tok = "\<lparr>tok_username = ''alice'', pubkey = [1], timestamp = 1000, signature = replicate 64 0\<rparr>"
      and minted = "{signing_payload (replicate 32 7) ''alice'' 1000}", simplified], goal_cases)
  case 4
  have "trim ''k'' = ''k''" by (rule trim_graphic) (simp add: graphic_def)
  moreover have "lines ''k'' = [''k'']" "from_utf8 (as_bytes ''k'') = Some ''k''" by code_simp+
  ultimately show ?case
    by (simp add: pubkey_Allow_iff key_authorized_True key_line_matches_Some abs_diff64_def
        TIMESTAMP_WINDOW_SECS_def MAX_AUTHORIZED_KEYS_BYTES_def)
qed (auto simp: CHANNEL_BINDING_LEN_def)

text \<open>A client holding an authorised key gets in: the token it mints for this connection,
  sent as a Bearer header, is let in under its name by every registry in which no earlier backend
  takes tokens and whose policy permits the name.\<close>

lemma pubkey_login_succeeds:
  fixes to_vec :: "Token \<Rightarrow> 'pe + byte list"
  assumes base64: "base64_law enc dec"
    and postcard: "\<And>t bs. to_vec t = Inr bs \<Longrightarrow> from_bytes bs = Inr t"
    and ed25519: "\<And>m. ed_verify env (vk sk) m (sign sk m)" "\<And>m. length (sign sk m) = 64"
      "vk_from_bytes env (vk sk)"
    and mint: "sign_token enc to_vec sign vk sk u (channel_binding conn) ts = Some blob"
    and clock: "abs_diff64 ts (now_secs env) \<le> TIMESTAMP_WINDOW_SECS"
    and keys: "resolver env u = Some path" "pk_fs env path = Some (Regular (as_bytes ks))"
      "length ks \<le> MAX_AUTHORIZED_KEYS_BYTES" "utf8_valid (as_bytes ks)"
    and listed: "line \<in> set (lines ks)" "key_line_matches (ssh_from_openssh env) line (vk sk)"
    and first: "backends reg = pre @ PubkeyBackend env # post" "\<And>b t. b \<in> set pre \<Longrightarrow> \<not> supports b (SignedToken t)"
    and allowed: "permits (policy reg) u"
  shows "verdict (parse_authorization dec from_bytes) reg (Some (bearer_header blob)) conn = Ready (Allow u)"
proof -
  define tok where "tok = \<lparr>tok_username = u, pubkey = vk sk, timestamp = ts,
     signature = sign sk (signing_payload (channel_binding conn) u ts)\<rparr>"
  from mint obtain bs where bs: "to_vec tok = Inr bs" "blob = enc bs"
    by (auto simp: sign_token_def tok_def Let_def)
  have blob: "dec blob = Inr bs" "list_all base64_char blob"
    using base64 bs by (auto simp: base64_law_def)
  have "strip_prefix ''Bearer '' (bearer_header blob) = Some blob"
    "strip_prefix ''Basic '' (bearer_header blob) = None"
    by (simp_all add: bearer_header_def strip_prefix_def)
  then have parsed: "parse_authorization dec from_bytes (Some (bearer_header blob)) = Some (SignedToken tok)"
    using blob base64_no_dot [OF blob(2)] postcard [OF bs(1)]
    by (simp add: parse_authorization_def parse_token_def base64_trim)
  have "key_authorized env tok = Ready True"
    using keys listed by (auto simp: key_authorized_True tok_def from_utf8_as_bytes)
  then have "pubkey_authenticate env conn (SignedToken tok) = Ready (Allow u)"
    using ed25519 clock by (simp add: pubkey_Allow_iff tok_def)
  moreover have "find (\<lambda>b. supports b (SignedToken tok)) (pre @ PubkeyBackend env # post) = Some (PubkeyBackend env)"
    using first(2) by (induction pre) (auto simp: PubkeyBackend_def)
  ultimately show ?thesis
    using parsed allowed first(1) by (simp add: verdict_Allow_iff dispatch_first PubkeyBackend_def)
qed

text \<open>A user who puts a FIFO in place of their key file makes every token that names them, signed
  or not, block its authentication for good.\<close>

lemma fifo_blocks_authentication:
  assumes "resolver env (tok_username tok) = Some path" "pk_fs env path = Some (Fifo False)"
    and "abs_diff64 (timestamp tok) (now_secs env) \<le> TIMESTAMP_WINDOW_SECS"
  shows "pubkey_authenticate env conn (SignedToken tok) = Pending"
  using assms by (simp add: pubkey_authenticate_def key_authorized_def read_authorized_keys_def not_less)

end
