(* ===== verification/Rust_Utf8.thy ===== *)
theory Rust_Utf8
  imports Rust_Net
begin

text \<open>
  Lemmas on UTF-8 validity, lines and trimming: validity of concatenations and of the pieces between
  ASCII characters, and the lines of a text that is put together from lines.
\<close>

subsection \<open>Validity\<close>

text \<open>The length of a well-formed sequence at the head of a byte list, and whether it is one.\<close>

definition utf8_head :: "byte list \<Rightarrow> nat" where
  "utf8_head s = (case s of [] \<Rightarrow> 0 | a # _ \<Rightarrow>
     if a < 0x80 then 1 else if a < 0xC2 then 0 else if a \<le> 0xDF then 2 else if a \<le> 0xEF then 3
     else if a \<le> 0xF4 then 4 else 0)"

definition utf8_head_ok :: "byte list \<Rightarrow> bool" where
  "utf8_head_ok s \<longleftrightarrow> utf8_head s \<noteq> 0 \<and> utf8_head s \<le> length s \<and> list_all utf8_cont (tl (take (utf8_head s) s))
     \<and> (s ! 0 = 0xE0 \<longrightarrow> 0xA0 \<le> s ! 1) \<and> (s ! 0 = 0xED \<longrightarrow> s ! 1 \<le> 0x9F)
     \<and> (s ! 0 = 0xF0 \<longrightarrow> 0x90 \<le> s ! 1) \<and> (s ! 0 = 0xF4 \<longrightarrow> s ! 1 \<le> 0x8F)"

lemma utf8_valid_head:
  "s \<noteq> [] \<Longrightarrow> utf8_valid s \<longleftrightarrow> utf8_head_ok s \<and> utf8_valid (drop (utf8_head s) s)"
proof (cases s)
  case (Cons a r)
  consider "a < 0x80" | "\<not> a < 0x80" "a < 0xC2" | "\<not> a < 0x80" "\<not> a < 0xC2" "a \<le> 0xDF"
    | "\<not> a < 0x80" "\<not> a < 0xC2" "\<not> a \<le> 0xDF" "a \<le> 0xEF"
    | "\<not> a < 0x80" "\<not> a < 0xC2" "\<not> a \<le> 0xDF" "\<not> a \<le> 0xEF" "a \<le> 0xF4"
    | "\<not> a < 0x80" "\<not> a < 0xC2" "\<not> a \<le> 0xDF" "\<not> a \<le> 0xEF" "\<not> a \<le> 0xF4" by blast
  then show ?thesis
  proof cases
    case 1
    then have "a \<noteq> 0xE0" "a \<noteq> 0xED" "a \<noteq> 0xF0" "a \<noteq> 0xF4" by auto
    with 1 Cons show ?thesis by (simp add: utf8_head_def utf8_head_ok_def)
  next
    case 2
    with Cons show ?thesis by (simp add: utf8_head_def utf8_head_ok_def)
  next
    case 3
    then have "a \<noteq> 0xE0" "a \<noteq> 0xED" "a \<noteq> 0xF0" "a \<noteq> 0xF4" by auto
    with 3 Cons show ?thesis by (cases r) (simp_all add: utf8_head_def utf8_head_ok_def)
  next
    case 4
    then have "a \<noteq> 0xF0" "a \<noteq> 0xF4" by auto
    with 4 Cons show ?thesis
      by (cases r; cases "tl r") (auto simp: utf8_head_def utf8_head_ok_def)
  next
    case 5
    then have "a \<noteq> 0xE0" "a \<noteq> 0xED" by auto
    with 5 Cons show ?thesis
      by (cases r; cases "tl r"; cases "tl (tl r)") (auto simp: utf8_head_def utf8_head_ok_def)
  next
    case 6
    with Cons show ?thesis by (simp add: utf8_head_def utf8_head_ok_def)
  qed
qed simp

declare utf8_valid.simps(2) [simp del]

lemma utf8_ascii_not_cont: "c < 0x80 \<Longrightarrow> \<not> utf8_cont c"
  by (auto simp: utf8_cont_def not_le)

lemma utf8_head_append:
  assumes "a \<noteq> []" "utf8_head a \<le> length a"
  shows "utf8_head (a @ b) = utf8_head a" "utf8_head_ok (a @ b) = utf8_head_ok a"
proof -
  obtain x r where a: "a = x # r" using assms(1) by (cases a) auto
  show h: "utf8_head (a @ b) = utf8_head a" by (simp add: utf8_head_def a)
  show "utf8_head_ok (a @ b) = utf8_head_ok a"
  proof (cases "r = []")
    case True
    with assms a have "utf8_head a = 1 \<or> utf8_head a = 0" by simp linarith
    then have "utf8_head a = 0 \<or> x \<noteq> 0xE0 \<and> x \<noteq> 0xED \<and> x \<noteq> 0xF0 \<and> x \<noteq> 0xF4"
      by (auto simp: a utf8_head_def)
    moreover have "take (utf8_head a) (a @ b) = take (utf8_head a) a" using assms(2) by simp
    moreover have "(a @ b) ! 0 = x" "a ! 0 = x" by (simp_all add: a)
    ultimately show ?thesis using h assms(2) unfolding utf8_head_ok_def by auto
  next
    case False
    then have "(a @ b) ! 0 = a ! 0" "(a @ b) ! 1 = a ! 1" using a by (auto simp: nth_append)
    with h show ?thesis using assms(2) by (simp add: utf8_head_ok_def)
  qed
qed

lemma utf8_valid_append: "utf8_valid a \<Longrightarrow> utf8_valid (a @ b) \<longleftrightarrow> utf8_valid b"
proof (induction "length a" arbitrary: a rule: less_induct)
  case less
  show ?case
  proof (cases "a = []")
    case False
    with less.prems have h: "utf8_head_ok a" "utf8_valid (drop (utf8_head a) a)" by (simp_all add: utf8_valid_head)
    then have l: "0 < utf8_head a" "utf8_head a \<le> length a" by (simp_all add: utf8_head_ok_def)
    have "utf8_valid (a @ b) \<longleftrightarrow> utf8_valid (drop (utf8_head a) a @ b)"
      using False l h(1) utf8_head_append [OF False l(2), of b] by (simp add: utf8_valid_head [of "a @ b"])
    then show ?thesis using less.hyps [OF _ h(2)] l False by simp
  qed simp
qed

lemma utf8_valid_ascii: "list_all (\<lambda>b. b < 0x80) a \<Longrightarrow> utf8_valid a"
  by (induction a) (simp_all add: utf8_valid.simps(2))

lemma utf8_valid_split: "c < 0x80 \<Longrightarrow> utf8_valid (a @ c # b) \<Longrightarrow> utf8_valid a \<and> utf8_valid b"
proof (induction "length a" arbitrary: a rule: less_induct)
  case less
  show ?case
  proof (cases "a = []")
    case True
    with less.prems show ?thesis by (simp add: utf8_valid.simps(2))
  next
    case False
    let ?s = "a @ c # b" and ?n = "utf8_head a"
    have n: "utf8_head ?s = ?n" using False by (cases a) (simp_all add: utf8_head_def)
    have h: "utf8_head_ok ?s" "utf8_valid (drop ?n ?s)"
      using less.prems(2) utf8_valid_head [of ?s] n by simp_all
    have le: "?n \<le> length a"
    proof (rule ccontr)
      assume "\<not> ?n \<le> length a"
      moreover obtain x r where "a = x # r" using False by (cases a) auto
      ultimately have "c \<in> set (tl (take ?n ?s))"
        by (auto simp: take_Cons' in_set_conv_nth Suc_diff_le take_append split: nat.splits)
      then have "utf8_cont c" using h(1) n by (auto simp: utf8_head_ok_def list_all_iff)
      then show False using utf8_ascii_not_cont [OF less.prems(1)] by simp
    qed
    have ok: "utf8_head_ok a" using h(1) utf8_head_append [OF False le] by simp
    then have "0 < ?n" by (simp add: utf8_head_ok_def)
    moreover have "utf8_valid (drop ?n a @ c # b)" using h(2) le by simp
    ultimately have "utf8_valid (drop ?n a) \<and> utf8_valid b"
      using less.hyps [of "drop ?n a"] less.prems(1) False by simp
    then show ?thesis using ok False by (simp add: utf8_valid_head [of a])
  qed
qed


subsection \<open>Cutting at a character\<close>

lemma split_on_append [str_simps]: "split_on c (a @ c # b) = split_on c a @ split_on c b"
proof (induction a)
  case (Cons x a)
  then show ?case using split_on_nonempty [of c a] by (auto split: list.splits)
qed simp

lemma split_on_in:
  assumes "c < 0x80" "char_byte ch = c" "utf8_valid (as_bytes s)" "l \<in> set (split_on ch s)"
  shows "utf8_valid (as_bytes l)"
  using assms(3,4)
proof (induction "length s" arbitrary: s rule: less_induct)
  case less
  show ?case
  proof (cases "ch \<in> set s")
    case True
    then obtain a b where ab: "s = a @ ch # b" "ch \<notin> set a" by (metis split_list_first)
    have "utf8_valid (as_bytes a @ c # as_bytes b)" using less.prems(1) ab(1) assms(2) by (simp add: as_bytes_def)
    from utf8_valid_split [OF assms(1) this] have v: "utf8_valid (as_bytes a)" "utf8_valid (as_bytes b)" by simp_all
    from less.prems(2) ab have "l = a \<or> l \<in> set (split_on ch b)" by (simp add: split_on_line)
    then show ?thesis using v less.hyps [of b] ab by auto
  qed (use less.prems in \<open>simp add: split_on_id\<close>)
qed

lemma split_on_no_sep: "l \<in> set (split_on c s) \<Longrightarrow> c \<notin> set l"
proof (induction s arbitrary: l)
  case (Cons x s)
  then show ?case by (cases "split_on c s") (auto split: if_splits)
qed simp

subsection \<open>Lines\<close>

definition ends_line :: "string \<Rightarrow> bool" where
  "ends_line s \<longleftrightarrow> s = [] \<or> last s = CHR 0x0A"

lemma lines_append: "ends_line a \<Longrightarrow> lines (a @ b) = lines a @ lines b"
proof (cases "a = []")
  case False
  moreover assume "ends_line a"
  ultimately have "a = butlast a @ [CHR 0x0A]" by (metis append_butlast_last_id ends_line_def)
  then obtain a' where a: "a = a' @ [CHR 0x0A]" by blast
  show ?thesis
    unfolding a lines_def Let_def
    using split_on_append [of "CHR 0x0A" a' b] split_on_append [of "CHR 0x0A" a' "[]"]
    by (simp add: butlast_append)
qed simp

lemma strip_cr_set: "set (strip_cr l) \<subseteq> set l"
  by (auto simp: strip_cr_def dest: in_set_butlastD)

lemma lines_no_lf: "l \<in> set (lines s) \<Longrightarrow> CHR 0x0A \<notin> set l"
  using strip_cr_set split_on_no_sep [of _ "CHR 0x0A" s] split_on_nonempty [of "CHR 0x0A" s]
  by (auto simp: lines_def Let_def split: if_splits dest!: in_set_butlastD)

lemma lines_utf8:
  assumes "utf8_valid (as_bytes s)" "l \<in> set (lines s)"
  shows "utf8_valid (as_bytes l)"
proof -
  have nl: "char_byte (CHR 0x0A) = 0x0A" "char_byte (CHR 0x0D) = 0x0D" by code_simp+
  have piece: "utf8_valid (as_bytes p)" if "p \<in> set (split_on (CHR 0x0A) s)" for p
    using split_on_in [OF _ nl(1) assms(1) that] by simp
  have "utf8_valid (as_bytes (strip_cr p))" if "utf8_valid (as_bytes p)" for p
  proof (cases "p \<noteq> [] \<and> last p = CHR 0x0D")
    case True
    then have "as_bytes p = as_bytes (butlast p) @ 0x0D # []"
      by (metis append_butlast_last_id as_bytes_append as_bytes_def list.simps(8,9) nl(2))
    with that True show ?thesis using utf8_valid_split [of "0x0D" "as_bytes (butlast p)" "[]"] by (simp add: strip_cr_def)
  qed (use that in \<open>auto simp: strip_cr_def\<close>)
  then show ?thesis
    using assms(2) piece split_on_nonempty [of "CHR 0x0A" s]
    by (auto simp: lines_def Let_def split: if_splits dest: in_set_butlastD)
qed

text \<open>\<^verbatim>\<open>ls.join("\n")\<close> with a line feed after it.\<close>

lemma lines_join:
  "ls \<noteq> [] \<Longrightarrow> (\<And>l. l \<in> set ls \<Longrightarrow> CHR 0x0A \<notin> set l) \<Longrightarrow> lines (intercalate [CHR 0x0A] ls @ [CHR 0x0A]) = map strip_cr ls"
proof (induction ls rule: list_nonempty_induct)
  case (single l)
  then show ?case using lines_Cons [of l "[]"] by simp
next
  case (cons l ls)
  then obtain m ms where ls: "ls = m # ms" by (cases ls) auto
  show ?case using cons lines_Cons [of l "intercalate [CHR 0x0A] ls @ [CHR 0x0A]"] by (simp add: ls)
qed

lemma intercalate_utf8:
  "(\<And>l. l \<in> set ls \<Longrightarrow> utf8_valid (as_bytes l)) \<Longrightarrow> utf8_valid (as_bytes (intercalate [CHR 0x0A] ls))"
proof (induction ls rule: induct_list012)
  case (3 l m ms)
  have "char_byte (CHR 0x0A) = 0x0A" by code_simp
  with 3 show ?case by (simp add: utf8_valid_append as_bytes_def utf8_valid.simps(2))
qed (simp_all add: as_bytes_def)

subsection \<open>Trimming a carriage return\<close>

lemma ws_seqs_cr: "w \<in> set ws_seqs \<Longrightarrow> last w = CHR 0x0D \<Longrightarrow> w = [CHR 0x0D]" "[CHR 0x0D] \<in> set ws_seqs"
  by (auto simp: ws_seqs_def ws_ascii_def ws_wide_def)

lemma ws_last_cr: "ws_last (s @ [CHR 0x0D]) = Some [CHR 0x0D]"
proof -
  have "w = [CHR 0x0D]" if "w \<in> set ws_seqs" "suffix w (s @ [CHR 0x0D])" for w
    using that ws_seqs_nonempty [OF that(1)] ws_seqs_cr(1) [OF that(1)] by (auto simp: suffix_snoc)
  moreover have "find (\<lambda>w. suffix w (s @ [CHR 0x0D])) ws_seqs \<noteq> None"
    using ws_seqs_cr(2) by (auto simp: find_None_iff suffix_def)
  ultimately show ?thesis using ws_last_shrinks unfolding ws_last_def by (metis not_None_eq)
qed

lemma trim_end_cr: "trim_end (s @ [CHR 0x0D]) = trim_end s"
  by (subst trim_end.simps) (simp add: ws_last_cr)

lemma ws_head_snoc_cr: "s \<noteq> [] \<Longrightarrow> ws_head (s @ [CHR 0x0D]) = ws_head s"
proof -
  assume s: "s \<noteq> []"
  have "prefix w (s @ [CHR 0x0D]) \<longleftrightarrow> prefix w s" if "w \<in> set ws_seqs" for w
    using s ws_seqs_cr(1) [OF that] by (auto simp: prefix_snoc)
  then show ?thesis unfolding ws_head_def by (metis (mono_tags, lifting) find_cong)
qed

lemma trim_start_snoc_cr:
  "trim_start (s @ [CHR 0x0D]) = (if trim_start s = [] then [] else trim_start s @ [CHR 0x0D])"
proof (induction s rule: trim_start.induct)
  case (1 s)
  have e: "trim_start [] = []" by (simp add: trim_start_graphic)
  have cr: "trim_start [CHR 0x0D] = []" by code_simp
  show ?case
  proof (cases "s = []")
    case False
    show ?thesis
    proof (cases "ws_head s")
      case None
      with False show ?thesis
        using ws_head_snoc_cr [OF False] by (simp add: trim_start.simps [of s] trim_start.simps [of "s @ [CHR 0x0D]"])
    next
      case (Some w)
      then have "length w \<le> length s" using ws_head_shrinks by blast
      with Some False 1 show ?thesis
        using ws_head_snoc_cr [OF False] by (simp add: trim_start.simps [of s] trim_start.simps [of "s @ [CHR 0x0D]"])
    qed
  qed (simp add: e cr)
qed

lemma trim_snoc_cr: "trim (s @ [CHR 0x0D]) = trim s"
proof -
  have "trim_end [] = []" by (simp add: trim_end_graphic)
  then show ?thesis by (simp add: trim_def trim_start_snoc_cr trim_end_cr)
qed

end
