(* ===== verification/Rust_Path.thy ===== *)
theory Rust_Path
  imports Rust_Utf8
begin

text \<open>
  What the client uses of \<^verbatim>\<open>std::path\<close>: \<^verbatim>\<open>file_name\<close> and \<^verbatim>\<open>parent\<close>.  A path is the list of its
  pieces between slashes; the first piece of an absolute path is empty.  Empty pieces and dots after
  the first are not components.
\<close>

definition trim_pieces :: "string list \<Rightarrow> string list" where
  "trim_pieces ps = (case ps of [] \<Rightarrow> [] | p # rest \<Rightarrow>
     p # rev (dropWhile (\<lambda>s. s = [] \<or> s = ''.'') (rev rest)))"

definition path_pieces :: "string \<Rightarrow> string list" where
  "path_pieces p = trim_pieces (split_on (CHR ''/'') p)"

definition is_normal :: "string \<Rightarrow> bool" where
  "is_normal s \<longleftrightarrow> s \<noteq> [] \<and> s \<noteq> ''.'' \<and> s \<noteq> ''..''"

definition path_file_name :: "string \<Rightarrow> string option" where
  "path_file_name p = (let l = last (path_pieces p) in if is_normal l then Some l else None)"

text \<open>The rest of the pieces as a path: the root alone is a slash.\<close>

definition pieces_path :: "string list \<Rightarrow> string" where
  "pieces_path ps = (if ps = [[]] then ''/'' else intercalate ''/'' ps)"

definition path_parent :: "string \<Rightarrow> string option" where
  "path_parent p = (case path_pieces p of
       [s] \<Rightarrow> if s = [] then None else Some []
     | ps \<Rightarrow> Some (pieces_path (trim_pieces (butlast ps))))"

lemma path_examples:
  "path_file_name ''/x/y.txt'' = Some ''y.txt''" "path_file_name ''a/./'' = Some ''a''" "path_file_name ''a/..'' = None"
  "path_file_name ''.'' = None" "path_file_name ''/'' = None"
  "path_parent ''/x/y.txt'' = Some ''/x''" "path_parent ''/x'' = Some ''/''" "path_parent ''x'' = Some []"
  "path_parent ''a//./b/'' = Some ''a''" "path_parent ''/'' = None" "path_parent [] = None"
  by code_simp+

text \<open>A file name is a single component.\<close>

lemma trim_pieces_subset: "set (trim_pieces ps) \<subseteq> set ps"
  by (auto simp: trim_pieces_def dest: set_dropWhileD split: list.splits)

lemma trim_pieces_ne: "ps \<noteq> [] \<Longrightarrow> trim_pieces ps \<noteq> []"
  by (simp add: trim_pieces_def split: list.splits)

lemma path_file_name_component:
  "path_file_name p = Some n \<Longrightarrow> CHR ''/'' \<notin> set n \<and> is_normal n"
proof -
  assume "path_file_name p = Some n"
  then have n: "is_normal n" "n = last (path_pieces p)" by (auto simp: path_file_name_def Let_def split: if_splits)
  have "n \<in> set (split_on (CHR ''/'') p)"
    unfolding n(2) path_pieces_def using trim_pieces_subset trim_pieces_ne [OF split_on_nonempty] last_in_set by blast
  then show ?thesis using split_on_no_sep n(1) by blast
qed

end
