(* ===== verification/Client_Target.thy ===== *)
theory Client_Target
  imports Pubkey Ipc Rust_Path
begin

text \<open>
  What the client makes of its command line and configuration, \<^verbatim>\<open>quish-client/src/main.rs\<close> and
  \<^verbatim>\<open>config.rs\<close>: targets, the merge with the configuration file, forward specifications and the
  Authorization header.  The TOML parser is an argument.
\<close>

subsection \<open>Data\<close>

record Target =
  tg_user :: string
  tg_host :: string
  tg_port :: u16
  tg_path :: string

record RawTarget =
  raw_user :: "string option"
  raw_host :: string
  raw_port :: "u16 option"
  raw_path :: "string option"

datatype spec_error =
    UnclosedBracket | TextAfterBracket | InvalidPort | MissingHost | BadShape | InvalidBind | NonLoopbackBind

subsection \<open>Targets\<close>

text \<open>\<^verbatim>\<open>host[:port]\<close>, \<^verbatim>\<open>[addr][:port]\<close> or a bare IPv6 address.\<close>

definition split_host_port :: "string \<Rightarrow> spec_error + string \<times> u16 option" where
  "split_host_port hostport = (case strip_prefix ''['' hostport of
       Some rest \<Rightarrow>
         rbind (ok_or UnclosedBracket (split_once (CHR '']'') rest)) (\<lambda>(addr, after).
           case strip_prefix '':'' after of
             Some p \<Rightarrow> rbind (ok_or InvalidPort (parse_u16 p)) (\<lambda>port. Inr (addr, Some port))
           | None \<Rightarrow> if after = [] then Inr (addr, None) else Inl TextAfterBracket)
     | None \<Rightarrow> (case rsplit_once (CHR '':'') hostport of
         Some (h, p) \<Rightarrow>
           if CHR '':'' \<in> set h then Inr (hostport, None)
           else rbind (ok_or InvalidPort (parse_u16 p)) (\<lambda>port. Inr (h, Some port))
       | None \<Rightarrow> Inr (hostport, None)))"

definition parse_target :: "string \<Rightarrow> spec_error + RawTarget" where
  "parse_target s =
     (case (case split_once (CHR ''@'') s of Some (u, r) \<Rightarrow> (Some u, r) | None \<Rightarrow> (None, s)) of (user, rest) \<Rightarrow>
      case (case split_once (CHR ''/'') rest of Some (hp, p) \<Rightarrow> (hp, Some (''/'' @ p)) | None \<Rightarrow> (rest, None)) of (hostport, path) \<Rightarrow>
        rbind (split_host_port hostport) (\<lambda>(host, port).
          if host = [] then Inl MissingHost
          else Inr \<lparr>raw_user = user, raw_host = host, raw_port = port, raw_path = path\<rparr>))"

definition socket_target :: "string \<Rightarrow> u16 \<Rightarrow> string" where
  "socket_target host port =
     (if CHR '':'' \<in> set host then ''['' @ host @ '']:'' @ show_nat (unat port)
      else host @ '':'' @ show_nat (unat port))"

subsection \<open>Configuration\<close>

record HostBlock =
  hb_host :: string
  hb_port :: "u16 option"
  hb_user :: "string option"
  hb_path :: "string option"
  hb_identity :: "string option"
  hb_local_forward :: "string list"
  hb_remote_forward :: "string list"

record ClientConfig =
  defaults_identity :: "string option"
  hosts :: "string \<Rightarrow> HostBlock option"

definition ClientConfig_default :: ClientConfig where
  "ClientConfig_default = \<lparr>defaults_identity = None, hosts = Map.empty\<rparr>"

datatype config_error = HomeNotSet | ReadFailed | ParseFailed

text \<open>\<open>read\<close>: \<^const>\<open>Inl\<close> tells whether the error is that the file is missing.\<close>

definition load_from :: "(string \<Rightarrow> ClientConfig option) \<Rightarrow> (string \<Rightarrow> bool + string) \<Rightarrow> string \<Rightarrow> config_error + ClientConfig" where
  "load_from toml read path = (case read path of
       Inr text \<Rightarrow> ok_or ParseFailed (toml text)
     | Inl True \<Rightarrow> Inr ClientConfig_default
     | Inl False \<Rightarrow> Inl ReadFailed)"

definition config_path :: "environ \<Rightarrow> config_error + string" where
  "config_path e = (case e ''QUISH_CONFIG'' of
       Some p \<Rightarrow> Inr p
     | None \<Rightarrow> rbind (ok_or HomeNotSet (e ''HOME'')) (\<lambda>home.
         Inr (path_join (path_join (path_join home ''.config'') ''quish'') ''config.toml'')))"

definition load :: "(string \<Rightarrow> ClientConfig option) \<Rightarrow> (string \<Rightarrow> bool + string) \<Rightarrow> environ \<Rightarrow> config_error + ClientConfig" where
  "load toml read e = rbind (config_path e) (load_from toml read)"

definition expand_tilde :: "environ \<Rightarrow> string \<Rightarrow> config_error + string" where
  "expand_tilde e p = (case strip_prefix ''~/'' p of
       Some rest \<Rightarrow> rbind (ok_or HomeNotSet (e ''HOME'')) (\<lambda>home. Inr (path_join home rest))
     | None \<Rightarrow> Inr p)"

definition whoami :: "environ \<Rightarrow> string" where
  "whoami e = (case e ''USER'' of Some u \<Rightarrow> u | None \<Rightarrow> ''root'')"

record Resolved =
  res_target :: Target
  res_identity :: "string option"
  res_local_forward :: "string list"
  res_remote_forward :: "string list"

definition resolve_target :: "environ \<Rightarrow> RawTarget \<Rightarrow> ClientConfig \<Rightarrow> Resolved" where
  "resolve_target e raw cfg =
     (let block = hosts cfg (raw_host raw) in
      \<lparr>res_target = \<lparr>
         tg_user = unwrap_or (or_else (raw_user raw) (Option.bind block hb_user)) (whoami e),
         tg_host = unwrap_or (map_option hb_host block) (raw_host raw),
         tg_port = unwrap_or (or_else (raw_port raw) (Option.bind block hb_port)) 4433,
         tg_path = unwrap_or (or_else (raw_path raw) (Option.bind block hb_path)) ''/quish''\<rparr>,
       res_identity = or_else (Option.bind block hb_identity) (defaults_identity cfg),
       res_local_forward = unwrap_or (map_option hb_local_forward block) [],
       res_remote_forward = unwrap_or (map_option hb_remote_forward block) []\<rparr>)"

text \<open>The identity file: the flag, then the configuration, with a tilde expanded.\<close>

definition choose_identity :: "environ \<Rightarrow> string option \<Rightarrow> string option \<Rightarrow> config_error + string option" where
  "choose_identity e flag configured = (case flag of
       Some p \<Rightarrow> Inr (Some p)
     | None \<Rightarrow> (case configured of
         None \<Rightarrow> Inr None
       | Some s \<Rightarrow> rbind (expand_tilde e s) (\<lambda>p. Inr (Some p))))"

subsection \<open>Forward specifications\<close>

record ForwardSpec =
  fw_bind :: IpAddr
  fw_lport :: u16
  fw_rhost :: string
  fw_rport :: u16

record RemoteForwardSpec =
  rf_bind :: IpAddr
  rf_rport :: u16
  rf_lhost :: string
  rf_lport :: u16

text \<open>The tokens between colons, with a bracketed address as one token.  Every turn of the loop
  consumes a colon or a bracket.\<close>

function split_forward_tokens :: "string \<Rightarrow> spec_error + string list" where
  "split_forward_tokens rest = (case strip_prefix ''['' rest of
       Some inner \<Rightarrow> (case split_once (CHR '']'') inner of
           None \<Rightarrow> Inl UnclosedBracket
         | Some (addr, after) \<Rightarrow> (case strip_prefix '':'' after of
               Some r \<Rightarrow> rbind (split_forward_tokens r) (\<lambda>ts. Inr (addr # ts))
             | None \<Rightarrow> if after = [] then Inr [addr] else Inl TextAfterBracket))
     | None \<Rightarrow> (case split_once (CHR '':'') rest of
           Some (tok, r) \<Rightarrow> rbind (split_forward_tokens r) (\<lambda>ts. Inr (tok # ts))
         | None \<Rightarrow> Inr [rest]))"
  by auto
termination
  by (relation "measure length") (auto simp: strip_prefix_eq_Some dest!: split_once_SomeD)

declare split_forward_tokens.simps [simp del]

definition LOCALHOST :: IpAddr where "LOCALHOST = V4 0x7F000001"

text \<open>The common part of the two parsers: bind address, port, host and port.\<close>

definition parse_forward_tokens :: "string list \<Rightarrow> spec_error + IpAddr \<times> u16 \<times> string \<times> u16" where
  "parse_forward_tokens tokens =
     rbind (case tokens of
         [p, h, q] \<Rightarrow> Inr (None, p, h, q)
       | [b, p, h, q] \<Rightarrow> Inr (Some b, p, h, q)
       | _ \<Rightarrow> Inl BadShape) (\<lambda>(bind_tok, p_tok, h_tok, q_tok).
     rbind (ok_or InvalidPort (parse_u16 p_tok)) (\<lambda>p.
     rbind (ok_or InvalidPort (parse_u16 q_tok)) (\<lambda>q.
       if h_tok = [] then Inl MissingHost
       else rbind (case bind_tok of Some b \<Rightarrow> ok_or InvalidBind (parse_ip_addr b) | None \<Rightarrow> Inr LOCALHOST) (\<lambda>bind.
         if \<not> is_loopback bind then Inl NonLoopbackBind else Inr (bind, p, h_tok, q)))))"

definition parse_forward :: "string \<Rightarrow> spec_error + ForwardSpec" where
  "parse_forward s = rbind (split_forward_tokens s) (\<lambda>tokens.
     rbind (parse_forward_tokens tokens) (\<lambda>(bind, lport, rhost, rport).
       Inr \<lparr>fw_bind = bind, fw_lport = lport, fw_rhost = rhost, fw_rport = rport\<rparr>))"

definition parse_remote_forward :: "string \<Rightarrow> spec_error + RemoteForwardSpec" where
  "parse_remote_forward s = rbind (split_forward_tokens s) (\<lambda>tokens.
     rbind (parse_forward_tokens tokens) (\<lambda>(bind, rport, lhost, lport).
       Inr \<lparr>rf_bind = bind, rf_rport = rport, rf_lhost = lhost, rf_lport = lport\<rparr>))"

subsection \<open>The Authorization header\<close>

datatype auth_error = IdentityUnreadable | TokenFailed build_error | NoPassword

text \<open>\<open>mint\<close> is \<^const>\<open>build_token\<close> with the codecs, the signer and the clock; \<open>prompt\<close> what the user
  types.\<close>

definition build_authorization ::
  "(byte list \<Rightarrow> string) \<Rightarrow> (byte list \<Rightarrow> string \<Rightarrow> byte list \<Rightarrow> (build_error + string) option) \<Rightarrow>
     environ \<Rightarrow> (string \<Rightarrow> byte list option) \<Rightarrow> string option \<Rightarrow> string \<Rightarrow> string option \<Rightarrow> byte list \<Rightarrow> (auth_error + string) option" where
  "build_authorization enc mint e read prompt user identity binding =
     (case e ''QUISH_OIDC_TOKEN'' of
        Some (c # cs) \<Rightarrow> Some (Inr (bearer_header (c # cs)))
      | _ \<Rightarrow> (case identity of
          Some path \<Rightarrow> (case read path of
              None \<Rightarrow> Some (Inl IdentityUnreadable)
            | Some key \<Rightarrow> map_option (\<lambda>r. case r of Inl err \<Rightarrow> Inl (TokenFailed err) | Inr t \<Rightarrow> Inr (bearer_header t))
                (mint key user binding))
        | None \<Rightarrow> (case or_else (e ''QUISH_PASSWORD'') prompt of
              None \<Rightarrow> Some (Inl NoPassword)
            | Some password \<Rightarrow> Some (Inr (basic_header enc user password)))))"

text \<open>The enrolment URI of \<^verbatim>\<open>quish totp generate\<close>.\<close>

definition otpauth_uri :: "string \<Rightarrow> string \<Rightarrow> string \<Rightarrow> string" where
  "otpauth_uri user host secret = ''otpauth://totp/quish:'' @ user @ ''@'' @ host @ ''?secret='' @ secret
     @ ''&issuer=quish&algorithm=SHA1&digits=6&period=30''"

subsection \<open>Key generation\<close>

text \<open>The files \<^verbatim>\<open>quish keygen\<close> writes: mode and contents by path.  An existing private key is an
  error; an existing public key is overwritten and keeps its mode.\<close>

type_synonym key_files = "string \<Rightarrow> (nat \<times> string) option"

datatype keygen_error = KeygenNoHome | KeygenFailed keypair_error | KeygenDirs | CreatingKey | WritingKey | CreatingPub | WritingPub

text \<open>What the file system makes of it: whether the directories above, if any, can be created and a path opened for
  writing, and after how many characters writing to a path fails, if it does.\<close>

record KeyIo =
  kg_dirs :: "string \<Rightarrow> bool"
  kg_opens :: "string \<Rightarrow> bool"
  kg_fails :: "string \<Rightarrow> nat option"

definition keygen_output :: "environ \<Rightarrow> string option \<Rightarrow> keygen_error + string" where
  "keygen_output e output = (case output of
       Some p \<Rightarrow> Inr p
     | None \<Rightarrow> rbind (ok_or KeygenNoHome (e ''HOME'')) (\<lambda>home. Inr (path_join home ''.config/quish/id_ed25519'')))"

definition keygen_comment :: "environ \<Rightarrow> string option \<Rightarrow> string" where
  "keygen_comment e comment =
     unwrap_or comment (whoami e @ ''@'' @ unwrap_or (e ''HOSTNAME'') ''quish'')"

definition run_keygen ::
  "KeyIo \<Rightarrow> 'sk SshKeyLib \<Rightarrow> environ \<Rightarrow> string option \<Rightarrow> string option \<Rightarrow> key_files \<Rightarrow>
     (keygen_error + string) \<times> key_files" where
  "run_keygen io lib e output comment fs = (case keygen_output e output of
       Inl err \<Rightarrow> (Inl err, fs)
     | Inr path \<Rightarrow> (case generate_keypair lib (keygen_comment e comment) of
         Inl err \<Rightarrow> (Inl (KeygenFailed err), fs)
       | Inr (pem, pub_line) \<Rightarrow>
           if \<not> kg_dirs io path then (Inl KeygenDirs, fs)
           else if fs path \<noteq> None \<or> \<not> kg_opens io path then (Inl CreatingKey, fs)
           else case kg_fails io path of
               Some n \<Rightarrow> (Inl WritingKey, fs(path \<mapsto> (0x180, take n pem)))
             | None \<Rightarrow>
                 (let fs = fs(path \<mapsto> (0x180, pem));
                      pub_path = path @ ''.pub'';
                      mode = (case fs pub_path of Some (m, _) \<Rightarrow> m | None \<Rightarrow> 0x1A4);
                      line = pub_line @ [CHR 0x0A]
                  in if \<not> kg_opens io pub_path then (Inl CreatingPub, fs)
                     else case kg_fails io pub_path of
                         Some n \<Rightarrow> (Inl WritingPub, fs(pub_path \<mapsto> (mode, take n line)))
                       | None \<Rightarrow> (Inr pub_line, fs(pub_path \<mapsto> (mode, line))))))"

subsection \<open>Lemmas\<close>

lemma parse_u16_show [str_simps]: "parse_u16 (show_nat (unat (p :: u16))) = Some p"
proof -
  have "unat p < 65536" using unsigned_less [of p, where ?'a = nat] by simp
  then show ?thesis by (simp add: parse_u16_def parse_unsigned_show_nat)
qed

lemma show_nat_no_char: "\<not> is_digit c \<Longrightarrow> c \<notin> set (show_nat n)"
  using show_nat_digits [of n] by (auto simp: list_all_iff)

lemma strip_prefix_Cons [simp]: "strip_prefix [c] (c # s) = Some s" "strip_prefix [c] [] = None"
  "c \<noteq> d \<Longrightarrow> strip_prefix [c] (d # s) = None"
  by (simp_all add: strip_prefix_def)

lemma split_host_port_socket_target:
  assumes "host \<noteq> []" "hd host \<noteq> CHR ''[''" "CHR '']'' \<notin> set host"
  shows "split_host_port (socket_target host port) = Inr (host, Some port)"
proof (cases "CHR '':'' \<in> set host")
  case True
  then show ?thesis
    using assms(3) split_once_append [of "CHR '']''" host "'':'' @ show_nat (unat port)"]
    by (simp add: split_host_port_def socket_target_def ok_or_def parse_u16_show)
next
  case False
  obtain c cs where h: "host = c # cs" using assms(1) by (cases host) auto
  have "CHR '':'' \<notin> set (show_nat (unat port))" by (rule show_nat_no_char) (simp add: is_digit_def)
  then show ?thesis
    using False assms(2) rsplit_once_append [of "CHR '':''" "show_nat (unat port)" host]
    by (simp add: split_host_port_def socket_target_def ok_or_def parse_u16_show h)
qed

lemma split_forward_tokens_bracket:
  assumes "CHR '']'' \<notin> set a"
  shows "split_forward_tokens (''['' @ a @ '']:'' @ rest) = rbind (split_forward_tokens rest) (\<lambda>ts. Inr (a # ts))"
    "split_forward_tokens (''['' @ a @ '']'') = Inr [a]"
  using split_once_append [OF assms, of "'':'' @ rest"] split_once_append [OF assms, of "[]"]
  by (simp_all add: split_forward_tokens.simps [of "CHR ''['' # _"])

lemma split_forward_tokens_plain:
  assumes "CHR '':'' \<notin> set a" "\<not> prefix ''['' a"
  shows "split_forward_tokens (a @ '':'' @ rest) = rbind (split_forward_tokens rest) (\<lambda>ts. Inr (a # ts))"
    "split_forward_tokens a = Inr [a]"
proof -
  have "strip_prefix ''['' (a @ '':'' @ rest) = None" "strip_prefix ''['' a = None"
    using assms by (cases a; simp add: strip_prefix_def)+
  then show "split_forward_tokens (a @ '':'' @ rest) = rbind (split_forward_tokens rest) (\<lambda>ts. Inr (a # ts))"
    "split_forward_tokens a = Inr [a]"
    using split_once_append [OF assms(1), of rest] assms(1)
    by (subst split_forward_tokens.simps, simp add: split_once_None [THEN iffD2])+
qed

lemma show_nat_plain: "CHR '':'' \<notin> set (show_nat n)" "\<not> prefix ''['' (show_nat n)"
proof -
  show "CHR '':'' \<notin> set (show_nat n)" by (rule show_nat_no_char) (simp add: is_digit_def)
  have "CHR ''['' \<notin> set (show_nat n)" by (rule show_nat_no_char) (simp add: is_digit_def)
  then show "\<not> prefix ''['' (show_nat n)" by (auto simp: prefix_def)
qed

lemma parse_forward_loopback: "parse_forward s = Inr f \<Longrightarrow> is_loopback (fw_bind f) \<and> fw_rhost f \<noteq> []"
proof -
  assume "parse_forward s = Inr f"
  then obtain ts b l r p where ts: "split_forward_tokens s = Inr ts" "parse_forward_tokens ts = Inr (b, l, r, p)"
    and f: "f = \<lparr>fw_bind = b, fw_lport = l, fw_rhost = r, fw_rport = p\<rparr>"
    by (cases "split_forward_tokens s"; cases "parse_forward_tokens (projr (split_forward_tokens s))")
      (auto simp: parse_forward_def)
  from ts(2) have "is_loopback b \<and> r \<noteq> []"
    by (auto simp: parse_forward_tokens_def split: list.splits if_splits option.splits)
  with f show ?thesis by simp
qed

subsection \<open>Properties\<close>

text \<open>The text of a target.\<close>

definition target_text :: "string option \<Rightarrow> string \<Rightarrow> u16 \<Rightarrow> string option \<Rightarrow> string" where
  "target_text user host port path =
     (case user of Some u \<Rightarrow> u @ ''@'' | None \<Rightarrow> []) @ socket_target host port
     @ (case path of Some p \<Rightarrow> ''/'' @ p | None \<Rightarrow> [])"

text \<open>C40: a target written as \<^verbatim>\<open>user@host:port/path\<close>, with the host bracketed when it has a colon
  and user and path left out or not, parses to exactly those parts.  The user has no at sign; without
  a user neither host nor path has one.\<close>

theorem target_roundtrip:
  assumes "host \<noteq> []" "hd host \<noteq> CHR ''[''" "CHR '']'' \<notin> set host" "CHR ''/'' \<notin> set host"
    and "case user of Some u \<Rightarrow> CHR ''@'' \<notin> set u | None \<Rightarrow> CHR ''@'' \<notin> set host \<union> set (unwrap_or path [])"
  shows "parse_target (target_text user host port path) =
    Inr \<lparr>raw_user = user, raw_host = host, raw_port = Some port, raw_path = map_option (\<lambda>p. ''/'' @ p) path\<rparr>"
proof -
  define rest where "rest = socket_target host port @ (case path of Some p \<Rightarrow> ''/'' @ p | None \<Rightarrow> [])"
  have digits: "CHR ''/'' \<notin> set (show_nat (unat port))" "CHR ''@'' \<notin> set (show_nat (unat port))"
    by (rule show_nat_no_char; simp add: is_digit_def)+
  have st: "CHR ''/'' \<notin> set (socket_target host port)"
    using assms(4) digits(1) by (simp add: socket_target_def)
  have u: "(case split_once (CHR ''@'') (target_text user host port path) of Some (u, r) \<Rightarrow> (Some u, r)
      | None \<Rightarrow> (None, target_text user host port path)) = (user, rest)"
  proof (cases user)
    case None
    then have "CHR ''@'' \<notin> set rest"
      using assms(5) digits(2) by (auto simp: rest_def socket_target_def unwrap_or_def split: option.splits)
    with None show ?thesis
      by (simp add: target_text_def rest_def split_once_None [THEN iffD2])
  next
    case (Some n)
    then have "split_once (CHR ''@'') (target_text user host port path) = Some (n, rest)"
      using assms(5) split_once_append [of "CHR ''@''" n rest] by (simp add: target_text_def rest_def)
    with Some show ?thesis by simp
  qed
  have p: "(case split_once (CHR ''/'') rest of Some (hp, p) \<Rightarrow> (hp, Some (''/'' @ p)) | None \<Rightarrow> (rest, None))
      = (socket_target host port, map_option (\<lambda>p. ''/'' @ p) path)"
    using st split_once_append [OF st] by (cases path) (simp_all add: rest_def split_once_None [THEN iffD2])
  show ?thesis
    unfolding parse_target_def u prod.case p
    using split_host_port_socket_target [OF assms(1,2,3), of port] assms(1) by (cases path) simp_all
qed

lemma target_roundtrip_witness:
  "parse_target ''al@[::1]:4433/q@x'' =
     Inr \<lparr>raw_user = Some ''al'', raw_host = ''::1'', raw_port = Some 4433, raw_path = Some ''/q@x''\<rparr>"
proof -
  have t: "target_text (Some ''al'') ''::1'' 4433 (Some ''q@x'') = ''al@[::1]:4433/q@x''" by code_simp
  show ?thesis using target_roundtrip [where host = "''::1''" and user = "Some ''al''" and path = "Some ''q@x''" and port = 4433]
    unfolding t by simp
qed

text \<open>A forward written with bracketed addresses, \<^verbatim>\<open>[bind]:port:[host]:port\<close>, or with the bind
  address left out, parses to exactly those parts, for \<^verbatim>\<open>-L\<close> and for \<^verbatim>\<open>-R\<close>, when the bind address is
  a loopback address, and is refused when it is any other or none at all.\<close>

lemma forward_spec_roundtrip:
  assumes "CHR '']'' \<notin> set b" "CHR '']'' \<notin> set h" "h \<noteq> []"
    and "tail = show_nat (unat p) @ '':['' @ h @ '']:'' @ show_nat (unat q)"
  shows "parse_forward (''['' @ b @ '']:'' @ tail) = (case parse_ip_addr b of
        None \<Rightarrow> Inl InvalidBind
      | Some ip \<Rightarrow> if is_loopback ip then Inr \<lparr>fw_bind = ip, fw_lport = p, fw_rhost = h, fw_rport = q\<rparr> else Inl NonLoopbackBind)
    \<and> parse_remote_forward (''['' @ b @ '']:'' @ tail) = (case parse_ip_addr b of
        None \<Rightarrow> Inl InvalidBind
      | Some ip \<Rightarrow> if is_loopback ip then Inr \<lparr>rf_bind = ip, rf_rport = p, rf_lhost = h, rf_lport = q\<rparr> else Inl NonLoopbackBind)
    \<and> parse_forward tail = Inr \<lparr>fw_bind = LOCALHOST, fw_lport = p, fw_rhost = h, fw_rport = q\<rparr>"
proof -
  have t: "split_forward_tokens tail = Inr [show_nat (unat p), h, show_nat (unat q)]"
    using split_forward_tokens_plain(1) [OF show_nat_plain [of "unat p"], of "''['' @ h @ '']:'' @ show_nat (unat q)"]
      split_forward_tokens_bracket(1) [OF assms(2), of "show_nat (unat q)"]
      split_forward_tokens_plain(2) [OF show_nat_plain [of "unat q"]]
    by (simp add: assms(4))
  then have bt: "split_forward_tokens (''['' @ b @ '']:'' @ tail) = Inr [b, show_nat (unat p), h, show_nat (unat q)]"
    using split_forward_tokens_bracket(1) [OF assms(1), of tail] by simp
  have "is_loopback LOCALHOST" by code_simp
  then show ?thesis
    using assms(3) unfolding parse_forward_def parse_remote_forward_def bt t
    by (simp add: parse_forward_tokens_def ok_or_def parse_u16_show split: option.split)
qed

text \<open>An at sign in the path is taken for the end of a user name when no user is given.\<close>

lemma at_sign_in_path_taken_for_user:
  "parse_target ''h/p@q'' = Inr \<lparr>raw_user = Some ''h/p'', raw_host = ''q'', raw_port = None, raw_path = None\<rparr>"
  by code_simp

end
