(* ===== verification/Ratelimit.thy ===== *)
theory Ratelimit
  imports Prelude "HOL-Library.Multiset"
begin

text \<open>
  The per-address limits, \<^verbatim>\<open>quish-server/src/ratelimit.rs\<close>: the cap on concurrent connections of
  one address and the exponential backoff before its authentication attempts.  The instant
  \<^verbatim>\<open>Instant::now()\<close> reads is an argument.
\<close>

subsection \<open>Definitions\<close>

definition ENTRY_TTL :: nanos where
  "ENTRY_TTL = secs 600"

record Entry =
  conns :: nat
  fails :: u32
  last_seen :: nanos

definition Entry_new :: "nanos \<Rightarrow> Entry" where
  "Entry_new now = \<lparr>conns = 0, fails = 0, last_seen = now\<rparr>"

record RateLimiter =
  inner :: "IpAddr \<Rightarrow> Entry option"
  max_conns_per_ip :: nat
  base_backoff :: nanos
  max_backoff :: nanos

definition RateLimiter_new :: "nat \<Rightarrow> nanos \<Rightarrow> nanos \<Rightarrow> RateLimiter" where
  "RateLimiter_new n b m = \<lparr>inner = Map.empty, max_conns_per_ip = n, base_backoff = b, max_backoff = m\<rparr>"

definition RateLimiter_default :: RateLimiter where
  "RateLimiter_default = RateLimiter_new 32 (millis 200) (secs 30)"

text \<open>\<^verbatim>\<open>HashMap::retain\<close>, and \<^verbatim>\<open>entry(ip).or_insert_with(Entry::new)\<close>.\<close>

definition retain :: "(Entry \<Rightarrow> bool) \<Rightarrow> (IpAddr \<Rightarrow> Entry option) \<Rightarrow> IpAddr \<Rightarrow> Entry option" where
  "retain P m ip = (case m ip of Some e \<Rightarrow> if P e then Some e else None | None \<Rightarrow> None)"

definition entry_or_new :: "nanos \<Rightarrow> (IpAddr \<Rightarrow> Entry option) \<Rightarrow> IpAddr \<Rightarrow> Entry" where
  "entry_or_new now m ip = (case m ip of Some e \<Rightarrow> e | None \<Rightarrow> Entry_new now)"

text \<open>Whether the connection is admitted, and the limiter after; an admission is the guard.\<close>

definition admit :: "nanos \<Rightarrow> IpAddr \<Rightarrow> RateLimiter \<Rightarrow> bool \<times> RateLimiter" where
  "admit now ip rl =
     (let m = retain (\<lambda>e. conns e > 0 \<or> now - last_seen e < ENTRY_TTL) (inner rl);
          e = entry_or_new now m ip
      in if conns e \<ge> max_conns_per_ip rl then (False, rl\<lparr>inner := m(ip \<mapsto> e)\<rparr>)
         else (True, rl\<lparr>inner := m(ip \<mapsto> e\<lparr>conns := conns e + 1, last_seen := now\<rparr>)\<rparr>))"

definition backoff :: "IpAddr \<Rightarrow> RateLimiter \<Rightarrow> nanos" where
  "backoff ip rl =
     (let f = (case inner rl ip of Some e \<Rightarrow> fails e | None \<Rightarrow> 0) in
      if f = 0 then 0
      else let shift = min (f - 1) 16 in
        min (dur_saturating_mul (base_backoff rl) (push_bit (unat shift) 1)) (max_backoff rl))"

definition record_failure :: "nanos \<Rightarrow> IpAddr \<Rightarrow> RateLimiter \<Rightarrow> RateLimiter" where
  "record_failure now ip rl =
     (let e = entry_or_new now (inner rl) ip in
      rl\<lparr>inner := (inner rl)(ip \<mapsto> e\<lparr>fails := sat_add32 (fails e) 1, last_seen := now\<rparr>)\<rparr>)"

definition record_success :: "nanos \<Rightarrow> IpAddr \<Rightarrow> RateLimiter \<Rightarrow> RateLimiter" where
  "record_success now ip rl = (case inner rl ip of
       Some e \<Rightarrow> rl\<lparr>inner := (inner rl)(ip \<mapsto> e\<lparr>fails := 0, last_seen := now\<rparr>)\<rparr>
     | None \<Rightarrow> rl)"

definition ConnGuard_drop :: "nanos \<Rightarrow> IpAddr \<Rightarrow> RateLimiter \<Rightarrow> RateLimiter" where
  "ConnGuard_drop now ip rl = (case inner rl ip of
       Some e \<Rightarrow> rl\<lparr>inner := (inner rl)(ip \<mapsto> e\<lparr>conns := conns e - 1, last_seen := now\<rparr>)\<rparr>
     | None \<Rightarrow> rl)"

subsection \<open>Runs of the limiter\<close>

text \<open>A state is the limiter with the guards alive; the limiter is only ever changed by these
  steps.\<close>

inductive rl_step :: "RateLimiter \<times> IpAddr multiset \<Rightarrow> RateLimiter \<times> IpAddr multiset \<Rightarrow> bool" where
  Admit: "admit now ip rl = (True, rl') \<Longrightarrow> rl_step (rl, gs) (rl', add_mset ip gs)"
| Refuse: "admit now ip rl = (False, rl') \<Longrightarrow> rl_step (rl, gs) (rl', gs)"
| Drop: "ip \<in># gs \<Longrightarrow> rl_step (rl, gs) (ConnGuard_drop now ip rl, gs - {#ip#})"
| Fail: "rl_step (rl, gs) (record_failure now ip rl, gs)"
| Success: "rl_step (rl, gs) (record_success now ip rl, gs)"

inductive_cases rl_stepE [elim]: "rl_step s s'"

inductive rl_reach :: "RateLimiter \<Rightarrow> RateLimiter \<times> IpAddr multiset \<Rightarrow> bool" for rl where
  Init: "rl_reach rl (rl, {#})"
| Step: "rl_reach rl s \<Longrightarrow> rl_step s s' \<Longrightarrow> rl_reach rl s'"

text \<open>The slots in use are the guards alive.\<close>

definition ip_conns :: "RateLimiter \<Rightarrow> IpAddr \<Rightarrow> nat" where
  "ip_conns rl ip = (case inner rl ip of Some e \<Rightarrow> conns e | None \<Rightarrow> 0)"

definition rl_inv :: "RateLimiter \<Rightarrow> RateLimiter \<times> IpAddr multiset \<Rightarrow> bool" where
  "rl_inv rl0 s \<longleftrightarrow> (case s of (rl, gs) \<Rightarrow>
     max_conns_per_ip rl = max_conns_per_ip rl0
     \<and> (\<forall>ip. ip_conns rl ip = count gs ip \<and> count gs ip \<le> max_conns_per_ip rl))"

subsection \<open>Lemmas\<close>

lemma admit_conns:
  "ip_conns (snd (admit now ip rl)) ip' =
     (if ip' = ip \<and> fst (admit now ip rl) then Suc (ip_conns rl ip) else ip_conns rl ip')"
  "max_conns_per_ip (snd (admit now ip rl)) = max_conns_per_ip rl"
  "fst (admit now ip rl) \<longleftrightarrow> ip_conns rl ip < max_conns_per_ip rl"
  by (auto simp: admit_def Let_def ip_conns_def retain_def entry_or_new_def Entry_new_def split: option.splits)

lemma ConnGuard_drop_conns [simp]:
  "ip_conns (ConnGuard_drop now ip rl) ip' = (if ip' = ip then ip_conns rl ip - 1 else ip_conns rl ip')"
  "max_conns_per_ip (ConnGuard_drop now ip rl) = max_conns_per_ip rl"
  by (auto simp: ConnGuard_drop_def ip_conns_def split: option.splits)

lemma record_conns [simp]:
  "ip_conns (record_failure now ip rl) = ip_conns rl"
  "ip_conns (record_success now ip rl) = ip_conns rl"
  "max_conns_per_ip (record_failure now ip rl) = max_conns_per_ip rl"
  "max_conns_per_ip (record_success now ip rl) = max_conns_per_ip rl"
  by (auto simp: record_failure_def record_success_def ip_conns_def entry_or_new_def Entry_new_def Let_def
      fun_eq_iff split: option.splits)

lemma rl_inv_step: "rl_inv rl0 s \<Longrightarrow> rl_step s s' \<Longrightarrow> rl_inv rl0 s'"
proof (elim rl_stepE, goal_cases)
  case (1 now ip rl rl' gs)
  then show ?case
    using admit_conns [of now ip rl] by (auto simp: rl_inv_def)
next
  case (2 now ip rl rl' gs)
  then show ?case
    using admit_conns [of now ip rl] by (auto simp: rl_inv_def)
next
  case (3 ip gs rl now)
  then show ?case by (auto simp: rl_inv_def) (meson le_trans diff_le_self)
qed (auto simp: rl_inv_def)

lemma rl_inv_reach:
  "rl_reach rl s \<Longrightarrow> inner rl = Map.empty \<Longrightarrow> rl_inv rl s"
proof (induction rule: rl_reach.induct)
  case Init
  then show ?case by (simp add: rl_inv_def ip_conns_def)
next
  case (Step s s')
  then show ?case by (intro rl_inv_step [OF Step.IH Step.hyps(2)])
qed

subsection \<open>Properties\<close>

text \<open>C27: however admissions, refusals, ended connections and authentication outcomes interleave,
  and however often stale entries are swept, one address never holds more than 32 connections, and
  the limiter's count is the number of connections alive.\<close>

theorem connection_cap:
  assumes "rl_reach RateLimiter_default (rl, guards)"
  shows "count guards ip \<le> 32 \<and> ip_conns rl ip = count guards ip"
  using rl_inv_reach [OF assms] by (auto simp: rl_inv_def RateLimiter_default_def RateLimiter_new_def)

lemma connection_cap_witness:
  "count {#V4 1#} (V4 1) \<le> (32 :: nat)
   \<and> ip_conns (snd (admit 0 (V4 1) RateLimiter_default)) (V4 1) = count {#V4 1#} (V4 1)"
proof (rule connection_cap)
  have "fst (admit 0 (V4 1) RateLimiter_default)"
    by (simp add: admit_conns) (simp add: ip_conns_def RateLimiter_default_def RateLimiter_new_def)
  then have "admit 0 (V4 1) RateLimiter_default = (True, snd (admit 0 (V4 1) RateLimiter_default))"
    by (metis prod.collapse)
  then show "rl_reach RateLimiter_default (snd (admit 0 (V4 1) RateLimiter_default), {#V4 1#})"
    by (intro rl_reach.Step [OF rl_reach.Init] rl_step.Admit)
qed

lemma unat_two_power_le16: "n \<le> 16 \<Longrightarrow> unat (2 ^ n :: u32) = 2 ^ n"
proof -
  assume n: "n \<le> 16"
  have "unat (word_of_nat (2 ^ n) :: u32) = 2 ^ n"
    using n by (simp add: unsigned_of_nat take_bit_nat_eq_self del: of_nat_power)
  then show ?thesis by simp
qed

text \<open>C28: with the built-in settings the wait before an attempt is exactly 200 milliseconds doubled
  once for every failure after the first, up to 30 seconds: the bound on the shift never shows.\<close>

theorem backoff_doubles:
  assumes "inner rl ip = Some e" "fails e \<noteq> 0" "base_backoff rl = millis 200" "max_backoff rl = secs 30"
  shows "backoff ip rl = min (millis 200 * 2 ^ (unat (fails e) - 1)) (secs 30)"
proof -
  define k where "k = unat (fails e) - 1"
  have f: "unat (fails e - 1) = k"
    using assms(2) by (simp add: k_def unat_minus_one)
  have sh: "unat (min (fails e - 1) 16) = min k 16"
    by (simp add: min_def word_le_nat_alt f)
  have "backoff ip rl = min (dur_saturating_mul (millis 200) (push_bit (min k 16) 1)) (secs 30)"
    using assms sh by (simp add: backoff_def Let_def)
  also have "\<dots> = min (min (millis 200 * 2 ^ min k 16) duration_max) (secs 30)"
    by (simp only: dur_saturating_mul_def push_bit_of_1 unat_two_power_le16 min.cobounded2)
  also have "\<dots> = min (millis 200 * 2 ^ min k 16) (secs 30)"
  proof -
    have "secs 30 \<le> duration_max" by (simp add: duration_max_def secs_def)
    then show ?thesis by (simp only: min.assoc min_absorb2)
  qed
  also have "\<dots> = min (millis 200 * 2 ^ k) (secs 30)"
  proof (cases "k \<le> 16")
    case False
    then have "(2 :: nat) ^ 16 \<le> 2 ^ k" by (intro power_increasing) simp_all
    then have m: "millis 200 * 2 ^ 16 \<le> millis 200 * 2 ^ k" by (rule mult_le_mono2)
    have s: "secs 30 \<le> millis 200 * 2 ^ 16" by (simp add: millis_def secs_def)
    have k: "min k 16 = 16" using False by simp
    show ?thesis
      unfolding k min_absorb2 [OF s] min_absorb2 [OF order_trans [OF s m]] by (rule refl)
  next
    case True
    then have "min k 16 = k" by (rule min_absorb1)
    then show ?thesis by (simp only:)
  qed
  finally show ?thesis by (simp add: k_def)
qed

lemma backoff_doubles_witness:
  "backoff (V4 1) (record_failure 0 (V4 1) RateLimiter_default) = min (millis 200 * 2 ^ (1 - 1)) (secs 30)"
  using backoff_doubles [of "record_failure 0 (V4 1) RateLimiter_default" "V4 1" "\<lparr>conns = 0, fails = 1, last_seen = 0\<rparr>"]
  by (simp add: record_failure_def RateLimiter_default_def RateLimiter_new_def entry_or_new_def Entry_new_def
      sat_add32_def)

end
