(* ===== verification/Transport.thy ===== *)
theory Transport
  imports Worker Ratelimit
begin

text \<open>
  The HTTP/3 front end, \<^verbatim>\<open>quish-server/src/transport.rs\<close>: the checks a request passes before
  authentication, the two authentication paths, what each outcome does, and the bookkeeping of
  failed attempts on a connection.  HTTP/3 and QUIC themselves are not modelled: a request is its
  method, its path and its headers.
\<close>

subsection \<open>Constants and requests\<close>

definition IDLE_TIMEOUT :: nanos where "IDLE_TIMEOUT = secs 120"
definition MAX_CHANNELS_PER_CONN :: nat where "MAX_CHANNELS_PER_CONN = 16"
definition FIRST_REQUEST_DEADLINE :: nanos where "FIRST_REQUEST_DEADLINE = secs 30"
definition AUTH_DEADLINE :: nanos where "AUTH_DEADLINE = secs 30"
definition DEFAULT_MAX_AUTH_FAILS :: u32 where "DEFAULT_MAX_AUTH_FAILS = 6"

text \<open>\<open>header\<close> gives the value of a header that is present and readable as text.\<close>

record HttpRequest =
  is_connect :: bool
  has_protocol :: bool
  uri_path :: string
  header :: "string \<Rightarrow> string option"

datatype http_reply = Status nat | Challenge401 string | ServeChannel

subsection \<open>The checks before authentication\<close>

text \<open>\<^const>\<open>None\<close>: go on to authenticate.\<close>

definition pre_auth :: "string \<Rightarrow> u32 \<Rightarrow> u32 \<Rightarrow> HttpRequest \<Rightarrow> http_reply option" where
  "pre_auth path conn_fails max_auth_fails req =
     (let is_quish = is_connect req \<and> has_protocol req \<and> uri_path req = path in
      if \<not> is_quish then Some (Status 404)
      else if \<not> version_supported (header req ''quish-version'') then Some (Status 426)
      else if conn_fails \<ge> max_auth_fails then Some (Status 401)
      else None)"

subsection \<open>The two authentication paths\<close>

text \<open>In one process: resume a parked challenge, ask the registry (which applies the floor), park a
  new challenge.  \<open>t\<close> is the instant the registry returned at.\<close>

definition dev_authenticate ::
  "(string option \<Rightarrow> Credentials option) \<Rightarrow> Registry \<Rightarrow> ChallengeStore \<Rightarrow> nanos \<Rightarrow> nanos \<Rightarrow> conn_id \<Rightarrow>
     string option \<Rightarrow> ChallengeAnswer option \<Rightarrow> ConnInfo \<Rightarrow> (AuthOutcome \<times> nanos \<times> ChallengeStore) poll" where
  "dev_authenticate parse reg chs started elapsed c authorization answer conn =
     (case (case answer of
              None \<Rightarrow> (conn, chs)
            | Some ans \<Rightarrow> (case cs_take started c (ans_token ans) chs of (parked, chs) \<Rightarrow>
                (conn\<lparr>challenge := map_option (\<lambda>s. ChallengeResponse_new s (responses ans)) parked\<rparr>, chs)))
      of (conn, chs) \<Rightarrow>
        poll_bind (authenticate parse reg started elapsed authorization conn) (\<lambda>(v, t). Ready (case v of
            Allow _ \<Rightarrow> (OAllow, t, chs)
          | ChallengeV state ps \<Rightarrow>
              (OChallenge \<lparr>chal_token = token state, prompts = ps\<rparr>, t, cs_insert t c state chs)
          | Deny \<Rightarrow> (ODeny, t, chs))))"

text \<open>With privilege separation: ask the monitor, then apply the floor here.  \<open>r\<close> is the result of
  the call, which took \<open>elapsed\<close>.\<close>

definition privsep_authenticate :: "nanos \<Rightarrow> nanos \<Rightarrow> nanos \<Rightarrow> call_result \<Rightarrow> AuthOutcome \<times> nanos" where
  "privsep_authenticate floor_delay started elapsed r =
     (let outcome = (case client_authenticate r of Inr o' \<Rightarrow> o' | Inl _ \<Rightarrow> ODeny) in
      (outcome, if outcome = OAllow then started + elapsed
                else max (started + elapsed) (started + floor_delay)))"

subsection \<open>One request\<close>

text \<open>\<^verbatim>\<open>timeout(AUTH_DEADLINE, ..).unwrap_or(Deny)\<close>: the outcome and how long it took.\<close>

definition with_deadline :: "(AuthOutcome \<times> nanos) poll \<Rightarrow> AuthOutcome \<times> nanos" where
  "with_deadline p = (case p of
       Ready (o', d) \<Rightarrow> if d \<le> AUTH_DEADLINE then (o', d) else (ODeny, AUTH_DEADLINE)
     | Pending \<Rightarrow> (ODeny, AUTH_DEADLINE))"

text \<open>What follows each outcome: the reply, the limiter and the connection's count of failures.\<close>

definition after_auth ::
  "(Challenge \<Rightarrow> string) \<Rightarrow> nanos \<Rightarrow> IpAddr \<Rightarrow> AuthOutcome \<Rightarrow> RateLimiter \<Rightarrow> u32 \<Rightarrow> http_reply \<times> RateLimiter \<times> u32" where
  "after_auth enc now ip outcome rl conn_fails = (case outcome of
       ODeny \<Rightarrow> (Status 401, record_failure now ip rl, conn_fails + 1)
     | OChallenge ch \<Rightarrow> (Challenge401 (enc ch), rl, conn_fails)
     | OAllow \<Rightarrow> (ServeChannel, record_success now ip rl, conn_fails))"

text \<open>The whole handler when nothing else happens on the connection meanwhile: reply, instant of the
  reply, limiter and failures.  \<open>auth\<close> is the backend's answer to the two header values read, with
  the time it took.  The reply can be sent.\<close>

definition handle_request ::
  "string \<Rightarrow> (Challenge \<Rightarrow> string) \<Rightarrow> (string \<Rightarrow> ChallengeAnswer option) \<Rightarrow>
     (string option \<Rightarrow> ChallengeAnswer option \<Rightarrow> (AuthOutcome \<times> nanos) poll) \<Rightarrow>
     nanos \<Rightarrow> IpAddr \<Rightarrow> u32 \<Rightarrow> HttpRequest \<Rightarrow> RateLimiter \<Rightarrow> u32 \<Rightarrow> http_reply \<times> nanos \<times> RateLimiter \<times> u32" where
  "handle_request path enc dec auth now ip max_auth_fails req rl conn_fails =
     (case pre_auth path conn_fails max_auth_fails req of
        Some r \<Rightarrow> (r, now, rl, conn_fails)
      | None \<Rightarrow>
          (let wait = backoff ip rl;
               authorization = header req ''authorization'';
               answer = Option.bind (header req ''quish-challenge-response'') dec
           in case with_deadline (auth authorization answer) of (outcome, took) \<Rightarrow>
              case after_auth enc (now + wait + took) ip outcome rl conn_fails of (r, rl, n) \<Rightarrow>
                (r, now + wait + took, rl, n)))"

subsection \<open>Many requests on one connection\<close>

text \<open>The requests of a connection run in tasks of their own: the count of failures is read when a
  request starts and raised when it is denied.  The requests in between are in flight; the QUIC
  transport keeps them to \<^const>\<open>MAX_CHANNELS_PER_CONN\<close>.  \<open>denied\<close> counts the attempts the
  backend turned down.\<close>

record ConnAuth =
  conn_fails :: u32
  in_flight :: nat
  denied :: nat

inductive conn_step :: "string \<Rightarrow> u32 \<Rightarrow> ConnAuth \<Rightarrow> ConnAuth \<Rightarrow> bool" for path max_fails where
  Begin: "pre_auth path (conn_fails s) max_fails req = None \<Longrightarrow> in_flight s < MAX_CHANNELS_PER_CONN \<Longrightarrow>
     conn_step path max_fails s (s\<lparr>in_flight := in_flight s + 1\<rparr>)"
| Finish: "in_flight s > 0 \<Longrightarrow> after_auth enc now ip outcome rl (conn_fails s) = (r, rl', n) \<Longrightarrow>
     conn_step path max_fails s
       (s\<lparr>in_flight := in_flight s - 1, conn_fails := n, denied := denied s + (if outcome = ODeny then 1 else 0)\<rparr>)"

inductive conn_reach :: "string \<Rightarrow> u32 \<Rightarrow> ConnAuth \<Rightarrow> bool" for path max_fails where
  Fresh: "conn_reach path max_fails \<lparr>conn_fails = 0, in_flight = 0, denied = 0\<rparr>"
| Step: "conn_reach path max_fails s \<Longrightarrow> conn_step path max_fails s s' \<Longrightarrow> conn_reach path max_fails s'"

text \<open>The loop over the requests of a connection: which are handed to a task, and how it ends.  An
  item is what \<^verbatim>\<open>accept\<close> gave and how long it took; only the first has a deadline.\<close>

datatype accepted = Resolver HttpRequest | Finished | NoError | H3Error

datatype conn_end = EndOk | EndErr | Waiting

fun accept_loop :: "bool \<Rightarrow> (accepted \<times> nanos) list \<Rightarrow> HttpRequest list \<times> conn_end" where
  "accept_loop first [] = ([], Waiting)"
| "accept_loop first ((a, d) # as) =
     (if first \<and> d > FIRST_REQUEST_DEADLINE then ([], EndOk)
      else case a of
          Resolver req \<Rightarrow> (case accept_loop False as of (reqs, e) \<Rightarrow> (req # reqs, e))
        | Finished \<Rightarrow> ([], EndOk)
        | NoError \<Rightarrow> ([], EndOk)
        | H3Error \<Rightarrow> ([], EndErr))"

subsection \<open>Accepting connections\<close>

text \<open>The endpoint loop: an address over its cap is refused, an admitted connection gets the next
  identifier and a task that holds its guard; when the task ends the connection is closed at the
  backend and the guard dropped.  \<open>live\<close> are the running tasks, \<open>closed\<close> the identifiers closed.\<close>

record Endpoint =
  limiter :: RateLimiter
  next_conn :: conn_id
  live :: "(conn_id \<times> IpAddr) list"
  closed :: "conn_id list"

definition Endpoint_init :: Endpoint where
  "Endpoint_init = \<lparr>limiter = RateLimiter_default, next_conn = 1, live = [], closed = []\<rparr>"

definition accept_incoming :: "nanos \<Rightarrow> IpAddr \<Rightarrow> Endpoint \<Rightarrow> Endpoint" where
  "accept_incoming now ip s = (case admit now ip (limiter s) of
       (False, rl) \<Rightarrow> s\<lparr>limiter := rl\<rparr>
     | (True, rl) \<Rightarrow> s\<lparr>limiter := rl, live := (next_conn s, ip) # live s, next_conn := next_conn s + 1\<rparr>)"

definition connection_ended :: "nanos \<Rightarrow> conn_id \<times> IpAddr \<Rightarrow> Endpoint \<Rightarrow> Endpoint" where
  "connection_ended now c s =
     s\<lparr>limiter := ConnGuard_drop now (snd c) (limiter s), live := remove1 c (live s), closed := fst c # closed s\<rparr>"

inductive endpoint_step :: "Endpoint \<Rightarrow> Endpoint \<Rightarrow> bool" where
  Accept: "endpoint_step s (accept_incoming now ip s)"
| Ended: "c \<in> set (live s) \<Longrightarrow> endpoint_step s (connection_ended now c s)"
| Answered: "c \<in> set (live s) \<Longrightarrow> after_auth enc now (snd c) outcome (limiter s) n = (r, rl, n') \<Longrightarrow>
     endpoint_step s (s\<lparr>limiter := rl\<rparr>)"

inductive endpoint_reach :: "Endpoint \<Rightarrow> bool" where
  Start: "endpoint_reach Endpoint_init"
| Step: "endpoint_reach s \<Longrightarrow> endpoint_step s s' \<Longrightarrow> endpoint_reach s'"

subsection \<open>Lemmas\<close>

lemma pre_auth_None_iff:
  "pre_auth path n m req = None \<longleftrightarrow> is_connect req \<and> has_protocol req \<and> uri_path req = path
     \<and> version_supported (header req ''quish-version'') \<and> n < m"
  by (auto simp: pre_auth_def Let_def not_le not_less)

lemma backoff_after_success: "backoff ip (record_success now ip rl) = 0"
  by (simp add: backoff_def record_success_def Let_def split: option.split)

text \<open>As long as the counter cannot wrap it counts the denials.\<close>

lemma conn_reach_inv:
  assumes "conn_reach path m s" "unat m + MAX_CHANNELS_PER_CONN \<le> 2 ^ 32"
  shows "unat (conn_fails s) = denied s \<and> (denied s + in_flight s = 0 \<or> denied s + in_flight s < unat m + MAX_CHANNELS_PER_CONN)"
  using assms
proof (induction rule: conn_reach.induct)
  case Fresh
  then show ?case by simp
next
  case (Step s s')
  note IH = Step.IH [OF Step.prems]
  from Step.hyps(2) show ?case
  proof (cases rule: conn_step.cases)
    case (Begin req)
    then have "denied s < unat m" using IH by (auto simp: pre_auth_None_iff word_less_nat_alt)
    then show ?thesis using Begin IH by simp
  next
    case (Finish enc now ip outcome rl r rl' n)
    have "denied s + 1 < 2 ^ 32" if "outcome = ODeny"
      using IH Finish(2) Step.prems by (auto simp: MAX_CHANNELS_PER_CONN_def)
    then have "unat n = denied s + (if outcome = ODeny then 1 else 0)"
      using Finish(3) IH by (auto simp: after_auth_def unat_word_ariths split: AuthOutcome.splits)
    then show ?thesis using Finish(1,2) IH by auto
  qed
qed

lemma after_auth_limiter:
  "after_auth enc now ip outcome rl n = (r, rl', n') \<Longrightarrow>
     ip_conns rl' = ip_conns rl \<and> max_conns_per_ip rl' = max_conns_per_ip rl"
  by (cases outcome) (auto simp: after_auth_def)

text \<open>Identifiers in use or used are below the next one, while the counter has not wrapped.\<close>

definition endpoint_inv :: "Endpoint \<Rightarrow> bool" where
  "endpoint_inv s \<longleftrightarrow> distinct (map fst (live s) @ closed s)
     \<and> (\<forall>c \<in> set (map fst (live s) @ closed s). 1 \<le> c \<and> c < next_conn s)
     \<and> unat (next_conn s) = length (live s) + length (closed s) + 1"

lemma remove1_conn_perm:
  assumes "c \<in> set xs"
  shows "mset (map fst (remove1 c xs)) = mset (map fst xs) - {#fst c#}"
  using assms by (simp add: mset_remove1 image_mset_Diff)

lemma endpoint_inv_step:
  assumes inv: "endpoint_inv s" and step: "endpoint_step s s'"
    and room: "length (live s') + length (closed s') + 1 < 2 ^ 64"
  shows "endpoint_inv s'"
  using step
proof (cases rule: endpoint_step.cases)
  case (Accept now ip)
  obtain ok rl where a: "admit now ip (limiter s) = (ok, rl)" by (cases "admit now ip (limiter s)")
  show ?thesis
  proof (cases ok)
    case True
    have n: "unat (next_conn s + 1) = unat (next_conn s) + 1"
      using room a True Accept inv by (auto simp: accept_incoming_def endpoint_inv_def unat_word_ariths)
    have lt: "c < next_conn s + 1" if "c < next_conn s" for c
      using that n by (simp add: word_less_nat_alt)
    have "1 \<le> next_conn s" "next_conn s < next_conn s + 1"
      using inv n by (simp_all add: word_less_nat_alt word_le_nat_alt endpoint_inv_def)
    then show ?thesis
      using inv a True Accept n lt by (auto simp: accept_incoming_def endpoint_inv_def)
  qed (use inv a Accept in \<open>simp add: accept_incoming_def endpoint_inv_def\<close>)
next
  case (Ended c now)
  have l: "live s' = remove1 c (live s)" and k: "closed s' = fst c # closed s"
    by (simp_all add: Ended(1) connection_ended_def)
  have "fst c \<in># mset (map fst (live s))" using Ended(2) by simp
  then have "add_mset (fst c) (mset (map fst (live s)) - {#fst c#}) = mset (map fst (live s))"
    by (rule insert_DiffM)
  then have m: "mset (map fst (live s') @ closed s') = mset (map fst (live s) @ closed s)"
    unfolding l k mset_append remove1_conn_perm [OF Ended(2)] mset.simps union_mset_add_mset_right
      union_mset_add_mset_left [symmetric] by (rule arg_cong)
  have "length (live s) > 0" using Ended(2) by auto
  then show ?thesis
    using inv mset_eq_imp_distinct_iff [OF m] mset_eq_setD [OF m] Ended
    by (simp add: endpoint_inv_def connection_ended_def length_remove1)
next
  case (Answered c enc now outcome n r rl n')
  then show ?thesis using inv by (simp add: endpoint_inv_def)
qed

lemma endpoint_reach_inv:
  "endpoint_reach s \<Longrightarrow> length (live s) + length (closed s) + 1 < 2 ^ 64 \<Longrightarrow> endpoint_inv s"
proof (induction rule: endpoint_reach.induct)
  case Start
  then show ?case by (simp add: Endpoint_init_def endpoint_inv_def)
next
  case (Step s s')
  have "length (live s) + length (closed s) \<le> length (live s') + length (closed s')"
    using Step.hyps(2)
    by (cases rule: endpoint_step.cases)
      (auto simp: accept_incoming_def connection_ended_def length_remove1 split: prod.splits bool.splits)
  then show ?case using endpoint_inv_step [OF Step.IH Step.hyps(2)] Step.prems by simp
qed

text \<open>The slots an address holds in the limiter are its live connections.\<close>

definition ip_live :: "Endpoint \<Rightarrow> IpAddr \<Rightarrow> nat" where
  "ip_live s ip = count (mset (map snd (live s))) ip"

lemma endpoint_limiter_step:
  assumes inv: "\<forall>ip. ip_conns (limiter s) ip = ip_live s ip \<and> ip_live s ip \<le> max_conns_per_ip (limiter s)"
    and step: "endpoint_step s s'"
  shows "(\<forall>ip. ip_conns (limiter s') ip = ip_live s' ip \<and> ip_live s' ip \<le> max_conns_per_ip (limiter s'))
    \<and> max_conns_per_ip (limiter s') = max_conns_per_ip (limiter s)"
  using step
proof (cases rule: endpoint_step.cases)
  case (Accept now ip)
  then show ?thesis
    using inv admit_conns [of now ip "limiter s"]
    by (auto simp: accept_incoming_def ip_live_def split: prod.splits bool.splits)
next
  case (Ended c now)
  have "mset (map snd (live s')) = mset (map snd (live s)) - {#snd c#}"
    using Ended by (simp add: connection_ended_def mset_remove1 image_mset_Diff)
  then show ?thesis
    using inv Ended by (auto simp: connection_ended_def ip_live_def le_diff_conv trans_le_add1)
next
  case (Answered c enc now outcome n r rl n')
  then show ?thesis using inv after_auth_limiter [OF Answered(3)] by (simp add: ip_live_def)
qed

lemma endpoint_limiter:
  assumes "endpoint_reach s"
  shows "ip_conns (limiter s) ip = ip_live s ip" "ip_live s ip \<le> 32"
proof -
  from assms have "(\<forall>ip. ip_conns (limiter s) ip = ip_live s ip \<and> ip_live s ip \<le> max_conns_per_ip (limiter s))
     \<and> max_conns_per_ip (limiter s) = 32"
  proof (induction rule: endpoint_reach.induct)
    case Start
    then show ?case
      by (simp add: Endpoint_init_def ip_live_def ip_conns_def RateLimiter_default_def RateLimiter_new_def)
  next
    case (Step s s')
    show ?case using endpoint_limiter_step [OF conjunct1 [OF Step.IH] Step.hyps(2)] conjunct2 [OF Step.IH] by metis
  qed
  then show "ip_conns (limiter s) ip = ip_live s ip" "ip_live s ip \<le> 32" by metis+
qed

subsection \<open>Properties\<close>

text \<open>C17: the same verdict reaches the client at the same instant whether the server authenticates in
  its own process or through the monitor, the registry and the parked challenges being the same: the
  two paths have the same outcome, and neither answers when the other hangs.  The peer's address
  survives being printed and parsed on the way to the monitor.\<close>

theorem dev_and_privsep_agree:
  assumes reg: "mon_verdict e = verdict parse reg" and now: "mon_now e = started"
    and conn: "challenge conn = None"
    and peer: "parse_socket_addr (show_socket_addr (peer_addr conn)) = Some (peer_addr conn)"
  shows "poll_bind (dev_authenticate parse reg (challenges st) started elapsed c auth ans conn) (\<lambda>(out, t, _). Ready (out, t))
       = poll_bind (handle e st (auth_request c auth ans conn))
           (\<lambda>(_, resp, fds, _). Ready (privsep_authenticate (fail_delay reg) started elapsed (Inr (resp, fds))))"
proof -
  define conn' where "conn' = fst (auth_conn_info e st c (show_socket_addr (peer_addr conn)) (channel_binding conn) ans)"
  obtain st1 where ci: "auth_conn_info e st c (show_socket_addr (peer_addr conn)) (channel_binding conn) ans = (conn', st1)"
    unfolding conn'_def by (metis prod.collapse)
  have same: "(case ans of None \<Rightarrow> (conn, challenges st)
      | Some a \<Rightarrow> (case cs_take started c (ans_token a) (challenges st) of (parked, chs) \<Rightarrow>
          (conn\<lparr>challenge := map_option (\<lambda>s. ChallengeResponse_new s (responses a)) parked\<rparr>, chs)))
      = (conn', challenges st1)"
    using ci conn now peer by (cases conn) (auto simp: auth_conn_info_def Let_def split: option.splits prod.splits)
  show ?thesis
    unfolding dev_authenticate_def same auth_request_def
    by (cases "verdict parse reg auth conn'")
      (auto simp: handle_authenticate_def ci reg authenticate_def privsep_authenticate_def client_authenticate_def
        Let_def split: Verdict.splits)
qed

definition demo_registry :: Registry where
  "demo_registry = \<lparr>backends = [DevInsecureBackend ''al''], fail_delay = secs 2, policy = \<lparr>allow_users = [], deny_users = []\<rparr>\<rparr>"

definition demo_conn :: ConnInfo where
  "demo_conn = \<lparr>peer_addr = (V4 0x7F000001, 443), channel_binding = [], challenge = None\<rparr>"

lemma dev_and_privsep_agree_witness:
  "poll_bind (handle (demo_env\<lparr>mon_verdict := verdict (\<lambda>_. Some (Password ''bo'' ''pw'')) demo_registry\<rparr>) State_default
      (auth_request 1 None None demo_conn))
     (\<lambda>(_, resp, fds, _). Ready (privsep_authenticate (fail_delay demo_registry) 0 5 (Inr (resp, fds))))
   = Ready (ODeny, secs 2)"
proof -
  let ?e = "demo_env\<lparr>mon_verdict := verdict (\<lambda>_. Some (Password ''bo'' ''pw'')) demo_registry\<rparr>"
  have "parse_socket_addr (show_socket_addr (peer_addr demo_conn)) = Some (peer_addr demo_conn)" by code_simp
  then have "poll_bind (dev_authenticate (\<lambda>_. Some (Password ''bo'' ''pw'')) demo_registry (challenges State_default) 0 5 1
       None None demo_conn) (\<lambda>(out, t, _). Ready (out, t))
     = poll_bind (handle ?e State_default (auth_request 1 None None demo_conn))
        (\<lambda>(_, resp, fds, _). Ready (privsep_authenticate (fail_delay demo_registry) 0 5 (Inr (resp, fds))))"
    by (intro dev_and_privsep_agree) (simp_all add: demo_env_def demo_conn_def)
  moreover have "poll_bind (dev_authenticate (\<lambda>_. Some (Password ''bo'' ''pw'')) demo_registry (challenges State_default) 0 5 1
       None None demo_conn) (\<lambda>(out, t, _). Ready (out, t)) = Ready (ODeny, secs 2)"
    by (simp add: dev_authenticate_def authenticate_def verdict_def demo_registry_def DevInsecureBackend_def secs_def)
  ultimately show ?thesis by simp
qed

text \<open>C34: however the requests of a connection interleave, the backend turns down fewer than
  \<open>max_auth_fails\<close> plus 16 attempts on it: 15 more than the configured cap, because the count is
  read before an attempt and raised after it.\<close>

theorem failed_attempts_bounded:
  assumes "conn_reach path m s" "0 < m" "unat m + MAX_CHANNELS_PER_CONN \<le> 2 ^ 32"
  shows "unat (conn_fails s) = denied s \<and> denied s < unat m + MAX_CHANNELS_PER_CONN"
  using conn_reach_inv [OF assms(1,3)] assms(2) by (auto simp: MAX_CHANNELS_PER_CONN_def)

definition demo_request :: HttpRequest where
  "demo_request = \<lparr>is_connect = True, has_protocol = True, uri_path = ''/q'',
     header = [''quish-version'' \<mapsto> ''2'', ''authorization'' \<mapsto> ''Basic YQ=='']\<rparr>"

lemma demo_request_admitted: "n < m \<Longrightarrow> pre_auth ''/q'' n m demo_request = None"
proof -
  have "version_supported (header demo_request ''quish-version'')" by code_simp
  then show "n < m \<Longrightarrow> ?thesis" by (simp add: pre_auth_None_iff demo_request_def)
qed

lemma demo_conn_reach:
  "conn_reach ''/q'' DEFAULT_MAX_AUTH_FAILS \<lparr>conn_fails = 1, in_flight = 0, denied = 1\<rparr>"
proof -
  have "conn_step ''/q'' DEFAULT_MAX_AUTH_FAILS \<lparr>conn_fails = 0, in_flight = 0, denied = 0\<rparr>
      \<lparr>conn_fails = 0, in_flight = 1, denied = 0\<rparr>"
    using conn_step.Begin [of "''/q''" "\<lparr>conn_fails = 0, in_flight = 0, denied = 0\<rparr>" DEFAULT_MAX_AUTH_FAILS demo_request]
    by (simp add: demo_request_admitted DEFAULT_MAX_AUTH_FAILS_def MAX_CHANNELS_PER_CONN_def)
  then have r: "conn_reach ''/q'' DEFAULT_MAX_AUTH_FAILS \<lparr>conn_fails = 0, in_flight = 1, denied = 0\<rparr>"
    using conn_reach.Step [OF conn_reach.Fresh] by simp
  have "conn_step ''/q'' DEFAULT_MAX_AUTH_FAILS \<lparr>conn_fails = 0, in_flight = 1, denied = 0\<rparr>
      \<lparr>conn_fails = 1, in_flight = 0, denied = 1\<rparr>"
    using conn_step.Finish [of "\<lparr>conn_fails = 0, in_flight = 1, denied = 0\<rparr>" "\<lambda>_. []" 0 "V4 1" ODeny RateLimiter_default
        "Status 401" "record_failure 0 (V4 1) RateLimiter_default" 1 "''/q''" DEFAULT_MAX_AUTH_FAILS]
    by (simp add: after_auth_def)
  with r show ?thesis by (rule conn_reach.Step)
qed

lemma failed_attempts_bounded_witness:
  "unat (conn_fails \<lparr>conn_fails = 1, in_flight = 0, denied = 1\<rparr>) = denied \<lparr>conn_fails = 1, in_flight = 0, denied = 1\<rparr>
   \<and> denied \<lparr>conn_fails = 1, in_flight = 0, denied = 1\<rparr> < unat DEFAULT_MAX_AUTH_FAILS + MAX_CHANNELS_PER_CONN"
  by (rule failed_attempts_bounded [OF demo_conn_reach])
    (simp_all add: DEFAULT_MAX_AUTH_FAILS_def MAX_CHANNELS_PER_CONN_def)

text \<open>Two connections never carry the same identifier, not even one after the other, until the
  64-bit counter wraps, and an address has at most 32 connections at a time, as many as the limiter
  counts for it.\<close>

lemma connection_ids_never_reused:
  assumes "endpoint_reach s" "length (live s) + length (closed s) + 1 < 2 ^ 64"
  shows "distinct (map fst (live s) @ closed s) \<and> next_conn s \<notin> set (map fst (live s) @ closed s)
    \<and> ip_live s ip = ip_conns (limiter s) ip \<and> ip_live s ip \<le> 32"
  using endpoint_reach_inv [OF assms] endpoint_limiter [OF assms(1), of ip] unfolding endpoint_inv_def
  by (metis order_less_irrefl)

text \<open>C35: a channel is served only for an extended CONNECT to the secret path with a supported
  version, on a connection with failures to spare, that the backend allowed within its deadline; the
  address's failures are forgotten then.  Any other path answers 404 at once, whatever the
  credentials, and touches no state.\<close>

theorem channel_served_only_when_allowed:
  assumes "handle_request path enc dec auth now ip m req rl n = (r, t, rl', n')"
  shows "(r = ServeChannel \<longleftrightarrow>
      is_connect req \<and> has_protocol req \<and> uri_path req = path
      \<and> version_supported (header req ''quish-version'') \<and> n < m
      \<and> (\<exists>d \<le> AUTH_DEADLINE. auth (header req ''authorization'')
           (Option.bind (header req ''quish-challenge-response'') dec) = Ready (OAllow, d)))
    \<and> (r = ServeChannel \<longrightarrow> backoff ip rl' = 0)
    \<and> (uri_path req \<noteq> path \<longrightarrow> (r, t, rl', n') = (Status 404, now, rl, n))"
proof (cases "pre_auth path n m req")
  case None
  define a where "a = auth (header req ''authorization'') (Option.bind (header req ''quish-challenge-response'') dec)"
  obtain outcome took where w: "with_deadline a = (outcome, took)" by (cases "with_deadline a")
  have r: "(r, rl', n') = after_auth enc (now + backoff ip rl + took) ip outcome rl n"
    using assms None w unfolding a_def
    by (simp add: handle_request_def Let_def split: prod.splits)
  have "outcome = OAllow \<longleftrightarrow> (\<exists>d \<le> AUTH_DEADLINE. a = Ready (OAllow, d))"
    using w by (cases a) (auto simp: with_deadline_def split: if_splits)
  moreover have "r = ServeChannel \<longleftrightarrow> outcome = OAllow" "outcome = OAllow \<Longrightarrow> rl' = record_success (now + backoff ip rl + took) ip rl"
    using r by (cases outcome; simp add: after_auth_def)+
  ultimately show ?thesis
    using None unfolding a_def by (simp add: pre_auth_None_iff backoff_after_success)
next
  case (Some x)
  then have "x \<noteq> ServeChannel" by (auto simp: pre_auth_def Let_def split: if_splits)
  with Some assms show ?thesis
    using pre_auth_None_iff [of path n m req] by (auto simp: handle_request_def pre_auth_def Let_def)
qed

lemma channel_served_only_when_allowed_witness:
  "case handle_request ''/q'' (\<lambda>_. []) (\<lambda>_. None) (\<lambda>a _. if a = Some ''Basic YQ=='' then Ready (OAllow, 9) else Pending)
      5 (V4 1) DEFAULT_MAX_AUTH_FAILS demo_request (record_failure 0 (V4 1) RateLimiter_default) 2
   of (r, t, rl, n) \<Rightarrow> r = ServeChannel \<and> n = 2 \<and> backoff (V4 1) rl = 0"
proof -
  let ?auth = "\<lambda>a _. if a = Some ''Basic YQ=='' then Ready (OAllow, 9) else Pending"
  obtain r t rl n where h: "handle_request ''/q'' (\<lambda>_. []) (\<lambda>_. None) ?auth 5 (V4 1) DEFAULT_MAX_AUTH_FAILS demo_request
      (record_failure 0 (V4 1) RateLimiter_default) 2 = (r, t, rl, n)" by (metis prod_cases4)
  have "pre_auth ''/q'' 2 DEFAULT_MAX_AUTH_FAILS demo_request = None"
    by (rule demo_request_admitted) (simp add: DEFAULT_MAX_AUTH_FAILS_def)
  moreover have "header demo_request ''authorization'' = Some ''Basic YQ==''" by code_simp
  ultimately have "r = ServeChannel"
    using channel_served_only_when_allowed [OF h] by (simp add: pre_auth_None_iff AUTH_DEADLINE_def secs_def)
  moreover from this have "n = 2" using h
    by (auto simp: handle_request_def Let_def after_auth_def split: option.splits prod.splits AuthOutcome.splits)
  ultimately show ?thesis using h channel_served_only_when_allowed [OF h] by simp
qed

text \<open>Over the limit of failures a connection is turned down at once, without backoff or floor.\<close>

lemma capped_connection_answered_at_once:
  assumes "pre_auth path n m req = Some (Status 401)"
  shows "handle_request path enc dec auth now ip m req rl n = (Status 401, now, rl, n)"
  using assms by (simp add: handle_request_def)

end
