(* ===== verification/Client_Channel.thy ===== *)
theory Client_Channel
  imports Client_Target Transport
begin

text \<open>
  Opening a channel on the client, \<^verbatim>\<open>open_channel\<close> and its helpers in
  \<^verbatim>\<open>quish-client/src/main.rs\<close>: the CONNECT request, the challenge rounds and the meaning of each
  status.  The rest of the world, the server and the user at the terminal, is a state \<open>'w\<close> that
  answers requests and prompts.

  The URI parser of the \<^verbatim>\<open>http\<close> crate and its check of header values are arguments; a request that
  cannot be built is a panic.
\<close>

subsection \<open>Requests\<close>

record HttpLib =
  uri_path_of :: "string \<Rightarrow> string option"
  header_value_ok :: "string \<Rightarrow> bool"

definition build_connect_request_with :: "HttpLib \<Rightarrow> Target \<Rightarrow> string \<Rightarrow> string option \<Rightarrow> HttpRequest option" where
  "build_connect_request_with http target authorization answer =
     (case uri_path_of http (''https://'' @ socket_target (tg_host target) (tg_port target) @ tg_path target) of
        None \<Rightarrow> None
      | Some path \<Rightarrow>
          if \<not> header_value_ok http authorization \<or> (case answer of Some a \<Rightarrow> \<not> header_value_ok http a | None \<Rightarrow> False) then None
          else Some \<lparr>is_connect = True, has_protocol = True, uri_path = path,
            header = (\<lambda>name. if name = ''quish-version'' then Some (show_nat (unat PROTOCOL_VERSION))
              else if name = ''authorization'' then Some authorization
              else if name = ''quish-challenge-response'' then answer else None)\<rparr>)"

definition build_connect_request :: "HttpLib \<Rightarrow> Target \<Rightarrow> string \<Rightarrow> HttpRequest option" where
  "build_connect_request http target authorization = build_connect_request_with http target authorization None"

subsection \<open>Challenge rounds\<close>

definition MAX_CHALLENGE_ROUNDS :: nat where
  "MAX_CHALLENGE_ROUNDS = 3"

text \<open>One response per prompt, in order; a failure to read one ends the round.\<close>

fun read_all :: "('w \<Rightarrow> Prompt \<Rightarrow> string option \<times> 'w) \<Rightarrow> Prompt list \<Rightarrow> 'w \<Rightarrow> string list option \<times> 'w" where
  "read_all read [] w = (Some [], w)"
| "read_all read (p # ps) w = (case read w p of
       (None, w) \<Rightarrow> (None, w)
     | (Some r, w) \<Rightarrow> (case read_all read ps w of
         (None, w) \<Rightarrow> (None, w)
       | (Some rs, w) \<Rightarrow> (Some (r # rs), w)))"

definition build_challenge_answer ::
  "('w \<Rightarrow> Prompt \<Rightarrow> string option \<times> 'w) \<Rightarrow> Challenge \<Rightarrow> 'w \<Rightarrow> ChallengeAnswer option \<times> 'w" where
  "build_challenge_answer read ch w = (case read_all read (prompts ch) w of (rs, w) \<Rightarrow>
     (map_option (\<lambda>rs. \<lparr>ans_token = chal_token ch, responses = rs\<rparr>) rs, w))"

text \<open>\<open>typed\<close>: the line read from standard input or the password prompt.\<close>

definition trim_end_newlines :: "string \<Rightarrow> string" where
  "trim_end_newlines s = rev (dropWhile (\<lambda>c. c = CHR 0x0D \<or> c = CHR 0x0A) (rev s))"

definition read_prompt :: "environ \<Rightarrow> string option \<Rightarrow> string option \<Rightarrow> Prompt \<Rightarrow> string option" where
  "read_prompt e stdin_line password_line prompt = (case e ''QUISH_TOTP'' of
       Some v \<Rightarrow> Some v
     | None \<Rightarrow> if echo prompt then map_option trim_end_newlines stdin_line else password_line)"

subsection \<open>Opening a channel\<close>

record HttpResponse =
  status :: nat
  challenge_header :: "string option"

datatype open_error = Panicked | TransportError | PromptFailed | AuthenticationFailed | VersionRejected | HttpStatus nat

record 'w Server =
  respond :: "'w \<Rightarrow> HttpRequest \<Rightarrow> HttpResponse option \<times> 'w"
  read_answer :: "'w \<Rightarrow> Prompt \<Rightarrow> string option \<times> 'w"

text \<open>\<open>dec\<close> decodes a challenge, \<open>enc\<close> encodes an answer (\<^const>\<open>None\<close> is a panic); \<open>rounds\<close> counts the
  follow-up rounds left.\<close>

fun open_rounds ::
  "HttpLib \<Rightarrow> (string \<Rightarrow> Challenge option) \<Rightarrow> (ChallengeAnswer \<Rightarrow> string option) \<Rightarrow> 'w Server \<Rightarrow> Target \<Rightarrow> string \<Rightarrow>
     nat \<Rightarrow> string option \<Rightarrow> 'w \<Rightarrow> (open_error + unit) \<times> 'w" where
  "open_rounds http dec enc srv target authorization rounds answer w =
     (case build_connect_request_with http target authorization answer of
        None \<Rightarrow> (Inl Panicked, w)
      | Some req \<Rightarrow> (case respond srv w req of
          (None, w) \<Rightarrow> (Inl TransportError, w)
        | (Some resp, w) \<Rightarrow>
            if status resp = 200 then (Inr (), w)
            else if status resp = 401 then
              (case (Option.bind (challenge_header resp) dec, rounds) of
                 (Some ch, Suc left) \<Rightarrow> (case build_challenge_answer (read_answer srv) ch w of
                     (None, w) \<Rightarrow> (Inl PromptFailed, w)
                   | (Some a, w) \<Rightarrow> (case enc a of
                       None \<Rightarrow> (Inl Panicked, w)
                     | Some v \<Rightarrow> open_rounds http dec enc srv target authorization left (Some v) w))
               | _ \<Rightarrow> (Inl AuthenticationFailed, w))
            else if status resp = 426 then (Inl VersionRejected, w)
            else (Inl (HttpStatus (status resp)), w)))"

declare open_rounds.simps [simp del]

definition open_channel ::
  "HttpLib \<Rightarrow> (string \<Rightarrow> Challenge option) \<Rightarrow> (ChallengeAnswer \<Rightarrow> string option) \<Rightarrow> 'w Server \<Rightarrow> Target \<Rightarrow> string \<Rightarrow>
     'w \<Rightarrow> (open_error + unit) \<times> 'w" where
  "open_channel http dec enc srv target authorization =
     open_rounds http dec enc srv target authorization MAX_CHALLENGE_ROUNDS None"

text \<open>The channels of forwards are opened without challenge rounds.\<close>

definition open_forward_channel :: "HttpLib \<Rightarrow> 'w Server \<Rightarrow> Target \<Rightarrow> string \<Rightarrow> 'w \<Rightarrow> (open_error + unit) \<times> 'w" where
  "open_forward_channel http srv target authorization w =
     (case build_connect_request http target authorization of
        None \<Rightarrow> (Inl Panicked, w)
      | Some req \<Rightarrow> (case respond srv w req of
          (None, w) \<Rightarrow> (Inl TransportError, w)
        | (Some resp, w) \<Rightarrow> if status resp = 200 then (Inr (), w) else (Inl (HttpStatus (status resp)), w)))"

subsection \<open>Properties\<close>

text \<open>A world that also counts the requests it is sent.\<close>

definition counting :: "'w Server \<Rightarrow> ('w \<times> nat) Server" where
  "counting srv =
     \<lparr>respond = (\<lambda>(w, n) req. case respond srv w req of (r, w) \<Rightarrow> (r, w, Suc n)),
      read_answer = (\<lambda>(w, n) p. case read_answer srv w p of (r, w) \<Rightarrow> (r, w, n))\<rparr>"

lemma read_all_counting:
  "read_all (read_answer (counting srv)) ps (w, n) = (case read_all (read_answer srv) ps w of (rs, w) \<Rightarrow> (rs, w, n))"
  by (induction ps arbitrary: w) (auto simp: counting_def split: prod.splits option.splits)

lemma build_challenge_answer_counting:
  "build_challenge_answer (read_answer (counting srv)) ch (w, n)
     = (case build_challenge_answer (read_answer srv) ch w of (a, w) \<Rightarrow> (a, w, n))"
  by (simp add: build_challenge_answer_def read_all_counting split: prod.split)

lemma respond_counting:
  "respond (counting srv) (w, n) req = (case respond srv w req of (r, w) \<Rightarrow> (r, w, Suc n))"
  by (simp add: counting_def)

lemma open_rounds_counting:
  "\<exists>k \<le> Suc rounds. open_rounds http dec enc (counting srv) target authorization rounds answer (w, n)
     = (case open_rounds http dec enc srv target authorization rounds answer w of (r, w) \<Rightarrow> (r, w, n + k))"
proof (induction rounds arbitrary: answer w n)
  case 0
  show ?case
    by (subst (1 2) open_rounds.simps)
      (auto simp: respond_counting split: option.split prod.split intro: exI [of _ 0] exI [of _ 1])
next
  case (Suc rounds)
  note step = open_rounds.simps [of http dec enc _ target authorization "Suc rounds" answer]
  show ?case
  proof (cases "build_connect_request_with http target authorization answer")
    case None
    then show ?thesis by (intro exI [of _ 0]) (simp add: step)
  next
    case req: (Some req)
    obtain r w1 where r: "respond srv w req = (r, w1)" by (cases "respond srv w req")
    show ?thesis
    proof (cases "\<exists>resp ch. r = Some resp \<and> status resp = 401 \<and> Option.bind (challenge_header resp) dec = Some ch")
      case False
      then show ?thesis
        by (intro exI [of _ 1]) (auto simp: step req r respond_counting split: option.split)
    next
      case True
      then obtain resp ch where ch: "r = Some resp" "status resp = 401" "Option.bind (challenge_header resp) dec = Some ch" by blast
      obtain a w2 where a: "build_challenge_answer (read_answer srv) ch w1 = (a, w2)"
        by (cases "build_challenge_answer (read_answer srv) ch w1")
      show ?thesis
      proof (cases "Option.bind a enc")
        case None
        then show ?thesis
          by (intro exI [of _ 1])
            (cases a; auto simp: step req r respond_counting ch build_challenge_answer_counting a)
      next
        case (Some v)
        then obtain x where x: "a = Some x" "enc x = Some v" by (cases a) auto
        from Suc.IH [of "Some v" w2 "Suc n"] obtain k where "k \<le> Suc rounds"
          "open_rounds http dec enc (counting srv) target authorization rounds (Some v) (w2, Suc n)
             = (case open_rounds http dec enc srv target authorization rounds (Some v) w2 of (r, w) \<Rightarrow> (r, w, Suc n + k))" by blast
        then show ?thesis
          by (intro exI [of _ "Suc k"])
            (simp add: step req r respond_counting ch build_challenge_answer_counting a x split: prod.split)
      qed
    qed
  qed
qed

text \<open>C39: however the server answers, opening a channel ends after at most four CONNECT requests,
  one attempt and three challenge rounds; counting them does not change what it returns.\<close>

theorem open_channel_bounded:
  "snd (snd (open_channel http dec enc (counting srv) target authorization (w, 0))) \<le> 4
   \<and> fst (open_channel http dec enc (counting srv) target authorization (w, 0))
     = fst (open_channel http dec enc srv target authorization w)"
  using open_rounds_counting [of MAX_CHALLENGE_ROUNDS http dec enc srv target authorization None w 0]
  unfolding open_channel_def
  by (cases "open_rounds http dec enc srv target authorization MAX_CHALLENGE_ROUNDS None w")
    (auto simp: MAX_CHALLENGE_ROUNDS_def)

text \<open>The bound is reached by a server that only ever challenges.\<close>

lemma open_channel_bound_reached:
  "snd (snd (open_channel \<lparr>uri_path_of = (\<lambda>_. Some ''/q''), header_value_ok = (\<lambda>_. True)\<rparr>
      (\<lambda>_. Some \<lparr>chal_token = [], prompts = []\<rparr>) (\<lambda>_. Some [])
      (counting \<lparr>respond = (\<lambda>(w :: unit) _. (Some \<lparr>status = 401, challenge_header = Some []\<rparr>, w)), read_answer = (\<lambda>w _. (None, w))\<rparr>)
      \<lparr>tg_user = [], tg_host = [], tg_port = 0, tg_path = []\<rparr> [] ((), 0))) = 4"
  by code_simp

end
