(* ===== verification/Totp.thy ===== *)
theory Totp
  imports Auth
begin

unbundle bit_operations_syntax

text \<open>
  The one-time-code second factor, \<^verbatim>\<open>quish-auth/src/totp.rs\<close>, around any first-factor backend.
  HMAC-SHA1 and the base32 codec are arguments; the clock and the random source are fields of the
  environment.
\<close>

subsection \<open>Codes\<close>

definition STEP_SECS :: u64 where
  "STEP_SECS = 30"

definition DIGITS :: nat where
  "DIGITS = 6"

definition SKEW_STEPS :: int where
  "SKEW_STEPS = 1"

definition decode_base32_secret :: "(string \<Rightarrow> byte list option) \<Rightarrow> string \<Rightarrow> byte list option" where
  "decode_base32_secret base32_decode secret = base32_decode (trim secret)"

definition encode_base32_secret :: "(byte list \<Rightarrow> string) \<Rightarrow> byte list \<Rightarrow> string" where
  "encode_base32_secret base32_encode secret = base32_encode secret"

definition hotp :: "(byte list \<Rightarrow> byte list \<Rightarrow> byte list) \<Rightarrow> byte list \<Rightarrow> u64 \<Rightarrow> u32" where
  "hotp hmac secret counter =
     (let hs = hmac secret (be_bytes64 counter);
          offset = unat (hs ! (length hs - 1) AND 0x0f);
          bin = push_bit 24 (ucast (hs ! offset) AND 0x7f)
             OR push_bit 16 (ucast (hs ! (offset + 1)))
             OR push_bit 8 (ucast (hs ! (offset + 2)))
             OR ucast (hs ! (offset + 3))
      in bin mod 10 ^ DIGITS)"

text \<open>The \<^verbatim>\<open>i64\<close> arithmetic is on \<^typ>\<open>int\<close>: a quotient by 30 of a 64-bit number and its
  neighbours are far inside the type.\<close>

definition verify_at :: "(byte list \<Rightarrow> byte list \<Rightarrow> byte list) \<Rightarrow> byte list \<Rightarrow> u32 \<Rightarrow> u64 \<Rightarrow> bool" where
  "verify_at hmac secret code unix_secs =
     (let step = int (unat (unix_secs div STEP_SECS)) in
      list_ex (\<lambda>c. hotp hmac secret (word_of_int c) = code)
        (filter (\<lambda>c. c \<ge> 0) [step - SKEW_STEPS .. step + SKEW_STEPS]))"

definition current_code :: "(byte list \<Rightarrow> byte list \<Rightarrow> byte list) \<Rightarrow> u64 \<Rightarrow> byte list \<Rightarrow> u32" where
  "current_code hmac now secret = hotp hmac secret (now div STEP_SECS)"

subsection \<open>The backend\<close>

record TotpEnv =
  now_unix :: u64
  urandom :: "byte list option"
  elapsed_nanos :: "byte list"
  hmac_sha1 :: "byte list \<Rightarrow> byte list \<Rightarrow> byte list"
  secret_for :: "string \<Rightarrow> byte list option"

text \<open>\<open>elapsed_nanos\<close> holds the little-endian bytes of the clock reading the fallback mixes in.\<close>

definition new_token :: "TotpEnv \<Rightarrow> string" where
  "new_token env =
     (let buf = (case urandom env of
                   Some bytes \<Rightarrow> bytes
                 | None \<Rightarrow> le_bytes64 (now_unix env) @ take 8 (elapsed_nanos env))
      in concat (map hex_byte buf))"

definition totp_prompt :: string where
  "totp_prompt = ''TOTP code: ''"

definition open_challenge :: "TotpEnv \<Rightarrow> string option \<Rightarrow> Verdict" where
  "open_challenge env pending =
     ChallengeV \<lparr>token = new_token env, pending_user = pending\<rparr> [\<lparr>message = totp_prompt, echo = False\<rparr>]"

definition complete :: "TotpEnv \<Rightarrow> ChallengeResponse \<Rightarrow> Verdict" where
  "complete env resp =
     (let pending = pending_user (cr_state resp);
          secret = (case Option.bind pending (secret_for env) of Some s \<Rightarrow> s | None \<Rightarrow> []);
          code_ok = (case cr_responses resp of
                       [] \<Rightarrow> False
                     | c # _ \<Rightarrow> (case parse_u32 (trim c) of
                         Some code \<Rightarrow> verify_at (hmac_sha1 env) secret code (now_unix env)
                       | None \<Rightarrow> False))
      in case (pending, code_ok) of (Some user, True) \<Rightarrow> Allow user | _ \<Rightarrow> Deny)"

definition totp_authenticate :: "AuthBackend \<Rightarrow> TotpEnv \<Rightarrow> ConnInfo \<Rightarrow> Credentials \<Rightarrow> Verdict poll" where
  "totp_authenticate inner env conn creds = (case challenge conn of
       Some resp \<Rightarrow> Ready (complete env resp)
     | None \<Rightarrow> poll_bind (bk_authenticate inner conn creds) (\<lambda>v.
         Ready (open_challenge env (case v of Allow user \<Rightarrow> Some user | _ \<Rightarrow> None))))"

definition TotpBackend :: "AuthBackend \<Rightarrow> TotpEnv \<Rightarrow> AuthBackend" where
  "TotpBackend inner env =
     \<lparr>bk_name = ''totp'', supports = supports inner, bk_authenticate = totp_authenticate inner env\<rparr>"

subsection \<open>Lemmas\<close>

lemma upto_around: "[s - 1 .. s + 1] = [s - 1, s, s + (1::int)]"
  by (simp add: upto_rec1)

lemma complete_Allow_iff:
  "complete env resp = Allow u \<longleftrightarrow> pending_user (cr_state resp) = Some u \<and>
     (\<exists>c cs code. cr_responses resp = c # cs \<and> parse_u32 (trim c) = Some code \<and>
        verify_at (hmac_sha1 env) (case secret_for env u of Some s \<Rightarrow> s | None \<Rightarrow> []) code (now_unix env))"
  by (cases "pending_user (cr_state resp)"; cases "cr_responses resp")
     (auto simp: complete_def Let_def split: option.splits bool.splits)

lemma totp_Allow_iff:
  "totp_authenticate inner env conn creds = Ready (Allow u) \<longleftrightarrow>
     (\<exists>resp. challenge conn = Some resp \<and> complete env resp = Allow u)"
  by (auto simp: totp_authenticate_def open_challenge_def split: option.splits)

definition totp_evidence :: "TotpEnv \<Rightarrow> ConnInfo \<Rightarrow> Credentials \<Rightarrow> string \<Rightarrow> bool" where
  "totp_evidence env conn creds u \<longleftrightarrow> (\<exists>resp c cs code.
     challenge conn = Some resp \<and> pending_user (cr_state resp) = Some u
     \<and> cr_responses resp = c # cs \<and> parse_u32 (trim c) = Some code
     \<and> verify_at (hmac_sha1 env) (case secret_for env u of Some s \<Rightarrow> s | None \<Rightarrow> []) code (now_unix env))"

interpretation totp: auth_backend "TotpBackend inner env" "totp_evidence env" for inner env
  by unfold_locales (auto simp: TotpBackend_def totp_Allow_iff complete_Allow_iff totp_evidence_def)

lemma totp_pending_sound:
  assumes "totp_authenticate inner env conn creds = Ready (ChallengeV st ps)" "pending_user st = Some u"
  shows "challenge conn = None \<and> bk_authenticate inner conn creds = Ready (Allow u)"
proof -
  have no: "complete env resp \<noteq> ChallengeV st ps" for resp
    by (auto simp: complete_def Let_def split: option.splits bool.splits list.splits)
  then have c: "challenge conn = None"
    using assms(1) by (cases "challenge conn") (auto simp: totp_authenticate_def)
  then obtain v where v: "bk_authenticate inner conn creds = Ready v"
    and "open_challenge env (case v of Allow user \<Rightarrow> Some user | _ \<Rightarrow> None) = ChallengeV st ps"
    using assms(1) unfolding totp_authenticate_def by auto
  then have "(case v of Allow user \<Rightarrow> Some user | _ \<Rightarrow> None) = Some u"
    using assms(2) by (auto simp: open_challenge_def)
  then have "v = Allow u" by (cases v) auto
  with c v show ?thesis by simp
qed

lemma near_step:
  "a = b \<or> a = b + 1 \<or> a + 1 = b \<Longrightarrow>
     int b \<in> set (filter (\<lambda>c. c \<ge> 0) [int a - 1, int a, int a + 1])"
  by auto

lemma verify_at_skew:
  assumes "unat (now div STEP_SECS) = unat (t div STEP_SECS)
         \<or> unat (now div STEP_SECS) = unat (t div STEP_SECS) + 1
         \<or> unat (now div STEP_SECS) + 1 = unat (t div STEP_SECS)"
  shows "verify_at hmac secret (hotp hmac secret (t div STEP_SECS)) now"
proof -
  have "word_of_int (int (unat (t div STEP_SECS))) = t div STEP_SECS" by simp
  with near_step [OF assms] show ?thesis
    unfolding verify_at_def Let_def SKEW_STEPS_def upto_around list_ex_iff
    by (metis (no_types, lifting))
qed

text \<open>A code is good for half a minute around the instant it was read at.\<close>

lemma verify_at_near:
  assumes "unat now \<le> unat t + 30" "unat t \<le> unat now + 30"
  shows "verify_at hmac secret (current_code hmac t secret) now"
proof -
  have d: "unat (x div STEP_SECS) = unat x div 30" for x
    by (simp add: STEP_SECS_def unat_div)
  have "verify_at hmac secret (hotp hmac secret (t div STEP_SECS)) now"
    by (rule verify_at_skew, unfold d) (use assms in linarith)
  then show ?thesis by (simp add: current_code_def)
qed

lemma hotp_bound: "unat (hotp hmac secret counter) < 10 ^ DIGITS"
proof -
  have "hotp hmac secret counter < 10 ^ DIGITS"
    unfolding hotp_def Let_def by (rule word_mod_less_divisor) (simp add: DIGITS_def)
  then show ?thesis by (simp add: word_less_nat_alt DIGITS_def)
qed

subsection \<open>Properties\<close>

text \<open>C25: what the client sees of the first round says nothing about the first factor: whatever the
  wrapped backend answered, and for whatever user, the outcome is a challenge with the same token
  and the same prompt.\<close>

theorem challenge_hides_first_factor:
  assumes "challenge conn = None" "bk_authenticate inner conn creds = Ready v"
    and "challenge conn' = None" "bk_authenticate inner conn' creds' = Ready v'"
  shows "\<exists>st st' ps. totp_authenticate inner env conn creds = Ready (ChallengeV st ps)
           \<and> totp_authenticate inner env conn' creds' = Ready (ChallengeV st' ps)
           \<and> token st = token st'"
  using assms by (simp add: totp_authenticate_def open_challenge_def)

lemma challenge_hides_first_factor_witness:
  "\<exists>st st' ps.
     totp_authenticate (DevInsecureBackend ''dev'') \<lparr>now_unix = 0, urandom = Some [1], elapsed_nanos = [],
        hmac_sha1 = (\<lambda>_ _. []), secret_for = (\<lambda>_. None)\<rparr>
        \<lparr>peer_addr = (V4 0, 0), channel_binding = [], challenge = None\<rparr> (Password ''dev'' ''x'') = Ready (ChallengeV st ps)
   \<and> totp_authenticate (DevInsecureBackend ''dev'') \<lparr>now_unix = 0, urandom = Some [1], elapsed_nanos = [],
        hmac_sha1 = (\<lambda>_ _. []), secret_for = (\<lambda>_. None)\<rparr>
        \<lparr>peer_addr = (V4 0, 0), channel_binding = [], challenge = None\<rparr> (Password ''nobody'' ''x'') = Ready (ChallengeV st' ps)
   \<and> token st = token st'"
  by (rule challenge_hides_first_factor [where v = "Allow ''dev''" and v' = Deny])
     (simp_all add: DevInsecureBackend_def)

text \<open>C8: letting a user in takes both factors: if the second round, answering the state the first
  round parked, lets \<open>u\<close> in, then the wrapped backend let \<open>u\<close> in at the first round and the answer
  is a code of \<open>u\<close>'s secret for the present time.\<close>

theorem two_factors_required:
  assumes r1: "totp_authenticate inner env1 conn1 creds1 = Ready (ChallengeV st ps)"
    and c2: "challenge conn2 = Some (ChallengeResponse_new st rs)"
    and r2: "totp_authenticate inner env2 conn2 creds2 = Ready (Allow u)"
  shows "bk_authenticate inner conn1 creds1 = Ready (Allow u)
    \<and> (\<exists>c cs code. rs = c # cs \<and> parse_u32 (trim c) = Some code
         \<and> verify_at (hmac_sha1 env2) (case secret_for env2 u of Some s \<Rightarrow> s | None \<Rightarrow> []) code (now_unix env2))"
proof -
  have co: "complete env2 (ChallengeResponse_new st rs) = Allow u"
    using r2 c2 by (auto simp: totp_Allow_iff)
  then have "pending_user st = Some u"
    by (simp add: complete_Allow_iff ChallengeResponse_new_def)
  then have "bk_authenticate inner conn1 creds1 = Ready (Allow u)"
    using totp_pending_sound [OF r1] by blast
  with co show ?thesis by (simp add: complete_Allow_iff ChallengeResponse_new_def)
qed

lemma two_factors_required_witness:
  "bk_authenticate (DevInsecureBackend ''dev'')
     \<lparr>peer_addr = (V4 0, 0), channel_binding = [], challenge = None\<rparr> (Password ''dev'' ''x'') = Ready (Allow ''dev'')
   \<and> (\<exists>c cs code. [''0''] = c # cs \<and> parse_u32 (trim c) = Some code
         \<and> verify_at (\<lambda>_ _. replicate 20 0) (case Some [1] of Some s \<Rightarrow> s | None \<Rightarrow> []) code 0)"
proof -
  let ?env = "\<lparr>now_unix = 0, urandom = Some [1], elapsed_nanos = [],
        hmac_sha1 = (\<lambda>_ _. replicate 20 0), secret_for = (\<lambda>_. Some [1])\<rparr>"
  let ?st = "\<lparr>token = new_token ?env, pending_user = Some ''dev''\<rparr>"
  let ?conn = "\<lparr>peer_addr = (V4 0, 0), channel_binding = [], challenge = None\<rparr>"
  let ?conn2 = "?conn\<lparr>challenge := Some (ChallengeResponse_new ?st [''0''])\<rparr>"
  have r1: "totp_authenticate (DevInsecureBackend ''dev'') ?env ?conn (Password ''dev'' ''x'')
      = Ready (ChallengeV ?st [\<lparr>message = totp_prompt, echo = False\<rparr>])"
    by (simp add: totp_authenticate_def open_challenge_def DevInsecureBackend_def)
  have "complete ?env (ChallengeResponse_new ?st [''0'']) = Allow ''dev''"
    by code_simp
  then have r2: "totp_authenticate (DevInsecureBackend ''dev'') ?env ?conn2 (Jwt []) = Ready (Allow ''dev'')"
    by (simp add: totp_authenticate_def)
  from two_factors_required [OF r1 _ r2, of "[''0'']"] show ?thesis by simp
qed

text \<open>A code read off the authenticator at \<open>t\<close> still completes the login half a minute later,
  and one of a clock half a minute ahead does too.\<close>

lemma totp_code_accepted:
  assumes "pending_user (cr_state resp) = Some u" "secret_for env u = Some s"
    and "cr_responses resp = c # cs" "parse_u32 (trim c) = Some (current_code (hmac_sha1 env) t s)"
    and "unat (now_unix env) \<le> unat t + 30" "unat t \<le> unat (now_unix env) + 30"
  shows "complete env resp = Allow u"
  using verify_at_near [OF assms(5,6)] assms by (simp add: complete_Allow_iff)

text \<open>A user whose password is right but who has no enrolled secret is let in by a code of the empty
  key.\<close>

lemma unenrolled_user_let_in:
  assumes "pending_user (cr_state resp) = Some u" "secret_for env u = None"
    and "cr_responses resp = [show_nat (unat (current_code (hmac_sha1 env) (now_unix env) []))]"
  shows "complete env resp = Allow u"
  using assms verify_at_skew [of "now_unix env" "now_unix env" "hmac_sha1 env" "[]"]
  by (simp add: complete_Allow_iff parse_u32_show_nat current_code_def)

text \<open>A code has at most six digits, and computing it never indexes outside a 20-byte digest.\<close>

lemma hotp_in_range:
  assumes "length (hmac secret (be_bytes64 counter)) = 20"
  shows "unat (hotp hmac secret counter) < 1000000
    \<and> unat ((hmac secret (be_bytes64 counter)) ! 19 AND 0x0f) + 3 < length (hmac secret (be_bytes64 counter))"
proof -
  let ?x = "(hmac secret (be_bytes64 counter)) ! 19"
  have "?x AND 0x0f \<le> 0x0f" by (rule word_and_le1)
  then have "unat (?x AND 0x0f) \<le> 15" by (simp add: word_le_nat_alt)
  then show ?thesis
    using hotp_bound [of hmac secret counter] assms by (simp add: DIGITS_def)
qed

lemma hotp_in_range_witness:
  "unat (hotp (\<lambda>_ _. replicate 20 255) [] 0) < 1000000
    \<and> unat ((replicate 20 255) ! 19 AND 0x0f :: byte) + 3 < length (replicate 20 (255 :: byte))"
  by (rule hotp_in_range [of "\<lambda>_ _. replicate 20 255" "[]" 0]) simp

end
