(* ===== verification/Oidc.thy ===== *)
theory Oidc
  imports Auth
begin

text \<open>
  The OIDC backend, \<^verbatim>\<open>quish-auth/src/oidc.rs\<close>: key selection from a static JWKS file, the
  validation settings handed to \<^verbatim>\<open>jsonwebtoken\<close>, the age check and the claim-to-user mapping,
  and the crypto provider's factories.  \<^verbatim>\<open>jsonwebtoken\<close>, \<^verbatim>\<open>serde_json\<close> and \<^verbatim>\<open>ed25519_dalek\<close>
  are fields of the environment.
\<close>

subsection \<open>Data\<close>

datatype Algorithm = EdDSA | OtherAlgorithm string

text \<open>A JSON value, with the three representations of a number.\<close>

datatype Value =
    JNull
  | JBool bool
  | JPosInt u64
  | JNegInt int
  | JFloat string
  | JString string
  | JArray "Value list"
  | JObject "(string \<times> Value) list"

definition value_get :: "Value \<Rightarrow> string \<Rightarrow> Value option" where
  "value_get v k = (case v of JObject kvs \<Rightarrow> map_of kvs k | _ \<Rightarrow> None)"

fun as_u64 :: "Value \<Rightarrow> u64 option" where
  "as_u64 (JPosInt n) = Some n"
| "as_u64 _ = None"

fun as_str :: "Value \<Rightarrow> string option" where
  "as_str (JString s) = Some s"
| "as_str _ = None"

record OidcConfig =
  issuer :: string
  audience :: string
  jwks_file :: string
  user_claim :: string
  max_token_age_secs :: u64

record Validation =
  algorithms :: "Algorithm list"
  iss :: "string list"
  aud :: "string list"
  validate_exp :: bool
  validate_nbf :: bool
  required_spec_claims :: "string list"

text \<open>\<open>jwt_decode\<close> is \<^verbatim>\<open>jsonwebtoken::decode\<close>: the claims, when the token passes.\<close>

record ('jwk, 'key) OidcEnv =
  read_file :: "string \<Rightarrow> byte list option"
  parse_jwks :: "byte list \<Rightarrow> 'jwk list option"
  decode_header :: "string \<Rightarrow> string option option"
  jwk_kid :: "'jwk \<Rightarrow> string option"
  from_jwk :: "'jwk \<Rightarrow> 'key option"
  jwt_decode :: "string \<Rightarrow> 'key \<Rightarrow> Validation \<Rightarrow> Value option"
  current_timestamp :: u64

subsection \<open>The crypto provider\<close>

datatype JwtError = InvalidAlgorithm | InvalidEddsaKey

text \<open>The ed25519 primitives: what is a verifying key, and the strict check of a signature.\<close>

record EdLib =
  ed_vk_ok :: "byte list \<Rightarrow> bool"
  ed_verify_strict :: "byte list \<Rightarrow> byte list \<Rightarrow> byte list \<Rightarrow> bool"

text \<open>A signature is 64 bytes.\<close>

definition EdVerifier_verify :: "EdLib \<Rightarrow> byte list \<Rightarrow> byte list \<Rightarrow> byte list \<Rightarrow> bool" where
  "EdVerifier_verify ed vk msg sig \<longleftrightarrow> length sig = 64 \<and> ed_verify_strict ed vk msg sig"

text \<open>A verifier has an algorithm and checks a message against a signature.\<close>

record JwtVerifier =
  jv_algorithm :: Algorithm
  jv_verify :: "byte list \<Rightarrow> byte list \<Rightarrow> bool"

definition EdVerifier :: "EdLib \<Rightarrow> byte list \<Rightarrow> JwtVerifier" where
  "EdVerifier ed vk = \<lparr>jv_algorithm = EdDSA, jv_verify = EdVerifier_verify ed vk\<rparr>"

definition verifier_factory :: "EdLib \<Rightarrow> Algorithm \<Rightarrow> byte list \<Rightarrow> JwtError + JwtVerifier" where
  "verifier_factory ed alg key =
     (if alg \<noteq> EdDSA then Inl InvalidAlgorithm
      else if length key < 32 then Inl InvalidEddsaKey
      else let raw = take 32 key in
        if ed_vk_ok ed raw then Inr (EdVerifier ed raw) else Inl InvalidEddsaKey)"

definition signer_factory :: "Algorithm \<Rightarrow> byte list \<Rightarrow> JwtError + unit" where
  "signer_factory alg key = Inl InvalidAlgorithm"

record JwtProvider =
  jp_signer :: "Algorithm \<Rightarrow> byte list \<Rightarrow> JwtError + unit"
  jp_verifier :: "Algorithm \<Rightarrow> byte list \<Rightarrow> JwtError + JwtVerifier"

definition PROVIDER :: "EdLib \<Rightarrow> JwtProvider" where
  "PROVIDER ed = \<lparr>jp_signer = signer_factory, jp_verifier = verifier_factory ed\<rparr>"

text \<open>The provider of the process is set once: a later one is not installed.\<close>

definition ensure_provider :: "EdLib \<Rightarrow> JwtProvider option \<Rightarrow> JwtProvider" where
  "ensure_provider ed installed = (case installed of None \<Rightarrow> PROVIDER ed | Some p \<Rightarrow> p)"

subsection \<open>Verification\<close>

definition oidc_validation :: "OidcConfig \<Rightarrow> Validation" where
  "oidc_validation cfg =
     \<lparr>algorithms = [EdDSA], iss = [issuer cfg], aud = [audience cfg],
      validate_exp = True, validate_nbf = True, required_spec_claims = [''exp'', ''iss'', ''aud'']\<rparr>"

definition select_jwk :: "('jwk, 'key) OidcEnv \<Rightarrow> 'jwk list \<Rightarrow> string option \<Rightarrow> 'jwk option" where
  "select_jwk env jwks kid = (case kid of
       Some k \<Rightarrow> find (\<lambda>j. jwk_kid env j = Some k) jwks
     | None \<Rightarrow> if length jwks = 1 then Some (jwks ! 0) else None)"

definition too_old :: "OidcConfig \<Rightarrow> ('jwk, 'key) OidcEnv \<Rightarrow> Value \<Rightarrow> bool" where
  "too_old cfg env claims = (case Option.bind (value_get claims ''iat'') as_u64 of
       Some iat \<Rightarrow> sat_sub64 (current_timestamp env) iat > max_token_age_secs cfg
     | None \<Rightarrow> False)"

definition verify :: "OidcConfig \<Rightarrow> ('jwk, 'key) OidcEnv \<Rightarrow> string \<Rightarrow> string option" where
  "verify cfg env tok =
     Option.bind (read_file env (jwks_file cfg)) (\<lambda>bytes.
     Option.bind (parse_jwks env bytes) (\<lambda>jwks.
     Option.bind (decode_header env tok) (\<lambda>kid.
     Option.bind (select_jwk env jwks kid) (\<lambda>jwk.
     Option.bind (from_jwk env jwk) (\<lambda>key.
     Option.bind (jwt_decode env tok key (oidc_validation cfg)) (\<lambda>claims.
       if too_old cfg env claims then None
       else Option.bind (value_get claims (user_claim cfg)) (\<lambda>c.
            Option.bind (as_str c) (\<lambda>user. if user = [] then None else Some user))))))))"

definition oidc_authenticate :: "OidcConfig \<Rightarrow> ('jwk, 'key) OidcEnv \<Rightarrow> ConnInfo \<Rightarrow> Credentials \<Rightarrow> Verdict poll" where
  "oidc_authenticate cfg env conn creds = (case creds of
       Jwt tok \<Rightarrow> (case verify cfg env tok of Some user \<Rightarrow> Ready (Allow user) | None \<Rightarrow> Ready Deny)
     | _ \<Rightarrow> Ready Deny)"

definition OidcBackend :: "OidcConfig \<Rightarrow> ('jwk, 'key) OidcEnv \<Rightarrow> AuthBackend" where
  "OidcBackend cfg env =
     \<lparr>bk_name = ''oidc'',
      supports = (\<lambda>creds. case creds of Jwt _ \<Rightarrow> True | _ \<Rightarrow> False),
      bk_authenticate = oidc_authenticate cfg env\<rparr>"

subsection \<open>Lemmas\<close>

text \<open>What lets a token in: it decoded under the validation settings with a key of the file, it is
  not too old, and the user is the string in the configured claim.\<close>

definition oidc_evidence ::
  "OidcConfig \<Rightarrow> ('jwk, 'key) OidcEnv \<Rightarrow> ConnInfo \<Rightarrow> Credentials \<Rightarrow> string \<Rightarrow> bool" where
  "oidc_evidence cfg env conn creds u \<longleftrightarrow> (\<exists>tok bytes jwks jwk key claims.
     creds = Jwt tok \<and> read_file env (jwks_file cfg) = Some bytes \<and> parse_jwks env bytes = Some jwks
     \<and> jwk \<in> set jwks \<and> from_jwk env jwk = Some key
     \<and> jwt_decode env tok key (oidc_validation cfg) = Some claims
     \<and> (\<forall>iat. value_get claims ''iat'' = Some (JPosInt iat) \<longrightarrow>
          sat_sub64 (current_timestamp env) iat \<le> max_token_age_secs cfg)
     \<and> value_get claims (user_claim cfg) = Some (JString u) \<and> u \<noteq> [])"

lemma select_jwk_mem: "select_jwk env jwks kid = Some jwk \<Longrightarrow> jwk \<in> set jwks"
  by (auto simp: select_jwk_def find_Some_iff split: option.splits if_splits)

lemma as_str_Some [simp]: "as_str c = Some s \<longleftrightarrow> c = JString s"
  by (cases c) auto

lemma verify_SomeD: "verify cfg env tok = Some u \<Longrightarrow> oidc_evidence cfg env conn (Jwt tok) u"
proof -
  assume "verify cfg env tok = Some u"
  then obtain bytes jwks kid jwk key claims where
    *: "read_file env (jwks_file cfg) = Some bytes" "parse_jwks env bytes = Some jwks"
      "select_jwk env jwks kid = Some jwk" "from_jwk env jwk = Some key"
      "jwt_decode env tok key (oidc_validation cfg) = Some claims"
    and age: "\<not> too_old cfg env claims"
    and user: "value_get claims (user_claim cfg) = Some (JString u)" "u \<noteq> []"
    unfolding verify_def by (auto simp: bind_eq_Some_conv split: if_splits)
  have "\<forall>iat. value_get claims ''iat'' = Some (JPosInt iat) \<longrightarrow>
          sat_sub64 (current_timestamp env) iat \<le> max_token_age_secs cfg"
    using age by (auto simp: too_old_def not_less)
  moreover have "jwk \<in> set jwks" using *(3) by (rule select_jwk_mem)
  ultimately show ?thesis
    unfolding oidc_evidence_def
    by (intro exI [of _ tok] exI [of _ bytes] exI [of _ jwks] exI [of _ jwk] exI [of _ key] exI [of _ claims])
       (simp add: * user)
qed

interpretation oidc: auth_backend "OidcBackend cfg env" "oidc_evidence cfg env" for cfg env
  by unfold_locales
     (auto simp: OidcBackend_def oidc_authenticate_def split: Credentials.splits option.splits
       intro: verify_SomeD)

subsection \<open>Properties\<close>

text \<open>C29: a user let in by a JWT is named by the configured claim of a token that carries the configured
  issuer and audience, has not expired, and has a 64-byte signature that is a strict ed25519 signature by a
  key of the operator's file, whatever algorithm the token names.  The hypothesis states what
  \<^verbatim>\<open>jsonwebtoken::decode\<close> documents of a token it accepts: the provider of the process, installed by the
  backend, makes a verifier for one of the allowed algorithms, which accepts the signature.\<close>

theorem oidc_user_from_signed_claim:
  assumes decode_ok: "\<And>tok key v claims. jwt_decode env tok key v = Some claims \<Longrightarrow>
      (\<exists>a \<in> set (algorithms v). \<exists>ver. jp_verifier (ensure_provider ed None) a (key_bytes key) = Inr ver
          \<and> jv_verify ver (signing_input tok) (jwt_signature tok))
      \<and> (''iss'' \<in> set (required_spec_claims v) \<longrightarrow> (\<exists>s \<in> set (iss v). value_get claims ''iss'' = Some (JString s)))
      \<and> (''aud'' \<in> set (required_spec_claims v) \<longrightarrow> (\<exists>s \<in> set (aud v). aud_names claims s))
      \<and> (validate_exp v \<and> ''exp'' \<in> set (required_spec_claims v) \<longrightarrow> unexpired claims)"
    and ok: "oidc_authenticate cfg env conn creds = Ready (Allow u)"
  shows "\<exists>tok bytes jwks jwk key claims. creds = Jwt tok
    \<and> read_file env (jwks_file cfg) = Some bytes \<and> parse_jwks env bytes = Some jwks \<and> jwk \<in> set jwks
    \<and> from_jwk env jwk = Some key \<and> 32 \<le> length (key_bytes key) \<and> length (jwt_signature tok) = 64
    \<and> ed_verify_strict ed (take 32 (key_bytes key)) (signing_input tok) (jwt_signature tok)
    \<and> value_get claims ''iss'' = Some (JString (issuer cfg)) \<and> aud_names claims (audience cfg)
    \<and> unexpired claims \<and> value_get claims (user_claim cfg) = Some (JString u) \<and> u \<noteq> []"
proof -
  have "oidc_evidence cfg env conn creds u"
    using ok by (auto simp: oidc_authenticate_def split: Credentials.splits option.splits intro: verify_SomeD)
  then obtain tok bytes jwks jwk key claims where
    *: "creds = Jwt tok" "read_file env (jwks_file cfg) = Some bytes" "parse_jwks env bytes = Some jwks"
      "jwk \<in> set jwks" "from_jwk env jwk = Some key"
    and dec: "jwt_decode env tok key (oidc_validation cfg) = Some claims"
    and user: "value_get claims (user_claim cfg) = Some (JString u)" "u \<noteq> []"
    unfolding oidc_evidence_def by auto
  have "32 \<le> length (key_bytes key)" "length (jwt_signature tok) = 64"
    "ed_verify_strict ed (take 32 (key_bytes key)) (signing_input tok) (jwt_signature tok)"
    using decode_ok [OF dec]
    by (auto simp: oidc_validation_def ensure_provider_def PROVIDER_def verifier_factory_def EdVerifier_def EdVerifier_verify_def
        Let_def not_less split: if_splits)
  moreover have "value_get claims ''iss'' = Some (JString (issuer cfg))"
    "aud_names claims (audience cfg)" "unexpired claims"
    using decode_ok [OF dec] by (simp_all add: oidc_validation_def)
  ultimately show ?thesis
    by (intro exI [of _ tok] exI [of _ bytes] exI [of _ jwks] exI [of _ jwk] exI [of _ key] exI [of _ claims])
       (simp add: * user)
qed

lemma oidc_user_from_signed_claim_witness:
  "\<exists>tok bytes jwks jwk key claims. Jwt ''a.b.c'' = Jwt tok
    \<and> Some [1 :: byte] = Some bytes \<and> Some [()] = Some jwks \<and> jwk \<in> set jwks
    \<and> Some () = Some key \<and> 32 \<le> length (replicate 32 (5 :: byte)) \<and> length (replicate 64 (2 :: byte)) = 64
    \<and> take 32 (replicate 32 (5 :: byte)) = replicate 32 5
    \<and> value_get claims ''iss'' = Some (JString ''idp'') \<and> True
    \<and> True \<and> value_get claims ''sub'' = Some (JString ''al'') \<and> ''al'' \<noteq> []"
proof -
  let ?claims = "JObject [(''iss'', JString ''idp''), (''sub'', JString ''al'')]"
  let ?cfg = "\<lparr>issuer = ''idp'', audience = ''aud'', jwks_file = ''f'', user_claim = ''sub'', max_token_age_secs = 10\<rparr>"
  let ?env = "\<lparr>read_file = (\<lambda>_. Some [1]), parse_jwks = (\<lambda>_. Some [()]), decode_header = (\<lambda>_. Some None),
     jwk_kid = (\<lambda>_. None), from_jwk = (\<lambda>_. Some ()),
     jwt_decode = (\<lambda>_ _ v. if algorithms v = [EdDSA] \<and> iss v = [''idp''] \<and> aud v = [''aud''] then Some ?claims else None),
     current_timestamp = 5\<rparr>"
  let ?ed = "\<lparr>ed_vk_ok = (\<lambda>_. True), ed_verify_strict = (\<lambda>vk _ _. vk = replicate 32 5)\<rparr>"
  have law: "(\<exists>a \<in> set (algorithms v). \<exists>ver. jp_verifier (ensure_provider ?ed None) a (replicate 32 5) = Inr ver
          \<and> jv_verify ver [] (replicate 64 2))
      \<and> (''iss'' \<in> set (required_spec_claims v) \<longrightarrow> (\<exists>s \<in> set (iss v). value_get claims ''iss'' = Some (JString s)))
      \<and> (''aud'' \<in> set (required_spec_claims v) \<longrightarrow> (\<exists>s \<in> set (aud v). True))
      \<and> (validate_exp v \<and> ''exp'' \<in> set (required_spec_claims v) \<longrightarrow> True)"
    if "jwt_decode ?env tok key v = Some claims" for tok key v claims
    using that by (auto simp: value_get_def ensure_provider_def PROVIDER_def verifier_factory_def EdVerifier_def EdVerifier_verify_def
        split: if_splits)
  have "oidc_authenticate ?cfg ?env \<lparr>peer_addr = (V4 0, 0), channel_binding = [], challenge = None\<rparr> (Jwt ''a.b.c'')
      = Ready (Allow ''al'')"
    by code_simp
  from oidc_user_from_signed_claim [where ed = ?ed and key_bytes = "\<lambda>_. replicate 32 5" and signing_input = "\<lambda>_. []"
      and jwt_signature = "\<lambda>_. replicate 64 2", OF law this] show ?thesis by simp
qed

text \<open>A token whose \<^verbatim>\<open>iat\<close> is written as a fractional number is never too old.\<close>

lemma fractional_iat_unchecked:
  "value_get claims ''iat'' = Some (JFloat f) \<Longrightarrow> \<not> too_old cfg env claims"
  by (simp add: too_old_def)

end
