(* ===== verification/Registry_Build.thy ===== *)
theory Registry_Build
  imports Pubkey Totp Oidc Monitor
begin

text \<open>
  The registry the monitor runs with, \<^verbatim>\<open>build_registry\<close> and the per-user resolvers of
  \<^verbatim>\<open>quish-server/src/monitor.rs\<close>, and what it takes to be bound to a connection by a monitor that
  uses it.
\<close>

definition FAIL_DELAY :: nanos where
  "FAIL_DELAY = secs 1"

definition per_user_keys :: "(string \<Rightarrow> PwUser option) \<Rightarrow> string \<Rightarrow> string option" where
  "per_user_keys pwdb user =
     map_option (\<lambda>u. path_join (pw_dir u) ''.config/quish/authorized_keys'') (pwdb user)"

text \<open>\<open>read_to_string\<close> is \<^const>\<open>None\<close> for a missing or non-UTF-8 file.\<close>

definition per_user_totp_secret ::
  "(string \<Rightarrow> PwUser option) \<Rightarrow> (string \<Rightarrow> string option) \<Rightarrow> (string \<Rightarrow> byte list option) \<Rightarrow> string \<Rightarrow> byte list option" where
  "per_user_totp_secret pwdb read_to_string base32_decode user =
     Option.bind (pwdb user) (\<lambda>u.
     Option.bind (read_to_string (path_join (pw_dir u) ''.config/quish/totp'')) (\<lambda>text.
       decode_base32_secret base32_decode text))"

text \<open>What the backends read while one request is verified.\<close>

record ('jwk, 'key) AuthEnv =
  ae_pwdb :: "string \<Rightarrow> PwUser option"
  ae_pubkey :: PubkeyEnv
  ae_pam :: "PamLib option"
  ae_totp :: TotpEnv
  ae_read :: "string \<Rightarrow> string option"
  ae_base32 :: "string \<Rightarrow> byte list option"
  ae_oidc :: "('jwk, 'key) OidcEnv"

definition pubkey_env :: "('jwk, 'key) AuthEnv \<Rightarrow> PubkeyEnv" where
  "pubkey_env a = (ae_pubkey a)\<lparr>resolver := per_user_keys (ae_pwdb a)\<rparr>"

definition totp_env :: "('jwk, 'key) AuthEnv \<Rightarrow> TotpEnv" where
  "totp_env a = (ae_totp a)\<lparr>secret_for := per_user_totp_secret (ae_pwdb a) (ae_read a) (ae_base32 a)\<rparr>"

definition build_registry ::
  "bool \<Rightarrow> UserPolicy \<Rightarrow> OidcConfig option \<Rightarrow> ('jwk, 'key) AuthEnv \<Rightarrow> Registry" where
  "build_registry totp pol oidc a =
     (let password = (case ae_pam a of
            Some lib \<Rightarrow> [if totp then TotpBackend (PamBackend lib) (totp_env a) else PamBackend lib]
          | None \<Rightarrow> []);
          jwt = (case oidc of Some cfg \<Rightarrow> [OidcBackend cfg (ae_oidc a)] | None \<Rightarrow> [])
      in Registry_new ([PubkeyBackend (pubkey_env a)] @ password @ jwt) FAIL_DELAY pol)"

subsection \<open>Lemmas\<close>

text \<open>What the registry takes for a user.\<close>

definition login_evidence ::
  "bool \<Rightarrow> OidcConfig option \<Rightarrow> ('jwk, 'key) AuthEnv \<Rightarrow> ConnInfo \<Rightarrow> Credentials \<Rightarrow> string \<Rightarrow> bool" where
  "login_evidence totp oidc a conn creds u \<longleftrightarrow>
     pubkey_evidence (pubkey_env a) conn creds u
     \<or> (\<exists>cfg. oidc = Some cfg \<and> oidc_evidence cfg (ae_oidc a) conn creds u)
     \<or> (\<not> totp \<and> (\<exists>lib. ae_pam a = Some lib \<and> pam_evidence lib conn creds u))
     \<or> (totp \<and> ae_pam a \<noteq> None \<and> totp_evidence (totp_env a) conn creds u)"

lemma build_registry_backends:
  "b \<in> set (backends (build_registry totp pol oidc a)) \<longleftrightarrow> b = PubkeyBackend (pubkey_env a)
     \<or> (\<exists>lib. ae_pam a = Some lib \<and> b = (if totp then TotpBackend (PamBackend lib) (totp_env a) else PamBackend lib))
     \<or> (\<exists>cfg. oidc = Some cfg \<and> b = OidcBackend cfg (ae_oidc a))"
  by (cases "ae_pam a"; cases oidc) (auto simp: build_registry_def Registry_new_def Let_def)

lemma build_registry_sound:
  "b \<in> set (backends (build_registry totp pol oidc a)) \<Longrightarrow> backend_sound (login_evidence totp oidc a) b"
proof -
  assume b: "b \<in> set (backends (build_registry totp pol oidc a))"
  consider "b = PubkeyBackend (pubkey_env a)"
    | lib where "ae_pam a = Some lib" "totp" "b = TotpBackend (PamBackend lib) (totp_env a)"
    | lib where "ae_pam a = Some lib" "\<not> totp" "b = PamBackend lib"
    | cfg where "oidc = Some cfg" "b = OidcBackend cfg (ae_oidc a)"
    using b unfolding build_registry_backends by (cases totp) auto
  then show ?thesis
  proof cases
    case 1
    then show ?thesis
      using backend_sound_mono [OF pk.backend_soundI] by (simp add: login_evidence_def)
  next
    case 2
    then show ?thesis
      using backend_sound_mono [OF totp.backend_soundI] by (simp add: login_evidence_def)
  next
    case 3
    then show ?thesis
      using backend_sound_mono [OF pam.backend_soundI] by (simp add: login_evidence_def)
  next
    case 4
    then show ?thesis
      by (auto simp: login_evidence_def intro!: backend_sound_mono [OF oidc.backend_soundI])
  qed
qed

lemma build_registry_policy [simp]: "policy (build_registry totp pol oidc a) = pol"
  by (simp add: build_registry_def Registry_new_def Let_def)

text \<open>Only the second-factor backend asks for a challenge.\<close>

lemma verdict_ChallengeD:
  assumes "verdict parse reg hdr conn = Ready (ChallengeV st ps)"
  shows "\<exists>creds b. parse hdr = Some creds \<and> b \<in> set (backends reg) \<and> bk_authenticate b conn creds = Ready (ChallengeV st ps)"
proof -
  obtain v where v: "(case parse hdr of Some creds \<Rightarrow> dispatch (backends reg) creds conn | None \<Rightarrow> Ready Deny) = Ready v"
    and k: "(case v of Allow user \<Rightarrow> if \<not> permits (policy reg) user then Ready Deny else Ready v
      | _ \<Rightarrow> Ready v) = Ready (ChallengeV st ps)"
    using assms unfolding verdict_def poll_bind_eq_Ready by blast
  from k have "v = ChallengeV st ps" by (cases v) (auto split: if_splits)
  with v show ?thesis
    by (auto simp: dispatch_first find_Some_iff split: option.splits) (metis nth_mem)
qed

lemma no_challenge:
  "pubkey_authenticate env conn creds \<noteq> Ready (ChallengeV st ps)"
  "pam_backend_authenticate lib conn creds \<noteq> Ready (ChallengeV st ps)"
  "oidc_authenticate cfg oenv conn creds \<noteq> Ready (ChallengeV st ps)"
proof -

  show "pubkey_authenticate env conn creds \<noteq> Ready (ChallengeV st ps)"
    by (cases creds) (auto simp: pubkey_authenticate_def Let_def split: if_splits)
  show "pam_backend_authenticate lib conn creds \<noteq> Ready (ChallengeV st ps)"
    by (cases creds) (auto simp: pam_backend_authenticate_def Let_def)
  show "oidc_authenticate cfg oenv conn creds \<noteq> Ready (ChallengeV st ps)"
    by (cases creds) (auto simp: oidc_authenticate_def split: option.splits)
qed

lemma build_registry_challenge:
  assumes "verdict parse (build_registry totp pol oidc a) hdr conn = Ready (ChallengeV st ps)" "pending_user st = Some u"
  shows "\<exists>lib creds. ae_pam a = Some lib \<and> parse hdr = Some creds \<and> pam_evidence lib conn creds u"
proof -
  from verdict_ChallengeD [OF assms(1)] obtain creds b where p: "parse hdr = Some creds"
    and b: "b \<in> set (backends (build_registry totp pol oidc a))" and ch: "bk_authenticate b conn creds = Ready (ChallengeV st ps)"
    by blast
  have "bk_authenticate (PubkeyBackend env) conn creds \<noteq> Ready (ChallengeV st ps)"
    "bk_authenticate (PamBackend lib) conn creds \<noteq> Ready (ChallengeV st ps)"
    "bk_authenticate (OidcBackend cfg (ae_oidc a)) conn creds \<noteq> Ready (ChallengeV st ps)" for env lib cfg
    by (simp_all add: PubkeyBackend_def PamBackend_def OidcBackend_def no_challenge)
  with b ch obtain lib where lib: "ae_pam a = Some lib" and "b = TotpBackend (PamBackend lib) (totp_env a)"
    unfolding build_registry_backends by (cases totp) auto
  with ch have "totp_authenticate (PamBackend lib) (totp_env a) conn creds = Ready (ChallengeV st ps)"
    by (simp add: TotpBackend_def)
  from totp_pending_sound [OF this assms(2)] have "pam_evidence lib conn creds u"
    by (intro pam_Allow_evidence) (simp add: PamBackend_def)
  with p lib show ?thesis by blast
qed

end
