(* ===== verification/Session.thy ===== *)
theory Session
  imports Frames Challenges Rust_Net "HOL-Library.AList" "HOL-Library.Sublist"
begin

text \<open>
  The channels of the server, \<^verbatim>\<open>quish-server/src/session.rs\<close>: the file transfers of the development
  server, the pumps between a process and a channel, and TCP forwarding with its table of parked
  connections.

  Sending a frame has one of three outcomes; a chunk is what one \<^verbatim>\<open>read\<close> returned.
\<close>

subsection \<open>Reading, writing and sending\<close>

datatype send_result = SentOk | HungUp | SendFailed

text \<open>\<^verbatim>\<open>read_loop\<close> over the results of its reads: the chunks up to the first empty one or error.  The
  receiver takes at most \<open>alive\<close> of them before it is dropped.\<close>

fun read_loop :: "nat \<Rightarrow> (unit + byte list) list \<Rightarrow> byte list list" where
  "read_loop alive [] = []"
| "read_loop alive (Inl _ # _) = []"
| "read_loop 0 (Inr _ # _) = []"
| "read_loop (Suc alive) (Inr chunk # rest) = (if chunk = [] then [] else chunk # read_loop alive rest)"

text \<open>\<^verbatim>\<open>write_loop\<close> into a file with room for \<open>quota\<close> bytes more; a failed write leaves what fitted.\<close>

fun write_loop :: "nat \<Rightarrow> byte list list \<Rightarrow> byte list" where
  "write_loop quota [] = []"
| "write_loop quota (bytes # rest) =
     (if length bytes \<le> quota then bytes @ write_loop (quota - length bytes) rest else take quota bytes)"

text \<open>Sending chunks as frames until one does not go through; the chunks left are those never taken
  from the queue.\<close>

datatype PumpEnd = Drained | ClientGone

fun send_chunks :: "send_result list \<Rightarrow> byte list list \<Rightarrow> ChannelMessage list \<times> (unit + PumpEnd) \<times> byte list list \<times> send_result list" where
  "send_chunks rs [] = ([], Inr Drained, [], rs)"
| "send_chunks [] (c # cs) = (case send_chunks [] cs of (sent, e, left, rs) \<Rightarrow> (Data c # sent, e, left, rs))"
| "send_chunks (SentOk # rs) (c # cs) = (case send_chunks rs cs of (sent, e, left, rs) \<Rightarrow> (Data c # sent, e, left, rs))"
| "send_chunks (HungUp # rs) (c # cs) = ([], Inr ClientGone, cs, rs)"
| "send_chunks (SendFailed # rs) (c # cs) = ([], Inl (), cs, rs)"

subsection \<open>File transfers of the development server\<close>

text \<open>A file as the transfer finds it: what its reads return if it is regular.\<close>

datatype opened = NoFile | NotRegularFile | Regular "(unit + byte list) list"

definition QUEUE :: nat where
  "QUEUE = 64"

text \<open>The frames sent and how the transfer ends.  The reader thread is joined with the queue still
  open: once the client is gone and more chunks are left than the queue holds it never returns.\<close>

definition transfer :: "opened \<Rightarrow> send_result list \<Rightarrow> (ChannelMessage list \<times> (unit + unit)) poll" where
  "transfer f rs =
     (let chunks = (case f of Regular reads \<Rightarrow> read_loop (length reads) reads | _ \<Rightarrow> []);
          code = (case f of Regular _ \<Rightarrow> 0 | _ \<Rightarrow> 1)
      in case send_chunks rs chunks of
           (sent, Inl e, _, _) \<Rightarrow> Ready (sent, Inl e)
         | (sent, Inr ClientGone, left, _) \<Rightarrow> if length left > QUEUE then Pending else Ready (sent, Inr ())
         | (sent, Inr Drained, _, rs) \<Rightarrow> (case rs of
               SendFailed # _ \<Rightarrow> Ready (sent, Inl ())
             | HungUp # _ \<Rightarrow> Ready (sent, Inr ())
             | _ \<Rightarrow> Ready (sent @ [ExitStatus code], Inr ())))"

text \<open>The frames the reader task passes on: those before the first that cannot be read.  An upload
  takes its \<^const>\<open>Data\<close> frames; the end of them is the end of the file, whatever ended them.\<close>

fun frame_data :: "ChannelMessage list \<Rightarrow> byte list list" where
  "frame_data [] = []"
| "frame_data (Data d # ms) = d # frame_data ms"
| "frame_data (_ # ms) = frame_data ms"

datatype target_file = CannotOpen | SpecialFile | WritableFile nat

definition transfer_write :: "target_file \<Rightarrow> ChannelMessage list \<Rightarrow> 32 word \<times> byte list option" where
  "transfer_write f frames = (case f of
       WritableFile quota \<Rightarrow> (0, Some (write_loop quota (frame_data frames)))
     | _ \<Rightarrow> (1, None))"

datatype mkdir_result = MkdirOk | AlreadyExists | MkdirFailed

definition mkdir :: "mkdir_result \<Rightarrow> bool \<Rightarrow> 32 word" where
  "mkdir r is_dir = (case r of
       MkdirOk \<Rightarrow> 0
     | AlreadyExists \<Rightarrow> if is_dir then 0 else 1
     | MkdirFailed \<Rightarrow> 1)"

subsection \<open>The pump of a command\<close>

text \<open>What is still to come from the process and the client, what has gone to each, and the flags of
  the loop.  The queues between are not bounded here.\<close>

record PumpState =
  from_client :: "ChannelMessage list"
  out_left :: "byte list list"
  err_left :: "byte list list"
  stdin_open :: bool
  out_done :: bool
  err_done :: bool
  frames_done :: bool
  to_client :: "ChannelMessage list"
  to_stdin :: "byte list list"
  to_signals :: "Signal list"
  resizes :: "(u16 \<times> u16) list"
  pump_end :: "(unit + PumpEnd) option"

definition pump_start :: "ChannelMessage list \<Rightarrow> byte list list \<Rightarrow> byte list list \<Rightarrow> PumpState" where
  "pump_start frames out err = \<lparr>from_client = frames, out_left = out, err_left = err, stdin_open = True, out_done = False,
     err_done = False, frames_done = False, to_client = [], to_stdin = [], to_signals = [], resizes = [], pump_end = None\<rparr>"

text \<open>Sending one frame of output.\<close>

definition pump_send :: "send_result \<Rightarrow> ChannelMessage \<Rightarrow> PumpState \<Rightarrow> PumpState" where
  "pump_send r msg s = (case r of
       SentOk \<Rightarrow> s\<lparr>to_client := to_client s @ [msg]\<rparr>
     | HungUp \<Rightarrow> s\<lparr>pump_end := Some (Inr ClientGone)\<rparr>
     | SendFailed \<Rightarrow> s\<lparr>pump_end := Some (Inl ())\<rparr>)"

text \<open>The branches of the \<^verbatim>\<open>select!\<close> of \<^verbatim>\<open>pump_exec\<close>.\<close>

definition on_out :: "send_result \<Rightarrow> PumpState \<Rightarrow> PumpState" where
  "on_out r s = (case out_left s of
       [] \<Rightarrow> s\<lparr>out_done := True\<rparr>
     | c # cs \<Rightarrow> pump_send r (Data c) (s\<lparr>out_left := cs\<rparr>))"

definition on_err :: "send_result \<Rightarrow> PumpState \<Rightarrow> PumpState" where
  "on_err r s = (case err_left s of
       [] \<Rightarrow> s\<lparr>err_done := True\<rparr>
     | c # cs \<Rightarrow> pump_send r (DataErr c) (s\<lparr>err_left := cs\<rparr>))"

definition on_frame :: "PumpState \<Rightarrow> PumpState" where
  "on_frame s = (case from_client s of
       [] \<Rightarrow> s\<lparr>frames_done := True, stdin_open := False\<rparr>
     | msg # ms \<Rightarrow>
         (let s = s\<lparr>from_client := ms\<rparr> in case msg of
            Data d \<Rightarrow> if stdin_open s then s\<lparr>to_stdin := to_stdin s @ [d]\<rparr> else s
          | SignalMsg sig \<Rightarrow> s\<lparr>to_signals := to_signals s @ [sig]\<rparr>
          | _ \<Rightarrow> s))"

definition check_drained :: "PumpState \<Rightarrow> PumpState" where
  "check_drained s = (if pump_end s = None \<and> out_done s \<and> err_done s then s\<lparr>pump_end := Some (Inr Drained)\<rparr> else s)"

inductive exec_step :: "PumpState \<Rightarrow> PumpState \<Rightarrow> bool" where
  Out: "pump_end s = None \<Longrightarrow> \<not> out_done s \<Longrightarrow> exec_step s (check_drained (on_out r s))"
| Err: "pump_end s = None \<Longrightarrow> \<not> err_done s \<Longrightarrow> exec_step s (check_drained (on_err r s))"
| Frame: "pump_end s = None \<Longrightarrow> \<not> frames_done s \<Longrightarrow> exec_step s (check_drained (on_frame s))"

inductive exec_run :: "PumpState \<Rightarrow> PumpState \<Rightarrow> bool" for start where
  Start: "exec_run start start"
| Step: "exec_run start s \<Longrightarrow> exec_step s s' \<Longrightarrow> exec_run start s'"

text \<open>What follows the pump: the status when the output was drained, the end of the channel otherwise.\<close>

definition finish_session :: "32 word \<Rightarrow> (unit + PumpEnd) \<Rightarrow> unit + ChannelMessage list" where
  "finish_session code e = (case e of
       Inl err \<Rightarrow> Inl err
     | Inr Drained \<Rightarrow> Inr [ExitStatus code]
     | Inr ClientGone \<Rightarrow> Inr [])"

subsection \<open>The pump of a shell\<close>

text \<open>The output of a terminal is one stream, and its end is the end of the shell.\<close>

definition shell_out :: "send_result \<Rightarrow> PumpState \<Rightarrow> PumpState" where
  "shell_out r s = (case out_left s of
       [] \<Rightarrow> s\<lparr>pump_end := Some (Inr Drained)\<rparr>
     | c # cs \<Rightarrow> pump_send r (Data c) (s\<lparr>out_left := cs\<rparr>))"

definition shell_frame :: "PumpState \<Rightarrow> PumpState" where
  "shell_frame s = (case from_client s of
       [] \<Rightarrow> s\<lparr>frames_done := True, stdin_open := False\<rparr>
     | msg # ms \<Rightarrow>
         (let s = s\<lparr>from_client := ms\<rparr> in case msg of
            Data d \<Rightarrow> if stdin_open s then s\<lparr>to_stdin := to_stdin s @ [d]\<rparr> else s
          | Resize cols rows \<Rightarrow> s\<lparr>resizes := resizes s @ [(cols, rows)]\<rparr>
          | _ \<Rightarrow> s))"

inductive shell_step :: "PumpState \<Rightarrow> PumpState \<Rightarrow> bool" where
  Out: "pump_end s = None \<Longrightarrow> shell_step s (shell_out r s)"
| Frame: "pump_end s = None \<Longrightarrow> \<not> frames_done s \<Longrightarrow> shell_step s (shell_frame s)"

inductive shell_run :: "PumpState \<Rightarrow> PumpState \<Rightarrow> bool" for start where
  Start: "shell_run start start"
| Step: "shell_run start s \<Longrightarrow> shell_step s s' \<Longrightarrow> shell_run start s'"

subsection \<open>Forwarding\<close>

text \<open>Whether and where a forward connects; \<open>lookup_host\<close> resolves, \<open>connect\<close> dials.\<close>

datatype forward_result = ForwardRefused | ForwardTo SocketAddr

definition serve_forward ::
  "bool \<Rightarrow> (string \<Rightarrow> u16 \<Rightarrow> SocketAddr list option) \<Rightarrow> (SocketAddr \<Rightarrow> bool) \<Rightarrow> string \<Rightarrow> u16 \<Rightarrow> forward_result" where
  "serve_forward allow_forward lookup_host connect host port =
     (if \<not> allow_forward then ForwardRefused
      else case lookup_host host port of
          None \<Rightarrow> ForwardRefused
        | Some addrs \<Rightarrow>
            if addrs = [] \<or> \<not> list_all (\<lambda>a. is_loopback (fst a)) addrs then ForwardRefused
            else let target = addrs ! 0 in if connect target then ForwardTo target else ForwardRefused)"

text \<open>The pump of a forward: what the service sends goes out as \<^const>\<open>Data\<close>, the client's \<^const>\<open>Data\<close>
  to the service, until both ends are done or the client hangs up.\<close>

definition forward_frame :: "bool \<Rightarrow> PumpState \<Rightarrow> PumpState" where
  "forward_frame wrote s = (case from_client s of
       [] \<Rightarrow> s\<lparr>frames_done := True, stdin_open := False\<rparr>
     | msg # ms \<Rightarrow>
         (let s = s\<lparr>from_client := ms\<rparr> in case msg of
            Data d \<Rightarrow> if wrote then s\<lparr>to_stdin := to_stdin s @ [d]\<rparr> else s\<lparr>frames_done := True\<rparr>
          | _ \<Rightarrow> s))"

definition check_forward :: "PumpState \<Rightarrow> PumpState" where
  "check_forward s = (if pump_end s = None \<and> out_done s \<and> frames_done s then s\<lparr>pump_end := Some (Inr Drained)\<rparr> else s)"

inductive forward_step :: "PumpState \<Rightarrow> PumpState \<Rightarrow> bool" where
  Out: "pump_end s = None \<Longrightarrow> \<not> out_done s \<Longrightarrow> forward_step s (check_forward (on_out r s))"
| Frame: "pump_end s = None \<Longrightarrow> \<not> frames_done s \<Longrightarrow> forward_step s (check_forward (forward_frame wrote s))"

subsection \<open>Remote forwarding\<close>

definition PARK_TIMEOUT :: nanos where
  "PARK_TIMEOUT = secs 30"

definition MAX_PARKED :: nat where
  "MAX_PARKED = 128"

text \<open>The parked connections by reference, each with the connection it belongs to; a socket is a
  number.\<close>

record Parking =
  parked :: "(u64 \<times> conn_id \<times> nat) list"
  next_conn_ref :: u64

definition Parking_new :: Parking where
  "Parking_new = \<lparr>parked = [], next_conn_ref = 1\<rparr>"

definition park_conn :: "conn_id \<Rightarrow> nat \<Rightarrow> Parking \<Rightarrow> u64 option \<times> Parking" where
  "park_conn c tcp s =
     (let cref = next_conn_ref s; s = s\<lparr>next_conn_ref := cref + 1\<rparr> in
      if length (parked s) \<ge> MAX_PARKED then (None, s)
      else (Some cref, s\<lparr>parked := AList.update cref (c, tcp) (parked s)\<rparr>))"

definition expire_conn :: "u64 \<Rightarrow> Parking \<Rightarrow> Parking" where
  "expire_conn cref s = s\<lparr>parked := AList.delete cref (parked s)\<rparr>"

definition take_conn :: "conn_id \<Rightarrow> u64 \<Rightarrow> Parking \<Rightarrow> nat option \<times> Parking" where
  "take_conn c cref s = (case map_of (parked s) cref of
       Some (c', tcp) \<Rightarrow> if c' = c then (Some tcp, s\<lparr>parked := AList.delete cref (parked s)\<rparr>) else (None, s)
     | None \<Rightarrow> (None, s))"

definition remote_bind_allowed :: "u16 \<Rightarrow> SocketAddr list \<Rightarrow> bool" where
  "remote_bind_allowed port addrs \<longleftrightarrow> port \<ge> 1024 \<and> addrs \<noteq> [] \<and> list_all (\<lambda>a. is_loopback (fst a)) addrs"

text \<open>Where a listen request binds, if it does.\<close>

definition remote_listen_addr ::
  "bool \<Rightarrow> (string \<Rightarrow> u16 \<Rightarrow> SocketAddr list option) \<Rightarrow> (SocketAddr \<Rightarrow> bool) \<Rightarrow> string \<Rightarrow> u16 \<Rightarrow> SocketAddr option" where
  "remote_listen_addr allow_remote_forward lookup_host can_bind bind port =
     (if \<not> allow_remote_forward then None
      else case lookup_host bind port of
          None \<Rightarrow> None
        | Some addrs \<Rightarrow>
            if \<not> remote_bind_allowed port addrs then None
            else if can_bind (addrs ! 0) then Some (addrs ! 0) else None)"

text \<open>The loop of a listener over what it waits for: a connection with the outcome of signalling it,
  an accept error, or a frame of the client.  The references signalled come with the table after.\<close>

datatype listen_event = Accepted nat send_result | AcceptFailed | ClientFrame bool

fun listen_loop :: "conn_id \<Rightarrow> listen_event list \<Rightarrow> Parking \<Rightarrow> u64 list \<times> Parking" where
  "listen_loop c [] s = ([], s)"
| "listen_loop c (Accepted tcp r # evs) s = (case park_conn c tcp s of
     (None, s) \<Rightarrow> listen_loop c evs s
   | (Some cref, s) \<Rightarrow> (case r of
       SentOk \<Rightarrow> (case listen_loop c evs s of (refs, s) \<Rightarrow> (cref # refs, s))
     | HungUp \<Rightarrow> ([], snd (take_conn c cref s))
     | SendFailed \<Rightarrow> ([], s)))"
| "listen_loop c (AcceptFailed # _) s = ([], s)"
| "listen_loop c (ClientFrame is_end # evs) s = (if is_end then ([], s) else listen_loop c evs s)"

definition serve_remote_forward_data :: "conn_id \<Rightarrow> u64 \<Rightarrow> Parking \<Rightarrow> nat option \<times> Parking" where
  "serve_remote_forward_data c cref s = take_conn c cref s"

subsection \<open>Lemmas on the pumps\<close>

fun err_data :: "ChannelMessage list \<Rightarrow> byte list list" where
  "err_data [] = []"
| "err_data (DataErr d # ms) = d # err_data ms"
| "err_data (_ # ms) = err_data ms"

fun signals_of :: "ChannelMessage list \<Rightarrow> Signal list" where
  "signals_of [] = []"
| "signals_of (SignalMsg sig # ms) = sig # signals_of ms"
| "signals_of (_ # ms) = signals_of ms"

lemma frame_data_append [simp]:
  "frame_data (xs @ ys) = frame_data xs @ frame_data ys" "err_data (xs @ ys) = err_data xs @ err_data ys"
  by (induction xs rule: frame_data.induct) simp_all

text \<open>Nothing is lost or reordered while the pump runs, and when it has drained the output.\<close>

definition exec_inv :: "ChannelMessage list \<Rightarrow> byte list list \<Rightarrow> byte list list \<Rightarrow> PumpState \<Rightarrow> bool" where
  "exec_inv frames out err s \<longleftrightarrow>
     (pump_end s = None \<or> pump_end s = Some (Inr Drained) \<longrightarrow>
        frame_data (to_client s) @ out_left s = out \<and> err_data (to_client s) @ err_left s = err)
     \<and> (out_done s \<longrightarrow> out_left s = []) \<and> (err_done s \<longrightarrow> err_left s = [])
     \<and> (pump_end s = Some (Inr Drained) \<longrightarrow> out_done s \<and> err_done s)
     \<and> (stdin_open s \<longleftrightarrow> \<not> frames_done s) \<and> (frames_done s \<longrightarrow> from_client s = [])
     \<and> to_stdin s @ frame_data (from_client s) = frame_data frames
     \<and> to_signals s @ signals_of (from_client s) = signals_of frames"

lemma exec_inv_check: "exec_inv frames out err s \<Longrightarrow> exec_inv frames out err (check_drained s)"
  by (auto simp: exec_inv_def check_drained_def)

lemma exec_inv_out:
  "exec_inv frames out err s \<Longrightarrow> pump_end s = None \<Longrightarrow> \<not> out_done s \<Longrightarrow> exec_inv frames out err (on_out r s)"
  by (cases "out_left s"; cases r) (auto simp: exec_inv_def on_out_def pump_send_def)

lemma exec_inv_err:
  "exec_inv frames out err s \<Longrightarrow> pump_end s = None \<Longrightarrow> \<not> err_done s \<Longrightarrow> exec_inv frames out err (on_err r s)"
  by (cases "err_left s"; cases r) (auto simp: exec_inv_def on_err_def pump_send_def)

lemma exec_inv_frame:
  assumes "exec_inv frames out err s" "pump_end s = None" "\<not> frames_done s"
  shows "exec_inv frames out err (on_frame s)"
proof (cases "from_client s")
  case Nil
  with assms show ?thesis by (auto simp: exec_inv_def on_frame_def)
next
  case (Cons msg ms)
  with assms show ?thesis by (cases msg) (auto simp: exec_inv_def on_frame_def)
qed

lemma exec_inv_step: "exec_step s s' \<Longrightarrow> exec_inv frames out err s \<Longrightarrow> exec_inv frames out err s'"
  by (induction rule: exec_step.induct) (simp_all add: exec_inv_check exec_inv_out exec_inv_err exec_inv_frame)

lemma exec_inv_run: "exec_run (pump_start frames out err) s \<Longrightarrow> exec_inv frames out err s"
proof (induction rule: exec_run.induct)
  case Start
  show ?case by (simp add: exec_inv_def pump_start_def)
qed (rule exec_inv_step)

text \<open>What the loop still has to do.\<close>

definition pump_work :: "PumpState \<Rightarrow> nat" where
  "pump_work s = length (from_client s) + length (out_left s) + length (err_left s)
     + (if out_done s then 0 else 1) + (if err_done s then 0 else 1) + (if frames_done s then 0 else 1)"

lemma exec_step_work: "exec_step s s' \<Longrightarrow> pump_work s' < pump_work s"
proof (induction rule: exec_step.induct)
  case (Out s r)
  then show ?case by (cases "out_left s"; cases r) (simp_all add: pump_work_def on_out_def pump_send_def check_drained_def)
next
  case (Err s r)
  then show ?case by (cases "err_left s"; cases r) (simp_all add: pump_work_def on_err_def pump_send_def check_drained_def)
next
  case (Frame s)
  show ?case
  proof (cases "from_client s")
    case Nil
    with Frame show ?thesis by (simp add: pump_work_def on_frame_def check_drained_def Let_def)
  next
    case (Cons msg ms)
    with Frame show ?thesis by (cases msg) (simp_all add: pump_work_def on_frame_def check_drained_def Let_def)
  qed
qed

text \<open>The pump can always go on until it ends.\<close>

lemma exec_progress:
  assumes "exec_run (pump_start frames out err) s" "pump_end s = None"
  shows "\<exists>s'. exec_step s s'"
proof -
  have "exec_run (pump_start frames out err) s \<Longrightarrow> out_done s \<and> err_done s \<longrightarrow> pump_end s \<noteq> None"
  proof (induction rule: exec_run.induct)
    case Start
    show ?case by (simp add: pump_start_def)
  next
    case (Step s s')
    from Step.hyps(2) show ?case
      by (cases rule: exec_step.cases) (auto simp: check_drained_def)
  qed
  then have "\<not> out_done s \<or> \<not> err_done s" using assms by blast
  then show ?thesis using assms(2) exec_step.Out exec_step.Err by blast
qed

subsection \<open>Lemmas on transfers\<close>

lemma send_chunks_ok: "send_chunks [] cs = (map Data cs, Inr Drained, [], [])"
  by (induction cs) simp_all

lemma read_loop_all:
  "list_all (\<lambda>c. c \<noteq> []) cs \<Longrightarrow> length cs \<le> n \<Longrightarrow> read_loop n (map Inr cs @ tail) = cs @ read_loop (n - length cs) tail"
proof (induction cs arbitrary: n)
  case (Cons c cs)
  then show ?case by (cases n) simp_all
qed simp

lemma write_loop_fits: "length (concat cs) \<le> quota \<Longrightarrow> write_loop quota cs = concat cs"
  by (induction quota cs rule: write_loop.induct) simp_all

lemma frame_data_map [simp]: "frame_data (map Data cs) = cs"
  by (induction cs) simp_all

text \<open>An upload that does not fit reports success all the same.\<close>

lemma short_upload_reports_success:
  "transfer_write (WritableFile 2) [Data [1, 2, 3]] = (0, Some [1, 2])"
  by code_simp

text \<open>So does a download cut short by a read error.\<close>

lemma failed_read_reports_success:
  "transfer (Regular [Inr [1], Inl ()]) [] = Ready ([Data [1], ExitStatus 0], Inr ())"
  by code_simp

text \<open>A client that hangs up on a long download leaves the transfer waiting for its reader.\<close>

lemma hangup_blocks_transfer:
  "transfer (Regular (replicate 66 (Inr [1]))) [HungUp] = Pending"
  by code_simp

subsection \<open>Lemmas on parked connections\<close>

definition parking_ok :: "Parking \<Rightarrow> bool" where
  "parking_ok s \<longleftrightarrow> distinct (map fst (parked s)) \<and> length (parked s) \<le> MAX_PARKED"

definition parked_for :: "Parking \<Rightarrow> conn_id \<Rightarrow> u64 \<Rightarrow> nat \<Rightarrow> bool" where
  "parked_for s c cref tcp \<longleftrightarrow> map_of (parked s) cref = Some (c, tcp)"

lemma take_conn_Some [store_simps]: "fst (take_conn c cref s) = Some tcp \<longleftrightarrow> parked_for s c cref tcp"
  by (auto simp: take_conn_def parked_for_def split: option.splits prod.splits)

lemma take_conn_map [store_simps]:
  "map_of (parked (snd (take_conn c cref s))) =
     (if \<exists>tcp. parked_for s c cref tcp then (map_of (parked s))(cref := None) else map_of (parked s))"
  by (auto simp: take_conn_def parked_for_def AList.delete_conv split: option.splits prod.splits)

interpretation pk: claim_store take_conn parked_for
proof (unfold_locales, goal_cases)
  case (1 c k s v)
  then show ?case by (rule take_conn_Some)
next
  case (2 c k s v)
  then have "map_of (parked (snd (take_conn c k s))) k = None"
    by (auto simp: take_conn_Some take_conn_map)
  then show ?case by (simp add: take_conn_def [of c k "snd (take_conn c k s)"])
next
  case (3 c c' k s k' v)
  then show ?case by (auto simp: parked_for_def take_conn_map)
next
  case (4 c k s c' k' v)
  then show ?case by (auto simp: parked_for_def take_conn_map split: if_splits)
qed

text \<open>What can happen to the table: a connection is parked, claimed or expires.\<close>

datatype park_event = Park conn_id nat | Claim conn_id u64 | Expire u64

definition park_step :: "park_event \<Rightarrow> Parking \<Rightarrow> Parking" where
  "park_step e s = (case e of
       Park c tcp \<Rightarrow> snd (park_conn c tcp s)
     | Claim c cref \<Rightarrow> snd (take_conn c cref s)
     | Expire cref \<Rightarrow> expire_conn cref s)"

definition leaves :: "conn_id \<Rightarrow> u64 \<Rightarrow> park_event \<Rightarrow> bool" where
  "leaves c cref e = (case e of Park _ _ \<Rightarrow> True | Claim c' cref' \<Rightarrow> c' \<noteq> c \<or> cref' \<noteq> cref | Expire cref' \<Rightarrow> cref' \<noteq> cref)"

lemma delete_length: "length (AList.delete k xs) \<le> length xs"
  by (simp add: AList.delete_eq)

lemma update_length: "length (AList.update k v xs) \<le> Suc (length xs)"
  by (induction xs) auto

lemma parking_ok_step: "parking_ok s \<Longrightarrow> parking_ok (park_step e s)"
  by (cases e)
    (auto simp: parking_ok_def park_step_def park_conn_def take_conn_def expire_conn_def Let_def
      distinct_update distinct_delete not_le
      intro: order.trans [OF delete_length] order.trans [OF update_length] split: option.splits)

lemma parking_ok_fold: "parking_ok s \<Longrightarrow> parking_ok (fold park_step es s)"
  by (induction es arbitrary: s) (simp_all add: parking_ok_step)

lemma ref_not_reissued:
  assumes "Suc k < 2 ^ 64"
  shows "cref + 1 + of_nat k \<noteq> (cref :: u64)"
proof
  assume "cref + 1 + of_nat k = cref"
  then have "of_nat (Suc k) = (0 :: u64)" by (simp add: add.assoc)
  then have "unat (of_nat (Suc k) :: u64) = 0" by (simp only: unat_0)
  then show False using assms by (simp add: unat_of_nat del: of_nat_Suc)
qed

lemma parked_kept:
  assumes "parked_for s c cref tcp" "next_conn_ref s = cref + 1 + of_nat k"
    and "k + length es < 2 ^ 64 - 1" "list_all (leaves c cref) es"
  shows "parked_for (fold park_step es s) c cref tcp"
  using assms
proof (induction es arbitrary: s k)
  case (Cons e es)
  have fresh: "next_conn_ref s \<noteq> cref" using Cons.prems ref_not_reissued [of k cref] by simp
  show ?case
  proof (cases e)
    case (Park c' tcp')
    have "parked_for (park_step e s) c cref tcp"
      using Cons.prems(1) fresh by (auto simp: Park park_step_def park_conn_def parked_for_def Let_def update_conv)
    moreover have "next_conn_ref (park_step e s) = cref + 1 + of_nat (Suc k)"
      using Cons.prems(2) by (simp add: Park park_step_def park_conn_def Let_def algebra_simps)
    ultimately show ?thesis using Cons.IH [of "park_step e s" "Suc k"] Cons.prems(3,4) by simp
  next
    case (Claim c' cref')
    have "parked_for (park_step e s) c cref tcp"
      using Cons.prems(1,4) by (auto simp: Claim park_step_def leaves_def parked_for_def take_conn_map)
    moreover have "next_conn_ref (park_step e s) = next_conn_ref s"
      by (auto simp: Claim park_step_def take_conn_def split: option.split)
    ultimately show ?thesis using Cons.IH [of "park_step e s" k] Cons.prems by simp
  next
    case (Expire cref')
    have "parked_for (park_step e s) c cref tcp" "next_conn_ref (park_step e s) = next_conn_ref s"
      using Cons.prems(1,4)
      by (auto simp: Expire park_step_def leaves_def parked_for_def expire_conn_def AList.delete_conv)
    then show ?thesis using Cons.IH [of "park_step e s" k] Cons.prems by simp
  qed
qed simp

lemma parked_after_park:
  assumes "park_conn c tcp s = (Some cref, s')"
  shows "parked_for s' c cref tcp" "next_conn_ref s' = cref + 1 + of_nat 0"
  using assms by (auto simp: park_conn_def parked_for_def Let_def update_conv split: if_splits)

subsection \<open>Properties\<close>

text \<open>While a command runs, every byte it writes goes to the client on the stream it was
  written to and in order, every byte and signal of the client reaches the command in order; the pump
  cannot be stuck, every step brings it closer to its end, and when it ends normally nothing of the
  output is left behind.\<close>

lemma exec_pump_delivers_everything:
  assumes "exec_run (pump_start frames out err) s"
  shows "prefix (to_stdin s) (frame_data frames) \<and> prefix (to_signals s) (signals_of frames)
    \<and> (pump_end s = None \<longrightarrow> prefix (frame_data (to_client s)) out \<and> (\<exists>s'. exec_step s s'))
    \<and> (pump_end s = Some (Inr Drained) \<longrightarrow> frame_data (to_client s) = out \<and> err_data (to_client s) = err)
    \<and> (\<forall>s'. exec_step s s' \<longrightarrow> pump_work s' < pump_work s)"
proof -
  have inv: "exec_inv frames out err s" using assms by (rule exec_inv_run)
  then have "prefix (to_stdin s) (frame_data frames)" "prefix (to_signals s) (signals_of frames)"
    "pump_end s = None \<Longrightarrow> prefix (frame_data (to_client s)) out"
    unfolding exec_inv_def by (metis prefixI)+
  moreover from inv have "pump_end s = Some (Inr Drained) \<Longrightarrow> frame_data (to_client s) = out \<and> err_data (to_client s) = err"
    by (auto simp: exec_inv_def)
  ultimately show ?thesis using exec_progress [OF assms] exec_step_work by blast
qed

text \<open>C16: a connection parked for a client is there when that client claims it, whatever is parked,
  claimed or expires meanwhile; no other connection ever gets it, it is given out once, and the table
  never holds more than \<^const>\<open>MAX_PARKED\<close> connections.\<close>

theorem parked_connection_for_its_client:
  assumes "parking_ok s" "park_conn c tcp s = (Some cref, s')"
    and "list_all (leaves c cref) es" "length es < 2 ^ 64 - 1"
  shows "fst (serve_remote_forward_data c cref (fold park_step es s')) = Some tcp
    \<and> (\<forall>c'. c' \<noteq> c \<longrightarrow> fst (serve_remote_forward_data c' cref (fold park_step es s')) = None)
    \<and> fst (serve_remote_forward_data c cref (snd (serve_remote_forward_data c cref (fold park_step es s')))) = None
    \<and> length (parked (fold park_step es s')) \<le> MAX_PARKED"
proof -
  let ?t = "fold park_step es s'"
  have p: "parked_for ?t c cref tcp"
    using parked_kept [OF parked_after_park [OF assms(2)]] assms(3,4) by simp
  then have t: "fst (take_conn c cref ?t) = Some tcp" by (simp add: take_conn_Some)
  have "fst (take_conn c' cref ?t) = None" if "c' \<noteq> c" for c'
    using p that by (simp add: take_conn_def parked_for_def)
  moreover have "park_step (Park c tcp) s = s'" using assms(2) by (simp add: park_step_def)
  then have "parking_ok ?t" using parking_ok_fold parking_ok_step [OF assms(1), of "Park c tcp"] by simp
  ultimately show ?thesis using t pk.claim_once [OF t]
    by (simp add: serve_remote_forward_data_def parking_ok_def)
qed

lemma parked_connection_for_its_client_witness:
  "fst (serve_remote_forward_data 7 1 (fold park_step [Claim 8 1, Park 8 5, Expire 2]
     (snd (park_conn 7 4 Parking_new)))) = Some 4"
  using parked_connection_for_its_client
    [of Parking_new 7 4 1 "snd (park_conn 7 4 Parking_new)" "[Claim 8 1, Park 8 5, Expire 2]"]
  by (simp add: Parking_new_def parking_ok_def park_conn_def MAX_PARKED_def leaves_def)

end
