(* ===== verification/Privdrop.thy ===== *)
theory Privdrop
  imports Monitor Session
begin

text \<open>
  Giving up privileges, \<^verbatim>\<open>quish-server/src/privdrop.rs\<close>: the drop of the worker into its chroot and the
  session helper, which takes on the authenticated user and then runs a shell, serves or writes a
  file, or makes a directory.

  The kernel is a parameter; \<open>posix_ids\<close> says what the credential calls promise.
\<close>

subsection \<open>Processes and the kernel\<close>

text \<open>The identity of a process: real, effective and saved ids are always changed together here.\<close>

record Cred =
  cr_uid :: u32
  cr_gid :: u32
  cr_groups :: "u32 list"
  cr_root :: string
  cr_cwd :: string
  cr_session_leader :: bool
  cr_tty :: "string option"
  cr_no_new_privs :: bool
  cr_dies_with_parent :: bool

record Kernel =
  k_group_list :: "string \<Rightarrow> u32 \<Rightarrow> u32 list"
  k_initgroups :: "string \<Rightarrow> u32 \<Rightarrow> Cred \<Rightarrow> Cred option"
  k_setgroups :: "u32 list \<Rightarrow> Cred \<Rightarrow> Cred option"
  k_setgid :: "u32 \<Rightarrow> Cred \<Rightarrow> Cred option"
  k_setuid :: "u32 \<Rightarrow> Cred \<Rightarrow> Cred option"
  k_setsid :: "Cred \<Rightarrow> Cred option"
  k_open_tty :: "string \<Rightarrow> Cred \<Rightarrow> Cred option"
  k_chdir :: "string \<Rightarrow> Cred \<Rightarrow> Cred option"
  k_chroot :: "string \<Rightarrow> Cred \<Rightarrow> Cred option"
  k_set_no_new_privs :: "Cred \<Rightarrow> Cred option"
  k_set_pdeathsig :: "Cred \<Rightarrow> Cred option"
  k_open_read :: "Cred \<Rightarrow> string \<Rightarrow> byte list option option"
  k_open_write :: "Cred \<Rightarrow> string \<Rightarrow> u32 \<Rightarrow> bool option"
  k_mkdir :: "Cred \<Rightarrow> string \<Rightarrow> u32 \<Rightarrow> mkdir_result"
  k_is_dir :: "Cred \<Rightarrow> string \<Rightarrow> bool"
  k_copy_fails :: "byte list \<Rightarrow> nat option"
  k_execve :: "Cred \<Rightarrow> string \<Rightarrow> bool"

text \<open>Opening a file gives nothing when it fails, and no contents when the file is not regular; a copy
  either passes everything on or fails after some bytes.\<close>

subsection \<open>The worker\<close>

datatype drop_error = UnknownUser | WorkerIsRoot | SysFailed string | RootRegained

definition sys :: "string \<Rightarrow> 'a option \<Rightarrow> drop_error + 'a" where
  "sys what r = ok_or (SysFailed what) r"

definition drop_to_worker :: "(string \<Rightarrow> PwUser option) \<Rightarrow> Kernel \<Rightarrow> string \<Rightarrow> string \<Rightarrow> Cred \<Rightarrow> drop_error + Cred" where
  "drop_to_worker passwd k chroot_dir username c =
     rbind (ok_or UnknownUser (passwd username)) (\<lambda>user.
     if pw_uid user = 0 then Inl WorkerIsRoot
     else
       rbind (sys ''chroot'' (k_chroot k chroot_dir c)) (\<lambda>c.
       rbind (sys ''chdir'' (k_chdir k ''/'' c)) (\<lambda>c.
       rbind (sys ''setgroups'' (k_setgroups k [pw_gid user] c)) (\<lambda>c.
       rbind (sys ''setgid'' (k_setgid k (pw_gid user) c)) (\<lambda>c.
       rbind (sys ''setuid'' (k_setuid k (pw_uid user) c)) (\<lambda>c.
       rbind (sys ''no_new_privs'' (k_set_no_new_privs k c)) (\<lambda>c.
       rbind (sys ''pdeathsig'' (k_set_pdeathsig k c)) (\<lambda>c.
       if k_setuid k 0 c \<noteq> None then Inl RootRegained else Inr c))))))))"

subsection \<open>The session helper\<close>

datatype helper_error =
    HelperEnv env_error
  | NulByte string
  | HelperSys string
  | NotRegular
  | CopyFailed
  | ExecFailed

record Image =
  img_path :: string
  img_argv :: "string list"
  img_env :: "string list"

text \<open>What the helper does in the end, each with the identity it does it with.\<close>

datatype helper_act =
    ExecImage Cred Image
  | SendFile Cred string "byte list"
  | WriteFileAct Cred string u32 "byte list"
  | MakeDir Cred string u32

definition cstring :: "string \<Rightarrow> string \<Rightarrow> helper_error + string" where
  "cstring what s = (if CHR 0x00 \<in> set s then Inl (NulByte what) else Inr s)"

definition hsys :: "string \<Rightarrow> 'a option \<Rightarrow> helper_error + 'a" where
  "hsys what r = ok_or (HelperSys what) r"

definition henv :: "env_error + 'a \<Rightarrow> helper_error + 'a" where
  "henv r = (case r of Inl e \<Rightarrow> Inl (HelperEnv e) | Inr x \<Rightarrow> Inr x)"

text \<open>The identity boundary that every mode goes through: supplementary groups, group, user.\<close>

definition drop_to_user :: "Kernel \<Rightarrow> string \<Rightarrow> u32 \<Rightarrow> u32 \<Rightarrow> Cred \<Rightarrow> helper_error + Cred" where
  "drop_to_user k user gid uid c =
     rbind (cstring ''user'' user) (\<lambda>cuser.
     rbind (hsys ''initgroups'' (k_initgroups k cuser gid c)) (\<lambda>c.
     rbind (hsys ''setgid'' (k_setgid k gid c)) (\<lambda>c.
     hsys ''setuid'' (k_setuid k uid c))))"

definition try_chdir :: "Kernel \<Rightarrow> string option \<Rightarrow> Cred \<Rightarrow> Cred" where
  "try_chdir k dir c = (case Option.bind dir (\<lambda>d. k_chdir k d c) of Some c' \<Rightarrow> c' | None \<Rightarrow> c)"

definition as_user :: "Kernel \<Rightarrow> environ \<Rightarrow> Cred \<Rightarrow> helper_error + Cred" where
  "as_user k e c =
     rbind (henv (env_u32 e ENV_SESS_UID)) (\<lambda>uid.
     rbind (henv (env_u32 e ENV_SESS_GID)) (\<lambda>gid.
     rbind (henv (env_get e ENV_SESS_USER)) (\<lambda>user.
     rbind (drop_to_user k user gid uid c) (\<lambda>c. Inr (try_chdir k (e ENV_SESS_HOME) c)))))"

type_synonym helper_result = "helper_act list \<times> (helper_error + unit)"

definition run_transfer_helper :: "Kernel \<Rightarrow> environ \<Rightarrow> Cred \<Rightarrow> string \<Rightarrow> helper_result" where
  "run_transfer_helper k e c path = (case as_user k e c of
       Inl err \<Rightarrow> ([], Inl err)
     | Inr c \<Rightarrow> (case k_open_read k c path of
           None \<Rightarrow> ([], Inl (HelperSys ''open''))
         | Some None \<Rightarrow> ([], Inl NotRegular)
         | Some (Some contents) \<Rightarrow> (case k_copy_fails k contents of
               None \<Rightarrow> ([SendFile c path contents], Inr ())
             | Some n \<Rightarrow> ([SendFile c path (take n contents)], Inl CopyFailed))))"

text \<open>The mode is read before the identity changes; a missing one is reported first.\<close>

definition run_transfer_write_helper :: "Kernel \<Rightarrow> environ \<Rightarrow> Cred \<Rightarrow> byte list \<Rightarrow> string \<Rightarrow> helper_result" where
  "run_transfer_write_helper k e c stdin path =
     (case rbind (henv (env_u32 e ENV_SESS_UID)) (\<lambda>_. rbind (henv (env_u32 e ENV_SESS_GID)) (\<lambda>_.
           rbind (henv (env_get e ENV_SESS_USER)) (\<lambda>_. rbind (henv (env_u32 e ENV_SESS_TRANSFER_MODE)) (\<lambda>mode.
           rbind (as_user k e c) (\<lambda>c. Inr (mode, c)))))) of
       Inl err \<Rightarrow> ([], Inl err)
     | Inr (mode, c) \<Rightarrow> (case k_open_write k c path mode of
           None \<Rightarrow> ([], Inl (HelperSys ''open''))
         | Some regular \<Rightarrow>
             if \<not> regular then ([], Inl NotRegular)
             else case k_copy_fails k stdin of
                 None \<Rightarrow> ([WriteFileAct c path mode stdin], Inr ())
               | Some n \<Rightarrow> ([WriteFileAct c path mode (take n stdin)], Inl CopyFailed)))"

definition run_mkdir_helper :: "Kernel \<Rightarrow> environ \<Rightarrow> Cred \<Rightarrow> string \<Rightarrow> helper_result" where
  "run_mkdir_helper k e c path =
     (case rbind (henv (env_u32 e ENV_SESS_UID)) (\<lambda>_. rbind (henv (env_u32 e ENV_SESS_GID)) (\<lambda>_.
           rbind (henv (env_get e ENV_SESS_USER)) (\<lambda>_. rbind (henv (env_u32 e ENV_SESS_TRANSFER_MODE)) (\<lambda>mode.
           rbind (as_user k e c) (\<lambda>c. Inr (mode, c)))))) of
       Inl err \<Rightarrow> ([], Inl err)
     | Inr (mode, c) \<Rightarrow> (case k_mkdir k c path mode of
           MkdirOk \<Rightarrow> ([MakeDir c path mode], Inr ())
         | AlreadyExists \<Rightarrow> ([], if k_is_dir k c path then Inr () else Inl (HelperSys ''mkdir''))
         | MkdirFailed \<Rightarrow> ([], Inl (HelperSys ''mkdir''))))"

definition HELPER_KEYS :: "string list" where
  "HELPER_KEYS = [''HOME'', ''USER'', ''LOGNAME'', ''SHELL'', ''TERM'', ''PATH'']"

definition helper_env :: "string \<Rightarrow> string \<Rightarrow> string \<Rightarrow> string \<Rightarrow> string list" where
  "helper_env home user shell tm =
     [''HOME='' @ home, ''USER='' @ user, ''LOGNAME='' @ user, ''SHELL='' @ shell, ''TERM='' @ tm,
      ''PATH=/usr/local/bin:/usr/bin:/bin'']"

definition pam_entries :: "(string \<times> string) list \<Rightarrow> string list" where
  "pam_entries kvs = filter (\<lambda>s. CHR 0x00 \<notin> set s)
     (map (\<lambda>(k, v). k @ ''='' @ v) (filter (\<lambda>(k, v). k \<notin> set HELPER_KEYS) kvs))"

definition session_argv :: "string \<Rightarrow> string option \<Rightarrow> helper_error + string list" where
  "session_argv shell command = (case command of
       Some cmd \<Rightarrow> rbind (cstring ''command'' cmd) (\<lambda>cmd. Inr [shell, ''-c'', cmd])
     | None \<Rightarrow> let base = (case rsplit_once (CHR ''/'') shell of Some (_, b) \<Rightarrow> b | None \<Rightarrow> shell)
               in rbind (cstring ''argv0'' (''-'' @ base)) (\<lambda>a. Inr [a]))"

definition acquire_tty :: "Kernel \<Rightarrow> environ \<Rightarrow> Cred \<Rightarrow> helper_error + Cred" where
  "acquire_tty k e c = (case e ENV_SESS_TTY of
       Some tty \<Rightarrow> rbind (hsys ''setsid'' (k_setsid k c)) (\<lambda>c. hsys ''reopen tty'' (k_open_tty k tty c))
     | None \<Rightarrow> if e ENV_SESS_COMMAND \<noteq> None then hsys ''setsid (exec)'' (k_setsid k c) else Inr c)"

definition session_image :: "(string \<Rightarrow> 'be + byte list) \<Rightarrow> Kernel \<Rightarrow> environ \<Rightarrow> Cred \<Rightarrow> helper_error + Cred \<times> Image" where
  "session_image unb64 k e c =
     rbind (henv (env_u32 e ENV_SESS_UID)) (\<lambda>uid.
     rbind (henv (env_u32 e ENV_SESS_GID)) (\<lambda>gid.
     rbind (henv (env_get e ENV_SESS_USER)) (\<lambda>user.
     rbind (henv (env_get e ENV_SESS_HOME)) (\<lambda>home.
     rbind (henv (env_get e ENV_SESS_SHELL)) (\<lambda>shell.
       let tm = (case e ENV_SESS_TERM of Some t \<Rightarrow> t | None \<Rightarrow> ''xterm'') in
     rbind (acquire_tty k e c) (\<lambda>c.
     rbind (drop_to_user k user gid uid c) (\<lambda>c.
       let c = try_chdir k (Some home) c in
     rbind (cstring ''shell'' shell) (\<lambda>shell.
     rbind (session_argv shell (e ENV_SESS_COMMAND)) (\<lambda>argv.
       let pam = (case e ENV_SESS_PAM_ENV of Some enc \<Rightarrow> pam_entries (decode_pam_env unb64 enc) | None \<Rightarrow> [])
       in if list_all (\<lambda>s. CHR 0x00 \<notin> set s) (helper_env home user shell tm)
          then Inr (c, \<lparr>img_path = shell, img_argv = argv, img_env = pam @ helper_env home user shell tm\<rparr>)
          else Inl (NulByte ''env''))))))))))"

definition run_session_helper ::
  "(string \<Rightarrow> 'be + byte list) \<Rightarrow> Kernel \<Rightarrow> environ \<Rightarrow> byte list \<Rightarrow> Cred \<Rightarrow> helper_result" where
  "run_session_helper unb64 k e stdin c = (case e ENV_SESS_TRANSFER_PATH of
       Some path \<Rightarrow> run_transfer_helper k e c path
     | None \<Rightarrow> (case e ENV_SESS_TRANSFER_WRITE_PATH of
       Some path \<Rightarrow> run_transfer_write_helper k e c stdin path
     | None \<Rightarrow> (case e ENV_SESS_MKDIR_PATH of
       Some path \<Rightarrow> run_mkdir_helper k e c path
     | None \<Rightarrow> (case session_image unb64 k e c of
         Inl err \<Rightarrow> ([], Inl err)
       | Inr (c, img) \<Rightarrow>
           if k_execve k c (img_path img) then ([ExecImage c img], Inr ()) else ([], Inl ExecFailed)))))"

text \<open>The exit code of a helper that does not become another program.\<close>

definition helper_status :: "helper_result \<Rightarrow> 32 word" where
  "helper_status r = (case snd r of Inr _ \<Rightarrow> 0 | Inl _ \<Rightarrow> 1)"

subsection \<open>What the kernel promises\<close>

text \<open>The credential calls set what they are asked to set and leave the other ids alone, and only root
  changes to something new; the remaining calls do not touch the ids.\<close>

definition same_ids :: "Cred \<Rightarrow> Cred \<Rightarrow> bool" where
  "same_ids c c' \<longleftrightarrow> cr_uid c' = cr_uid c \<and> cr_gid c' = cr_gid c \<and> cr_groups c' = cr_groups c"

definition posix_ids :: "Kernel \<Rightarrow> bool" where
  "posix_ids k \<longleftrightarrow>
     (\<forall>user gid c c'. k_initgroups k user gid c = Some c' \<longrightarrow>
        cr_uid c = 0 \<and> cr_uid c' = cr_uid c \<and> cr_gid c' = cr_gid c \<and> cr_groups c' = k_group_list k user gid)
   \<and> (\<forall>gs c c'. k_setgroups k gs c = Some c' \<longrightarrow>
        cr_uid c = 0 \<and> cr_uid c' = cr_uid c \<and> cr_gid c' = cr_gid c \<and> cr_groups c' = gs)
   \<and> (\<forall>g c c'. k_setgid k g c = Some c' \<longrightarrow>
        (cr_uid c = 0 \<or> g = cr_gid c) \<and> cr_uid c' = cr_uid c \<and> cr_gid c' = g \<and> cr_groups c' = cr_groups c)
   \<and> (\<forall>u c c'. k_setuid k u c = Some c' \<longrightarrow>
        (cr_uid c = 0 \<or> u = cr_uid c) \<and> cr_uid c' = u \<and> cr_gid c' = cr_gid c \<and> cr_groups c' = cr_groups c)
   \<and> (\<forall>d c c'. k_chdir k d c = Some c' \<longrightarrow> same_ids c c')
   \<and> (\<forall>c c'. k_set_no_new_privs k c = Some c' \<longrightarrow> same_ids c c')
   \<and> (\<forall>c c'. k_set_pdeathsig k c = Some c' \<longrightarrow> same_ids c c')"

definition has_ids :: "Kernel \<Rightarrow> string \<Rightarrow> u32 \<Rightarrow> u32 \<Rightarrow> Cred \<Rightarrow> bool" where
  "has_ids k user gid uid c \<longleftrightarrow> cr_uid c = uid \<and> cr_gid c = gid \<and> cr_groups c = k_group_list k user gid"

fun act_cred :: "helper_act \<Rightarrow> Cred" where
  "act_cred (ExecImage c _) = c"
| "act_cred (SendFile c _ _) = c"
| "act_cred (WriteFileAct c _ _ _) = c"
| "act_cred (MakeDir c _ _) = c"

text \<open>What a program finds under a name in its environment.\<close>

fun getenv :: "string list \<Rightarrow> string \<Rightarrow> string option" where
  "getenv [] key = None"
| "getenv (s # ss) key = (case split_once (CHR ''='') s of
     Some (k, v) \<Rightarrow> if k = key then Some v else getenv ss key
   | None \<Rightarrow> getenv ss key)"

subsection \<open>Lemmas\<close>

lemma hsys_Inr [simp]: "hsys what r = Inr x \<longleftrightarrow> r = Some x"
  by (simp add: hsys_def ok_or_def split: option.split)

lemma sys_Inr [simp]: "sys what r = Inr x \<longleftrightarrow> r = Some x"
  by (simp add: sys_def ok_or_def split: option.split)

lemma henv_Inr [simp]: "henv r = Inr x \<longleftrightarrow> r = Inr x"
  by (cases r) (simp_all add: henv_def)

lemma cstring_Inr [simp]: "cstring what s = Inr s' \<longleftrightarrow> s' = s \<and> CHR 0x00 \<notin> set s"
  by (auto simp: cstring_def)

lemma chdir_ids: "posix_ids k \<Longrightarrow> k_chdir k d c = Some c' \<Longrightarrow> same_ids c c'"
  unfolding posix_ids_def by blast

lemma try_chdir_ids:
  assumes "posix_ids k"
  shows "has_ids k user gid uid (try_chdir k d c) \<longleftrightarrow> has_ids k user gid uid c"
proof -
  have "same_ids c (try_chdir k d c)"
    using chdir_ids [OF assms] by (auto simp: try_chdir_def same_ids_def bind_eq_Some_conv split: option.split)
  then show ?thesis by (simp add: same_ids_def has_ids_def)
qed

lemma drop_to_user_ids:
  assumes "posix_ids k" "drop_to_user k user gid uid c = Inr c'"
  shows "has_ids k user gid uid c'"
proof -
  from assms(2) obtain c1 c2 where "k_initgroups k user gid c = Some c1" "k_setgid k gid c1 = Some c2"
    "k_setuid k uid c2 = Some c'" by (auto simp: drop_to_user_def)
  with assms(1) show ?thesis by (simp add: posix_ids_def has_ids_def)
qed

lemma as_user_ids:
  assumes "posix_ids k" "as_user k e c = Inr c'"
    and "env_u32 e ENV_SESS_UID = Inr uid" "env_u32 e ENV_SESS_GID = Inr gid" "e ENV_SESS_USER = Some user"
  shows "has_ids k user gid uid c'"
proof -
  from assms obtain c1 where "drop_to_user k user gid uid c = Inr c1" "c' = try_chdir k (e ENV_SESS_HOME) c1"
    by (auto simp: as_user_def env_get_def)
  then show ?thesis using drop_to_user_ids assms(1) try_chdir_ids by blast
qed

lemma session_image_cases:
  assumes "session_image unb64 k e c = Inr (c', img)"
    and "env_u32 e ENV_SESS_UID = Inr uid" "env_u32 e ENV_SESS_GID = Inr gid" "e ENV_SESS_USER = Some user"
    and "e ENV_SESS_HOME = Some home"
  obtains c1 c2 shell tm pam where "drop_to_user k user gid uid c1 = Inr c2" "c' = try_chdir k (Some home) c2"
    "e ENV_SESS_SHELL = Some shell" "img_path img = shell" "session_argv shell (e ENV_SESS_COMMAND) = Inr (img_argv img)"
    "img_env img = pam_entries pam @ helper_env home user shell tm"
    "\<forall>(k, v) \<in> set pam. CHR ''='' \<notin> set k"
proof -
  have keys: "\<forall>(k, v) \<in> set (decode_pam_env unb64 enc). CHR ''='' \<notin> set k" for enc
    by (auto simp: decode_pam_env_def List.map_filter_def dest: split_once_SomeD split: sum.splits if_splits)
  from assms obtain c1 c2 shell argv where *: "drop_to_user k user gid uid c1 = Inr c2" "e ENV_SESS_SHELL = Some shell"
    "session_argv shell (e ENV_SESS_COMMAND) = Inr argv"
    "c' = try_chdir k (Some home) c2" "img = \<lparr>img_path = shell, img_argv = argv,
      img_env = (case e ENV_SESS_PAM_ENV of Some enc \<Rightarrow> pam_entries (decode_pam_env unb64 enc) | None \<Rightarrow> [])
        @ helper_env home user shell (case e ENV_SESS_TERM of Some t \<Rightarrow> t | None \<Rightarrow> ''xterm'')\<rparr>"
    by (auto simp: session_image_def env_get_def Let_def split: if_splits)
  define pam where "pam = (case e ENV_SESS_PAM_ENV of Some enc \<Rightarrow> decode_pam_env unb64 enc | None \<Rightarrow> [])"
  have "img_env img = pam_entries pam @ helper_env home user shell (case e ENV_SESS_TERM of Some t \<Rightarrow> t | None \<Rightarrow> ''xterm'')"
    by (simp add: * pam_def pam_entries_def split: option.split)
  moreover have "\<forall>(k, v) \<in> set pam. CHR ''='' \<notin> set k"
    using keys by (cases "e ENV_SESS_PAM_ENV") (simp_all add: pam_def)
  ultimately show ?thesis using that [of c1 c2 shell pam] * by simp
qed

lemma getenv_append: "getenv (xs @ ys) key = (case getenv xs key of Some v \<Rightarrow> Some v | None \<Rightarrow> getenv ys key)"
  by (induction xs) (auto split: option.splits)

lemma getenv_pam:
  assumes "key \<in> set HELPER_KEYS" "\<forall>(k, v) \<in> set pam. CHR ''='' \<notin> set k"
  shows "getenv (pam_entries pam) key = None"
  using assms(2)
proof (induction pam)
  case (Cons kv pam)
  obtain k v where kv: "kv = (k, v)" by (cases kv)
  with Cons have "split_once (CHR ''='') (k @ ''='' @ v) = Some (k, v)" by (simp add: str_simps)
  with Cons kv assms(1) show ?case by (auto simp: pam_entries_def)
qed (simp add: pam_entries_def)

lemma getenv_helper:
  "getenv (helper_env home user shell tm) ''HOME'' = Some home"
  "getenv (helper_env home user shell tm) ''USER'' = Some user"
  "getenv (helper_env home user shell tm) ''LOGNAME'' = Some user"
  "getenv (helper_env home user shell tm) ''SHELL'' = Some shell"
  "getenv (helper_env home user shell tm) ''PATH'' = Some ''/usr/local/bin:/usr/bin:/bin''"
  by (simp_all add: helper_env_def split_once_def)

text \<open>What is handed over decides what the helper does with whose identity.\<close>

definition login_image :: "PwUser \<Rightarrow> Image \<Rightarrow> bool" where
  "login_image pw img \<longleftrightarrow>
     getenv (img_env img) ''HOME'' = Some (pw_dir pw) \<and> getenv (img_env img) ''USER'' = Some (pw_name pw)
     \<and> getenv (img_env img) ''LOGNAME'' = Some (pw_name pw) \<and> getenv (img_env img) ''SHELL'' = Some (img_path img)
     \<and> getenv (img_env img) ''PATH'' = Some ''/usr/local/bin:/usr/bin:/bin''"

lemma helper_acts_as:
  assumes k: "posix_ids k" and act: "act \<in> set (fst (run_session_helper unb64 k e stdin c))"
    and e: "env_u32 e ENV_SESS_UID = Inr uid" "env_u32 e ENV_SESS_GID = Inr gid" "e ENV_SESS_USER = Some user"
  shows "has_ids k user gid uid (act_cred act)"
proof -
  note as = as_user_ids [OF k _ e]
  have img: "has_ids k user gid uid c'" if "session_image unb64 k e c = Inr (c', im)" for c' im
  proof -
    from that obtain home where "e ENV_SESS_HOME = Some home" by (auto simp: session_image_def env_get_def e)
    from session_image_cases [OF that e this] show ?thesis
      using drop_to_user_ids [OF k] try_chdir_ids [OF k] by metis
  qed
  from act show ?thesis
    by (auto simp: run_session_helper_def run_transfer_helper_def run_transfer_write_helper_def run_mkdir_helper_def e
      dest: as img split: option.splits sum.splits prod.splits if_splits mkdir_result.splits)
qed

lemma helper_image:
  assumes "ExecImage c' img \<in> set (fst (run_session_helper unb64 k e stdin c))"
    and e: "env_u32 e ENV_SESS_UID = Inr uid" "env_u32 e ENV_SESS_GID = Inr gid"
      "e ENV_SESS_USER = Some (pw_name pw)" "e ENV_SESS_HOME = Some (pw_dir pw)"
  shows "login_image pw img \<and> e ENV_SESS_SHELL = Some (img_path img)
    \<and> session_argv (img_path img) (e ENV_SESS_COMMAND) = Inr (img_argv img)"
proof -
  from assms(1) have "session_image unb64 k e c = Inr (c', img)"
    by (auto simp: run_session_helper_def run_transfer_helper_def run_transfer_write_helper_def run_mkdir_helper_def
      split: option.splits sum.splits prod.splits if_splits mkdir_result.splits)
  from session_image_cases [OF this e] obtain c1 c2 shell tm pam where
    *: "e ENV_SESS_SHELL = Some shell" "img_path img = shell" "session_argv shell (e ENV_SESS_COMMAND) = Inr (img_argv img)"
    "img_env img = pam_entries pam @ helper_env (pw_dir pw) (pw_name pw) shell tm"
    and pam: "\<forall>(k, v) \<in> set pam. CHR ''='' \<notin> set k" .
  have "getenv (img_env img) key = getenv (helper_env (pw_dir pw) (pw_name pw) shell tm) key" if "key \<in> set HELPER_KEYS" for key
    using getenv_pam [OF that pam] by (simp add: * getenv_append)
  then show ?thesis using * by (simp add: login_image_def HELPER_KEYS_def getenv_helper)
qed

text \<open>A worker that has dropped its privileges cannot get them back.\<close>

lemma worker_cannot_regain_root:
  assumes "posix_ids k" "drop_to_worker passwd k dir username c = Inr c'"
  shows "\<exists>pw. passwd username = Some pw \<and> pw_uid pw \<noteq> 0 \<and> cr_uid c' = pw_uid pw \<and> cr_gid c' = pw_gid pw
    \<and> cr_groups c' = [pw_gid pw] \<and> k_setuid k 0 c' = None"
proof -
  from assms(2) obtain pw c1 c2 c3 c4 c5 c6 where "passwd username = Some pw" "pw_uid pw \<noteq> 0"
    and "k_chroot k dir c = Some c1" "k_chdir k ''/'' c1 = Some c2" "k_setgroups k [pw_gid pw] c2 = Some c3"
    "k_setgid k (pw_gid pw) c3 = Some c4" "k_setuid k (pw_uid pw) c4 = Some c5" "k_set_no_new_privs k c5 = Some c6"
    "k_set_pdeathsig k c6 = Some c'" "k_setuid k 0 c' = None"
    by (auto simp: drop_to_worker_def ok_or_def split: if_splits option.splits)
  with assms(1) show ?thesis by (auto simp: posix_ids_def same_ids_def)
qed

subsection \<open>From the monitor to the helper\<close>

definition login_shell :: "PwUser \<Rightarrow> string" where
  "login_shell pw = (if pw_shell pw = [] then ''/bin/sh'' else pw_shell pw)"

definition MODE_VARS :: "string list" where
  "MODE_VARS = [ENV_SESS_TRANSFER_PATH, ENV_SESS_TRANSFER_WRITE_PATH, ENV_SESS_MKDIR_PATH, ENV_SESS_COMMAND]"

definition handed_user :: "PwUser \<Rightarrow> environ \<Rightarrow> bool" where
  "handed_user pw e \<longleftrightarrow> env_u32 e ENV_SESS_UID = Inr (pw_uid pw) \<and> env_u32 e ENV_SESS_GID = Inr (pw_gid pw)
     \<and> e ENV_SESS_USER = Some (pw_name pw) \<and> e ENV_SESS_HOME = Some (pw_dir pw) \<and> e ENV_SESS_SHELL = Some (login_shell pw)"

fun handed_mode :: "Request \<Rightarrow> environ \<Rightarrow> bool" where
  "handed_mode (SpawnShell _ tm) e \<longleftrightarrow> (\<forall>v \<in> set MODE_VARS. e v = None)"
| "handed_mode (SpawnExec _ cmd) e \<longleftrightarrow>
     e ENV_SESS_TRANSFER_PATH = None \<and> e ENV_SESS_TRANSFER_WRITE_PATH = None \<and> e ENV_SESS_MKDIR_PATH = None
     \<and> e ENV_SESS_COMMAND = Some cmd"
| "handed_mode (SpawnTransfer _ path) e \<longleftrightarrow> e ENV_SESS_TRANSFER_PATH = Some path"
| "handed_mode (SpawnTransferWrite _ path mode) e \<longleftrightarrow>
     e ENV_SESS_TRANSFER_PATH = None \<and> e ENV_SESS_TRANSFER_WRITE_PATH = Some path
     \<and> env_u32 e ENV_SESS_TRANSFER_MODE = Inr mode"
| "handed_mode (SpawnMkdir _ path mode) e \<longleftrightarrow>
     e ENV_SESS_TRANSFER_PATH = None \<and> e ENV_SESS_TRANSFER_WRITE_PATH = None \<and> e ENV_SESS_MKDIR_PATH = Some path
     \<and> env_u32 e ENV_SESS_TRANSFER_MODE = Inr mode"
| "handed_mode _ e \<longleftrightarrow> False"

text \<open>The one act a request asks for.\<close>

fun fulfils :: "PwUser \<Rightarrow> Request \<Rightarrow> helper_act \<Rightarrow> bool" where
  "fulfils pw (SpawnShell _ tm) (ExecImage _ img) \<longleftrightarrow> login_image pw img \<and> img_path img = login_shell pw
     \<and> session_argv (login_shell pw) None = Inr (img_argv img)"
| "fulfils pw (SpawnExec _ cmd) (ExecImage _ img) \<longleftrightarrow> login_image pw img \<and> img_path img = login_shell pw
     \<and> img_argv img = [login_shell pw, ''-c'', cmd]"
| "fulfils pw (SpawnTransfer _ path) (SendFile _ path' _) \<longleftrightarrow> path' = path"
| "fulfils pw (SpawnTransferWrite _ path mode) (WriteFileAct _ path' mode' _) \<longleftrightarrow> path' = path \<and> mode' = mode"
| "fulfils pw (SpawnMkdir _ path mode) (MakeDir _ path' mode') \<longleftrightarrow> path' = path \<and> mode' = mode"
| "fulfils pw _ _ \<longleftrightarrow> False"

lemma parse_u32_show [simp]: "parse_u32 (show_nat (unat w)) = Some w"
  using parse_u32_show_nat [of w] by (simp add: trim_show_nat)

text \<open>The commands of the monitor hand over the user and the mode, if the monitor itself was not started
  with one of the mode variables.\<close>

lemma sess_env_neq:
  "ENV_SESS_TRANSFER_PATH \<notin> {ENV_SESS_UID, ENV_SESS_GID, ENV_SESS_USER, ENV_SESS_HOME, ENV_SESS_SHELL, ENV_SESS_TERM, ENV_SESS_TTY,
     ENV_SESS_PAM_ENV, ENV_SESS_TRANSFER_MODE, ENV_SESS_TRANSFER_WRITE_PATH, ENV_SESS_MKDIR_PATH, ENV_SESS_COMMAND}"
  "ENV_SESS_TRANSFER_WRITE_PATH \<notin> {ENV_SESS_UID, ENV_SESS_GID, ENV_SESS_USER, ENV_SESS_HOME, ENV_SESS_SHELL, ENV_SESS_TERM, ENV_SESS_TTY,
     ENV_SESS_PAM_ENV, ENV_SESS_TRANSFER_MODE, ENV_SESS_MKDIR_PATH, ENV_SESS_COMMAND}"
  "ENV_SESS_MKDIR_PATH \<notin> {ENV_SESS_UID, ENV_SESS_GID, ENV_SESS_USER, ENV_SESS_HOME, ENV_SESS_SHELL, ENV_SESS_TERM, ENV_SESS_TTY,
     ENV_SESS_PAM_ENV, ENV_SESS_TRANSFER_MODE, ENV_SESS_COMMAND}"
  "ENV_SESS_COMMAND \<notin> {ENV_SESS_UID, ENV_SESS_GID, ENV_SESS_USER, ENV_SESS_HOME, ENV_SESS_SHELL, ENV_SESS_TERM, ENV_SESS_TTY,
     ENV_SESS_PAM_ENV, ENV_SESS_TRANSFER_MODE}"
  "ENV_SESS_TRANSFER_MODE \<notin> {ENV_SESS_UID, ENV_SESS_GID, ENV_SESS_USER, ENV_SESS_HOME, ENV_SESS_SHELL}"
  "ENV_SESS_SHELL \<notin> {ENV_SESS_TERM, ENV_SESS_TTY, ENV_SESS_PAM_ENV}"
  by (simp_all add: sess_env_defs)

lemmas spawner_defs = spawn_shell_def spawn_exec_def spawn_transfer_def spawn_transfer_write_def spawn_mkdir_def
  lookup_user_def Let_def

text \<open>What a variable set on top of a command leaves as it was.\<close>

lemma set_env_get: "cmd_env (set_env k v c) x = (if x = k then Some v else cmd_env c x)"
  by (simp add: set_env_def)

lemma set_env_opt_get: "x \<noteq> k \<Longrightarrow> cmd_env (set_env_opt k v c) x = cmd_env c x"
  by (simp add: set_env_opt_def set_env_get split: option.split)

lemma set_stdio_get: "cmd_env (set_stdio i ou er c) = cmd_env c"
  by (simp add: set_stdio_def)

lemma session_command_get:
  "cmd_env (session_command e u) ENV_SESS_SHELL = Some (login_shell u)"
  "x \<notin> {ENV_SESS_UID, ENV_SESS_GID, ENV_SESS_USER, ENV_SESS_HOME, ENV_SESS_SHELL} \<Longrightarrow> cmd_env (session_command e u) x = None"
  by (simp_all add: session_command_def login_shell_def Let_def)

lemmas command_get = set_env_get set_env_opt_get set_stdio_get session_command_get

lemma handed_userI:
  assumes "runs_as c pw" "cmd_env c ENV_SESS_SHELL = Some (login_shell pw)"
  shows "handed_user pw (inherited ++ cmd_env c)"
  using assms by (simp add: runs_as_def handed_user_def env_u32_def env_get_def ok_or_def map_add_def)

lemma spawners_hand_over:
  assumes "\<forall>v \<in> set MODE_VARS. inherited v = None"
  shows "spawn_shell e user tm pe = Inr (child, fds) \<Longrightarrow> getpwnam e user = Some pw \<Longrightarrow>
      handed_user pw (inherited ++ cmd_env (child_cmd child)) \<and> handed_mode (SpawnShell c tm) (inherited ++ cmd_env (child_cmd child))"
    and "spawn_exec e user cmd pe = Inr (child, fds) \<Longrightarrow> getpwnam e user = Some pw \<Longrightarrow>
      handed_user pw (inherited ++ cmd_env (child_cmd child)) \<and> handed_mode (SpawnExec c cmd) (inherited ++ cmd_env (child_cmd child))"
    and "spawn_transfer e user path = Inr (child, fds) \<Longrightarrow> getpwnam e user = Some pw \<Longrightarrow>
      handed_user pw (inherited ++ cmd_env (child_cmd child)) \<and> handed_mode (SpawnTransfer c path) (inherited ++ cmd_env (child_cmd child))"
    and "spawn_transfer_write e user path mode = Inr (child, fds) \<Longrightarrow> getpwnam e user = Some pw \<Longrightarrow>
      handed_user pw (inherited ++ cmd_env (child_cmd child))
      \<and> handed_mode (SpawnTransferWrite c path mode) (inherited ++ cmd_env (child_cmd child))"
    and "spawn_mkdir e user path mode = Inr (child, fds) \<Longrightarrow> getpwnam e user = Some pw \<Longrightarrow>
      handed_user pw (inherited ++ cmd_env (child_cmd child))
      \<and> handed_mode (SpawnMkdir c path mode) (inherited ++ cmd_env (child_cmd child))"
  subgoal using assms sess_env_neq
    by (auto simp: spawner_defs MODE_VARS_def command_get intro!: handed_userI)
  subgoal using assms sess_env_neq
    by (auto simp: spawner_defs MODE_VARS_def command_get intro!: handed_userI)
  subgoal using assms sess_env_neq
    by (auto simp: spawner_defs MODE_VARS_def command_get intro!: handed_userI)
  subgoal using assms sess_env_neq
    by (auto simp: spawner_defs MODE_VARS_def command_get env_u32_def env_get_def ok_or_def intro!: handed_userI)
  subgoal using assms sess_env_neq
    by (auto simp: spawner_defs MODE_VARS_def command_get env_u32_def env_get_def ok_or_def intro!: handed_userI)
  done

lemma spawn_hands_over:
  assumes "handle e st req = Ready (st', resp, fds, effs)" "Spawn child \<in> set effs"
    and "\<forall>v \<in> set MODE_VARS. inherited v = None"
    and "spawn_conn req = Some c" "users st c = Some user" "getpwnam e user = Some pw"
  shows "handed_user pw (inherited ++ cmd_env (child_cmd child)) \<and> handed_mode req (inherited ++ cmd_env (child_cmd child))"
  using assms spawners_hand_over [OF assms(3)]
  by (cases req) (auto simp: spawn_with_pam_def spawn_plain_def Let_def alloc_def split: option.splits sum.splits)

lemma session_argv_command [simp]:
  "session_argv shell (Some cmd) = Inr argv \<longleftrightarrow> CHR 0x00 \<notin> set cmd \<and> argv = [shell, ''-c'', cmd]"
  by (auto simp: session_argv_def)

lemma helper_fulfils:
  assumes "act \<in> set (fst (run_session_helper unb64 k e stdin c))" "handed_user pw e" "handed_mode req e"
  shows "fulfils pw req act"
proof (cases act)
  case (ExecImage c' img)
  with assms(1) have i: "ExecImage c' img \<in> set (fst (run_session_helper unb64 k e stdin c))" by simp
  have "login_image pw img \<and> e ENV_SESS_SHELL = Some (img_path img)
    \<and> session_argv (img_path img) (e ENV_SESS_COMMAND) = Inr (img_argv img)"
    by (rule helper_image [OF i]) (use assms(2) in \<open>simp_all add: handed_user_def\<close>)
  moreover have "e ENV_SESS_TRANSFER_PATH = None" "e ENV_SESS_TRANSFER_WRITE_PATH = None" "e ENV_SESS_MKDIR_PATH = None"
    using i by (auto simp: run_session_helper_def run_transfer_helper_def run_transfer_write_helper_def run_mkdir_helper_def
      split: option.splits sum.splits prod.splits if_splits mkdir_result.splits)
  ultimately show ?thesis using assms(2,3) ExecImage
    by (cases req) (simp_all add: handed_user_def MODE_VARS_def)
qed (use assms in \<open>cases req; auto simp: run_session_helper_def run_transfer_helper_def run_transfer_write_helper_def
      run_mkdir_helper_def MODE_VARS_def split: option.splits sum.splits prod.splits if_splits mkdir_result.splits\<close>)+

subsection \<open>Properties\<close>

text \<open>C4: whatever a session helper does, be it running a shell or a command, reading or writing a
  file or making a directory, is what the request asked for and is done with the user id, the group id
  and the supplementary groups of the user whose authentication on that connection the monitor
  accepted; a shell or command gets home, names, shell and search path of that user, whatever PAM
  added to the environment.  The monitor was not started with a mode variable of the helper in its own
  environment.\<close>

theorem helper_acts_as_authenticated_user:
  assumes run: "mon_run st (s # tr)" "Spawn child \<in> set (sv_eff s)"
    and inherited: "\<forall>v \<in> set MODE_VARS. inherited v = None" and k: "posix_ids k"
    and act: "act \<in> set (fst (run_session_helper unb64 k (inherited ++ cmd_env (child_cmd child)) stdin c))"
  shows "\<exists>conn u pw. spawn_conn (sv_req s) = Some conn \<and> authenticated tr conn u \<and> getpwnam (sv_env s) u = Some pw
    \<and> has_ids k (pw_name pw) (pw_gid pw) (pw_uid pw) (act_cred act) \<and> fulfils pw (sv_req s) act"
proof -
  let ?e = "inherited ++ cmd_env (child_cmd child)"
  from mon_run_last [OF run(1)] obtain st0 where run0: "mon_run st0 tr"
    and h: "handle (sv_env s) st0 (sv_req s) = Ready (st, sv_resp s, sv_fds s, sv_eff s)" by blast
  from Spawn_only_by_spawn [OF h run(2)] obtain conn user pam where conn: "spawn_conn (sv_req s) = Some conn"
    and sp: "is_spawn (sv_env s) st0 conn user child pam (st, sv_resp s, sv_fds s, sv_eff s)" by blast
  from sp obtain pw where u: "users st0 conn = Some user" and pw: "getpwnam (sv_env s) user = Some pw"
    by (auto simp: is_spawn_def spawned_for_def)
  have handed: "handed_user pw ?e" "handed_mode (sv_req s) ?e"
    using spawn_hands_over [OF h run(2) inherited conn u pw] by auto
  then have "has_ids k (pw_name pw) (pw_gid pw) (pw_uid pw) (act_cred act)"
    by (intro helper_acts_as [OF k act]) (simp_all add: handed_user_def)
  then show ?thesis using conn users_authenticated [OF run0 u] pw helper_fulfils [OF act handed] by blast
qed

text \<open>A kernel where every call succeeds for root and nobody else changes identity.\<close>

definition demo_kernel :: Kernel where
  "demo_kernel = \<lparr>k_group_list = (\<lambda>u g. [g, 4]),
     k_initgroups = (\<lambda>u g c. if cr_uid c = 0 then Some (c\<lparr>cr_groups := [g, 4]\<rparr>) else None),
     k_setgroups = (\<lambda>gs c. if cr_uid c = 0 then Some (c\<lparr>cr_groups := gs\<rparr>) else None),
     k_setgid = (\<lambda>g c. if cr_uid c = 0 then Some (c\<lparr>cr_gid := g\<rparr>) else None),
     k_setuid = (\<lambda>u c. if cr_uid c = 0 then Some (c\<lparr>cr_uid := u\<rparr>) else None),
     k_setsid = (\<lambda>c. Some (c\<lparr>cr_session_leader := True\<rparr>)), k_open_tty = (\<lambda>t c. Some (c\<lparr>cr_tty := Some t\<rparr>)),
     k_chdir = (\<lambda>d c. Some (c\<lparr>cr_cwd := d\<rparr>)), k_chroot = (\<lambda>d c. Some (c\<lparr>cr_root := d\<rparr>)),
     k_set_no_new_privs = (\<lambda>c. Some (c\<lparr>cr_no_new_privs := True\<rparr>)), k_set_pdeathsig = (\<lambda>c. Some (c\<lparr>cr_dies_with_parent := True\<rparr>)),
     k_open_read = (\<lambda>c p. None), k_open_write = (\<lambda>c p m. None), k_mkdir = (\<lambda>c p m. MkdirFailed), k_is_dir = (\<lambda>c p. False),
     k_copy_fails = (\<lambda>b. None), k_execve = (\<lambda>c p. True)\<rparr>"

definition root_cred :: Cred where
  "root_cred = \<lparr>cr_uid = 0, cr_gid = 0, cr_groups = [0], cr_root = ''/'', cr_cwd = ''/'', cr_session_leader = False,
     cr_tty = None, cr_no_new_privs = False, cr_dies_with_parent = False\<rparr>"

lemma demo_kernel_posix: "posix_ids demo_kernel"
  by (simp add: posix_ids_def demo_kernel_def same_ids_def)

text \<open>The command of the monitor's example run, under the helper.\<close>

definition demo_image :: Image where
  "demo_image = \<lparr>img_path = ''/bin/sh'', img_argv = [''/bin/sh'', ''-c'', ''id''], img_env = helper_env ''/h'' ''al'' ''/bin/sh'' ''xterm''\<rparr>"

definition demo_cred :: Cred where
  "demo_cred = root_cred\<lparr>cr_uid := 1000, cr_gid := 100, cr_groups := [100, 4], cr_cwd := ''/h'', cr_session_leader := True\<rparr>"

lemma demo_helper:
  "fst (run_session_helper (\<lambda>s. Inr (as_bytes s) :: unit + byte list) demo_kernel (cmd_env (child_cmd demo_child)) [] root_cred)
     = [ExecImage demo_cred demo_image]"
  by code_simp

lemma helper_acts_as_authenticated_user_witness:
  "\<exists>conn u pw. spawn_conn (SpawnExec 1 ''id'') = Some conn \<and> authenticated (tl demo_trace) conn u \<and> getpwnam demo_env u = Some pw
    \<and> has_ids demo_kernel (pw_name pw) (pw_gid pw) (pw_uid pw) demo_cred
    \<and> fulfils pw (SpawnExec 1 ''id'') (ExecImage demo_cred demo_image)"
proof -
  have "mon_run demo_live (hd demo_trace # tl demo_trace)" using demo_run by (simp add: demo_trace_def)
  from helper_acts_as_authenticated_user [OF this, of demo_child Map.empty demo_kernel "ExecImage demo_cred demo_image"
      "\<lambda>s. Inr (as_bytes s) :: unit + byte list" "[]" root_cred] demo_helper demo_kernel_posix
  show ?thesis by (simp add: demo_trace_def)
qed

end
