(* ===== verification/Sign.thy ===== *)
theory Sign
  imports Ipc
begin

text \<open>
  Signatures with the host key: the monitor's signing thread with its token bucket
  (\<^verbatim>\<open>quish-server/src/monitor.rs\<close>) and the worker's side of it, the key that forwards every message to the
  monitor (\<^verbatim>\<open>quish-server/src/signproxy.rs\<close>).
\<close>

subsection \<open>The token bucket\<close>

definition SIGN_BURST :: u32 where
  "SIGN_BURST = 32"

definition SIGN_REFILL :: nanos where
  "SIGN_REFILL = millis 500"

definition SIGN_AUDIT_INTERVAL :: u64 where
  "SIGN_AUDIT_INTERVAL = 100"

record SignThrottle =
  tokens :: u32
  last_refill :: nanos

definition SignThrottle_new :: "nanos \<Rightarrow> SignThrottle" where
  "SignThrottle_new now = \<lparr>tokens = SIGN_BURST, last_refill = now\<rparr>"

text \<open>The checked operations of \<^verbatim>\<open>Duration\<close> and \<^verbatim>\<open>Instant\<close>: seconds are 64 bits wide, signed in an
  instant.\<close>

definition duration_checked_mul :: "nanos \<Rightarrow> nat \<Rightarrow> nanos option" where
  "duration_checked_mul d n = (if d * n < 2 ^ 64 * 10 ^ 9 then Some (d * n) else None)"

definition instant_checked_add :: "nanos \<Rightarrow> nanos \<Rightarrow> nanos option" where
  "instant_checked_add t d = (if t + d < 2 ^ 63 * 10 ^ 9 then Some (t + d) else None)"

definition allow :: "nanos \<Rightarrow> SignThrottle \<Rightarrow> bool \<times> SignThrottle" where
  "allow now s =
     (let gained = min ((now - last_refill s) div SIGN_REFILL) (2 ^ 32 - 1);
          s = (if gained > 0 then
                 let step = (case duration_checked_mul SIGN_REFILL gained of Some d \<Rightarrow> d | None \<Rightarrow> SIGN_REFILL)
                 in s\<lparr>tokens := word_of_nat (min (min (unat (tokens s) + gained) (2 ^ 32 - 1)) (unat SIGN_BURST)),
                      last_refill := (case instant_checked_add (last_refill s) step of Some t \<Rightarrow> t | None \<Rightarrow> now)\<rparr>
               else s)
      in if tokens s > 0 then (True, s\<lparr>tokens := tokens s - 1\<rparr>) else (False, s))"

subsection \<open>The signing thread\<close>

text \<open>A signing key gives a signer when it can sign with one of the schemes offered.\<close>

record SigningKey =
  choose_scheme :: "u16 list \<Rightarrow> (byte list \<Rightarrow> byte list option) option"

definition sign_with :: "SigningKey \<Rightarrow> u16 \<Rightarrow> byte list \<Rightarrow> byte list option" where
  "sign_with key scheme msg = Option.bind (choose_scheme key [scheme]) (\<lambda>sign. sign msg)"

record SignThread =
  throttle :: SignThrottle
  signed_count :: u64

definition SignThread_new :: "nanos \<Rightarrow> SignThread" where
  "SignThread_new now = \<lparr>throttle = SignThrottle_new now, signed_count = 0\<rparr>"

definition sign_turn :: "SigningKey \<Rightarrow> u16 \<Rightarrow> nanos \<Rightarrow> SignRequest \<Rightarrow> SignThread \<Rightarrow> SignResponse \<times> SignThread" where
  "sign_turn key scheme now req s = (case allow now (throttle s) of (permitted, th) \<Rightarrow>
     (let s = s\<lparr>throttle := th\<rparr> in
      if \<not> permitted then (SignFailed, s)
      else case sign_with key scheme (sign_message req) of
          Some sig \<Rightarrow> (Signature sig, s\<lparr>signed_count := signed_count s + 1\<rparr>)
        | None \<Rightarrow> (SignFailed, s)))"

text \<open>The loop over one connection, with the instant of each turn: the bytes written, the bytes not
  read yet, and whether the loop has been left.\<close>

fun sign_conn ::
  "(byte list \<Rightarrow> 'pe + SignRequest) \<Rightarrow> (SignResponse \<Rightarrow> 'pe + byte list) \<Rightarrow> SigningKey \<Rightarrow> u16 \<Rightarrow> bool \<Rightarrow> nanos list \<Rightarrow>
     byte list \<Rightarrow> SignThread \<Rightarrow> byte list \<times> byte list \<times> bool \<times> SignThread" where
  "sign_conn dec enc key scheme eof [] s th = ([], s, False, th)"
| "sign_conn dec enc key scheme eof (now # ts) s th = (case sign_read dec eof s of
     (Pending, s) \<Rightarrow> ([], s, False, th)
   | (Ready (Inr (Some req)), s) \<Rightarrow>
       (case sign_turn key scheme now req th of (resp, th) \<Rightarrow>
          case sign_write enc resp of
            Inl _ \<Rightarrow> ([], s, True, th)
          | Inr out \<Rightarrow> (case sign_conn dec enc key scheme eof ts s th of (out', r) \<Rightarrow> (out @ out', r)))
   | (_, s) \<Rightarrow> ([], s, True, th))"

subsection \<open>The proxy of the worker\<close>

definition SIGN_TIMEOUT :: nanos where
  "SIGN_TIMEOUT = secs 10"

datatype SignOutcome = Signed "byte list" | SignRefused | Broken

text \<open>One round trip: \<open>wrote\<close> says whether the socket took the request, \<open>reply\<close> is what has come back by
  the time the read gives up.\<close>

definition sign_once ::
  "(SignRequest \<Rightarrow> 'pe + byte list) \<Rightarrow> (byte list \<Rightarrow> 'pe + SignResponse) \<Rightarrow> bool \<Rightarrow> bool \<Rightarrow> byte list \<Rightarrow> byte list \<Rightarrow> SignOutcome \<times> byte list" where
  "sign_once enc dec wrote eof msg reply = (case sign_write enc \<lparr>sign_message = msg\<rparr> of
       Inl _ \<Rightarrow> (Broken, reply)
     | Inr _ \<Rightarrow>
         if \<not> wrote then (Broken, reply)
         else case sign_read dec eof reply of
             (Ready (Inr (Some (Signature sig))), rest) \<Rightarrow> (Signed sig, rest)
           | (Ready (Inr (Some SignFailed)), rest) \<Rightarrow> (SignRefused, rest)
           | (_, rest) \<Rightarrow> (Broken, rest))"

text \<open>The thread that owns the socket stops for good once a round trip has broken.\<close>

record ProxyThread =
  alive :: bool

datatype sign_error = SigningThreadGone | MonitorSigningFailed

definition proxy_sign :: "SignOutcome \<Rightarrow> bool \<Rightarrow> ProxyThread \<Rightarrow> (sign_error + byte list) \<times> ProxyThread" where
  "proxy_sign outcome in_time p =
     (if \<not> alive p then (Inl SigningThreadGone, p)
      else case outcome of
          Signed sig \<Rightarrow> (if in_time then Inr sig else Inl MonitorSigningFailed, p)
        | SignRefused \<Rightarrow> (Inl MonitorSigningFailed, p)
        | Broken \<Rightarrow> (Inl MonitorSigningFailed, p\<lparr>alive := False\<rparr>))"

definition proxy_choose_scheme :: "u16 \<Rightarrow> u16 list \<Rightarrow> bool" where
  "proxy_choose_scheme scheme offered \<longleftrightarrow> scheme \<in> set offered"

datatype SignatureAlgorithm = ED25519 | ECDSA | RSA

definition algorithm_of :: "u16 \<Rightarrow> SignatureAlgorithm" where
  "algorithm_of scheme = (if scheme = 0x0807 then ED25519
     else if scheme \<in> {0x0403, 0x0503, 0x0603} then ECDSA else RSA)"

subsection \<open>Lemmas\<close>

lemma SIGN_REFILL_value: "SIGN_REFILL = 500000000"
  by (simp add: SIGN_REFILL_def millis_def)

definition throttle_ok :: "nanos \<Rightarrow> SignThrottle \<Rightarrow> bool" where
  "throttle_ok now s \<longleftrightarrow> unat (tokens s) \<le> 32 \<and> last_refill s \<le> now"

lemma spend_token:
  assumes "unat w = n"
  shows "(if w > 0 then (True, s\<lparr>tokens := w - 1\<rparr>) else (False, s\<lparr>tokens := w\<rparr>))
    = (n > 0, s\<lparr>tokens := word_of_nat (n - 1)\<rparr>)"
proof (cases n)
  case 0
  then have "w = 0" using assms by (simp add: unat_eq_0)
  then show ?thesis using 0 by simp
next
  case (Suc m)
  have w: "w = word_of_nat n" using assms by auto
  then have "w - 1 = word_of_nat (n - 1)" by (simp add: Suc)
  moreover have "w > 0" using assms Suc by (simp add: word_gt_0 unat_eq_0 [symmetric])
  ultimately show ?thesis using Suc by simp
qed

text \<open>The bucket on plain numbers: while less than \<^verbatim>\<open>u32::MAX\<close> intervals have passed nothing saturates.\<close>

lemma allow_eq:
  assumes "throttle_ok now s" "now < last_refill s + secs (2 ^ 31)" "now < secs (2 ^ 63)"
    and "g = (now - last_refill s) div SIGN_REFILL"
  shows "allow now s = (unat (tokens s) + g > 0,
    s\<lparr>tokens := word_of_nat (min (unat (tokens s) + g) 32 - 1), last_refill := last_refill s + g * SIGN_REFILL\<rparr>)"
proof -
  have small: "g < 2 ^ 32"
    using assms(2,4) by (simp add: SIGN_REFILL_value secs_def less_mult_imp_div_less)
  have "g * SIGN_REFILL \<le> now - last_refill s" by (simp add: assms(4))
  then have le: "last_refill s + g * SIGN_REFILL \<le> now"
    using assms(1) unfolding throttle_ok_def by linarith
  have tok: "unat (tokens s) \<le> 32" using assms(1) by (simp add: throttle_ok_def)
  have gain: "min ((now - last_refill s) div SIGN_REFILL) (2 ^ 32 - 1) = g" using small assms(4) by simp
  define t where "t = min (unat (tokens s) + g) 32"
  have t: "unat (word_of_nat t :: u32) = t"
    by (simp add: t_def unsigned_of_nat take_bit_eq_mod)
  show ?thesis
  proof (cases "g = 0")
    case True
    then have "allow now s = (if tokens s > 0 then (True, s\<lparr>tokens := tokens s - 1\<rparr>) else (False, s\<lparr>tokens := tokens s\<rparr>))"
      unfolding allow_def gain by (simp add: Let_def)
    then show ?thesis using spend_token [OF refl, of "tokens s" s] True tok by simp
  next
    case False
    have mul: "duration_checked_mul SIGN_REFILL g = Some (g * SIGN_REFILL)"
      using small by (simp add: duration_checked_mul_def SIGN_REFILL_value mult.commute)
    have add: "instant_checked_add (last_refill s) (g * SIGN_REFILL) = Some (last_refill s + g * SIGN_REFILL)"
      using le assms(3) by (simp add: instant_checked_add_def secs_def)
    have new: "min (min (unat (tokens s) + g) (2 ^ 32 - 1)) (unat SIGN_BURST) = t"
      by (simp add: t_def SIGN_BURST_def)
    have "allow now s = (if (word_of_nat t :: u32) > 0
        then (True, (s\<lparr>last_refill := last_refill s + g * SIGN_REFILL\<rparr>)\<lparr>tokens := word_of_nat t - 1\<rparr>)
        else (False, (s\<lparr>last_refill := last_refill s + g * SIGN_REFILL\<rparr>)\<lparr>tokens := word_of_nat t\<rparr>))"
      using False add unfolding allow_def gain Let_def new by (cases s) (simp add: mul)
    then show ?thesis
      using spend_token [OF t, of "s\<lparr>last_refill := last_refill s + g * SIGN_REFILL\<rparr>"] False by (simp add: t_def)
  qed
qed

text \<open>The bucket never spends what it does not have: one call against the tokens and the intervals
  passed.\<close>

lemma allow_step:
  assumes "throttle_ok now s" "now < last_refill s + secs (2 ^ 31)" "now < secs (2 ^ 63)" "allow now s = (b, s')"
  shows "throttle_ok now s'" "now < last_refill s' + SIGN_REFILL" "last_refill s \<le> last_refill s'"
    "unat (tokens s') + of_bool b \<le> 32"
    "now \<le> T \<Longrightarrow> unat (tokens s') + of_bool b + (T - last_refill s') div SIGN_REFILL
       \<le> unat (tokens s) + (T - last_refill s) div SIGN_REFILL"
    "last_refill s + SIGN_REFILL \<le> now \<Longrightarrow> b"
proof -
  define g where "g = (now - last_refill s) div SIGN_REFILL"
  define t where "t = min (unat (tokens s) + g) 32"
  have pos: "SIGN_REFILL > 0" by (simp add: SIGN_REFILL_value)
  from allow_eq [OF assms(1-3) g_def] assms(4) have s': "unat (tokens s') = t - 1" "last_refill s' = last_refill s + g * SIGN_REFILL"
    and b: "b \<longleftrightarrow> unat (tokens s) + g > 0"
    by (auto simp: t_def unsigned_of_nat take_bit_eq_mod)
  have g: "g * SIGN_REFILL \<le> now - last_refill s" "now - last_refill s < g * SIGN_REFILL + SIGN_REFILL"
    using pos by (simp_all add: g_def) (metis add.commute dividend_less_div_times)
  have ok: "unat (tokens s) \<le> 32" "last_refill s \<le> now" using assms(1) by (simp_all add: throttle_ok_def)
  have spent: "t - 1 + of_bool b = t" using b by (cases "t = 0") (auto simp: t_def)
  have "last_refill s' \<le> now" using s'(2) g(1) ok(2) by linarith
  then show "throttle_ok now s'" using s'(1) by (simp add: throttle_ok_def t_def)
  show "now < last_refill s' + SIGN_REFILL" using s'(2) g(2) ok(2) by linarith
  show "last_refill s \<le> last_refill s'" by (simp add: s'(2))
  show "unat (tokens s') + of_bool b \<le> 32" using spent by (simp add: s' t_def)
  show "unat (tokens s') + of_bool b + (T - last_refill s') div SIGN_REFILL
      \<le> unat (tokens s) + (T - last_refill s) div SIGN_REFILL" if "now \<le> T"
  proof -
    have "T - last_refill s = (T - last_refill s') + g * SIGN_REFILL" using g(1) s'(2) ok(2) that by linarith
    then have "(T - last_refill s) div SIGN_REFILL = (T - last_refill s') div SIGN_REFILL + g" using pos by simp
    moreover have "unat (tokens s') + of_bool b = t" using spent by (simp add: s'(1))
    moreover have "t \<le> unat (tokens s) + g" by (simp add: t_def)
    ultimately show ?thesis by linarith
  qed
  show b if "last_refill s + SIGN_REFILL \<le> now"
  proof -
    have "g > 0" using that pos by (simp add: g_def div_greater_zero_iff)
    then show ?thesis by (simp add: b)
  qed
qed

fun allow_all :: "nanos list \<Rightarrow> SignThrottle \<Rightarrow> bool list \<times> SignThrottle" where
  "allow_all [] s = ([], s)"
| "allow_all (t # ts) s = (case allow t s of (b, s) \<Rightarrow> case allow_all ts s of (bs, s) \<Rightarrow> (b # bs, s))"

definition granted :: "bool list \<Rightarrow> nat" where
  "granted bs = length (filter id bs)"

lemma granted_Cons [simp]: "granted [] = 0" "granted (b # bs) = of_bool b + granted bs"
  by (simp_all add: granted_def)

lemma allow_all_Cons:
  assumes "allow t s = (b, s')"
  shows "fst (allow_all (t # ts) s) = b # fst (allow_all ts s')" "snd (allow_all (t # ts) s) = snd (allow_all ts s')"
  by (simp_all add: assms split: prod.splits)

lemma allow_all_append:
  "allow_all (ts @ us) s = (case allow_all ts s of (bs, s) \<Rightarrow> case allow_all us s of (cs, s) \<Rightarrow> (bs @ cs, s))"
  by (induction ts arbitrary: s) (auto split: prod.splits)

text \<open>A run of calls at instants that do not go back, within 68 years of the start.\<close>

definition call_times :: "nanos \<Rightarrow> nanos list \<Rightarrow> bool" where
  "call_times t0 ts \<longleftrightarrow> sorted (t0 # ts) \<and> (\<forall>t \<in> set ts. t < t0 + secs (2 ^ 31) \<and> t < secs (2 ^ 63))"

lemma call_times_Cons:
  "call_times t0 (t # ts) \<longleftrightarrow> t0 \<le> t \<and> t < t0 + secs (2 ^ 31) \<and> t < secs (2 ^ 63) \<and> call_times t0 ts \<and> (\<forall>u \<in> set ts. t \<le> u)"
  by (auto simp: call_times_def)

lemma granted_bound:
  assumes "call_times (last_refill s) ts" "unat (tokens s) \<le> 32" "\<forall>t \<in> set ts. t \<le> T"
  shows "granted (fst (allow_all ts s)) \<le> unat (tokens s) + (T - last_refill s) div SIGN_REFILL"
  using assms
proof (induction ts arbitrary: s)
  case (Cons t ts)
  obtain b s' where a: "allow t s = (b, s')" by (cases "allow t s")
  have t: "throttle_ok t s" "t < last_refill s + secs (2 ^ 31)" "t < secs (2 ^ 63)" "t \<le> T"
    using Cons.prems by (simp_all add: call_times_Cons throttle_ok_def)
  note st = allow_step [OF t(1-3) a]
  have "call_times (last_refill s') ts"
    using Cons.prems(1) st(1,3) by (fastforce simp: call_times_def throttle_ok_def)
  then have "granted (fst (allow_all ts s')) \<le> unat (tokens s') + (T - last_refill s') div SIGN_REFILL"
    using Cons.IH Cons.prems(3) st(1) by (simp add: throttle_ok_def)
  then show ?case using st(5) [OF t(4)] unfolding allow_all_Cons(1) [OF a] granted_Cons(2) by linarith
qed simp

text \<open>A window of calls takes at most the burst and one token for each interval it spans, and one.\<close>

lemma window_bound:
  assumes "call_times (last_refill s) (t # ts)" "unat (tokens s) \<le> 32" "\<forall>u \<in> set ts. u \<le> T" "t \<le> T"
  shows "granted (fst (allow_all (t # ts) s)) \<le> 33 + (T - t) div SIGN_REFILL"
proof -
  obtain b s' where a: "allow t s = (b, s')" by (cases "allow t s")
  have t: "throttle_ok t s" "t < last_refill s + secs (2 ^ 31)" "t < secs (2 ^ 63)"
    using assms by (simp_all add: call_times_Cons throttle_ok_def)
  note st = allow_step [OF t a]
  have "call_times (last_refill s') ts"
    using assms(1) st(1,3) by (fastforce simp: call_times_def throttle_ok_def)
  then have rest: "granted (fst (allow_all ts s')) \<le> unat (tokens s') + (T - last_refill s') div SIGN_REFILL"
    using granted_bound assms(3) st(1) by (simp add: throttle_ok_def)
  have "T - last_refill s' \<le> (T - t) + SIGN_REFILL" using st(2) assms(4) by linarith
  then have "(T - last_refill s') div SIGN_REFILL \<le> ((T - t) + SIGN_REFILL) div SIGN_REFILL" by (rule div_le_mono)
  also have "\<dots> = (T - t) div SIGN_REFILL + 1" by (simp add: SIGN_REFILL_value)
  finally show ?thesis using rest st(4) unfolding allow_all_Cons(1) [OF a] granted_Cons(2) by linarith
qed

lemma allow_all_ok:
  assumes "call_times (last_refill s) ts" "unat (tokens s) \<le> 32"
  shows "unat (tokens (snd (allow_all ts s))) \<le> 32 \<and> last_refill s \<le> last_refill (snd (allow_all ts s))
    \<and> (\<forall>u. (\<forall>t \<in> set ts. t \<le> u) \<longrightarrow> last_refill s \<le> u \<longrightarrow> last_refill (snd (allow_all ts s)) \<le> u)"
  using assms
proof (induction ts arbitrary: s)
  case (Cons t ts)
  obtain b s' where a: "allow t s = (b, s')" by (cases "allow t s")
  have t: "throttle_ok t s" "t < last_refill s + secs (2 ^ 31)" "t < secs (2 ^ 63)"
    using Cons.prems by (simp_all add: call_times_Cons throttle_ok_def)
  note st = allow_step [OF t a]
  have c: "call_times (last_refill s') ts"
    using Cons.prems(1) st(1,3) by (fastforce simp: call_times_def throttle_ok_def)
  have ok: "unat (tokens s') \<le> 32" "last_refill s' \<le> t" using st(1) by (simp_all add: throttle_ok_def)
  have "last_refill s' \<le> u" if "\<forall>v \<in> set (t # ts). v \<le> u" for u using ok(2) that by fastforce
  then show ?case using Cons.IH [OF c ok(1)] st(3) unfolding allow_all_Cons(2) [OF a]
    by (meson list.set_intros(2) order.trans)
qed simp

subsection \<open>Sequences of requests\<close>

fun sign_turns :: "SigningKey \<Rightarrow> u16 \<Rightarrow> (nanos \<times> SignRequest) list \<Rightarrow> SignThread \<Rightarrow> SignResponse list \<times> SignThread" where
  "sign_turns key scheme [] th = ([], th)"
| "sign_turns key scheme ((now, req) # rs) th = (case sign_turn key scheme now req th of (resp, th) \<Rightarrow>
     case sign_turns key scheme rs th of (resps, th) \<Rightarrow> (resp # resps, th))"

fun is_signature :: "SignResponse \<Rightarrow> bool" where
  "is_signature (Signature _) \<longleftrightarrow> True"
| "is_signature SignFailed \<longleftrightarrow> False"

lemma sign_turn_throttle: "throttle (snd (sign_turn key scheme now req th)) = snd (allow now (throttle th))"
  by (simp add: sign_turn_def Let_def split: prod.split option.split)

lemma sign_turn_signature: "is_signature (fst (sign_turn key scheme now req th)) \<Longrightarrow> fst (allow now (throttle th))"
  by (auto simp: sign_turn_def Let_def split: prod.splits option.splits if_splits)

lemma sign_turns_Cons:
  assumes "sign_turn key scheme now req th = (resp, th')"
  shows "fst (sign_turns key scheme ((now, req) # rs) th) = resp # fst (sign_turns key scheme rs th')"
    "snd (sign_turns key scheme ((now, req) # rs) th) = snd (sign_turns key scheme rs th')"
  by (simp_all add: assms split: prod.splits)

text \<open>The bucket of the thread goes through the calls of the turns, and only a granted turn signs.\<close>

lemma sign_turns_allow:
  "throttle (snd (sign_turns key scheme rs th)) = snd (allow_all (map fst rs) (throttle th))
   \<and> length (filter is_signature (fst (sign_turns key scheme rs th))) \<le> granted (fst (allow_all (map fst rs) (throttle th)))"
proof (induction rs arbitrary: th)
  case (Cons r rs)
  obtain now req where r: "r = (now, req)" by (cases r)
  obtain resp th' where t: "sign_turn key scheme now req th = (resp, th')" by (cases "sign_turn key scheme now req th")
  obtain b s' where a: "allow now (throttle th) = (b, s')" by (cases "allow now (throttle th)")
  have s': "throttle th' = s'" using sign_turn_throttle [of key scheme now req th] by (simp add: t a)
  have "is_signature resp \<Longrightarrow> b" using sign_turn_signature [of key scheme now req th] by (simp add: t a)
  then show ?case using Cons [of th']
    by (auto simp: r s' sign_turns_Cons [OF t] allow_all_Cons [OF a] simp del: sign_turns.simps allow_all.simps)
qed simp

text \<open>The worker signing one message after another: each request goes through the monitor's thread, and
  what that writes is what the proxy reads.\<close>

fun proxy_session ::
  "(SignRequest \<Rightarrow> 'pe + byte list) \<Rightarrow> (byte list \<Rightarrow> 'pe + SignRequest) \<Rightarrow> (SignResponse \<Rightarrow> 'pe + byte list) \<Rightarrow> (byte list \<Rightarrow> 'pe + SignResponse) \<Rightarrow>
     SigningKey \<Rightarrow> u16 \<Rightarrow> (nanos \<times> byte list) list \<Rightarrow> SignThread \<Rightarrow> ProxyThread \<Rightarrow> (sign_error + byte list) list" where
  "proxy_session enc_req dec_req enc_resp dec_resp key scheme [] th p = []"
| "proxy_session enc_req dec_req enc_resp dec_resp key scheme ((now, msg) # ms) th p =
     (case sign_write enc_req \<lparr>sign_message = msg\<rparr> of
        Inl _ \<Rightarrow> (case proxy_sign (fst (sign_once enc_req dec_resp True False msg [])) True p of (r, p) \<Rightarrow>
            r # proxy_session enc_req dec_req enc_resp dec_resp key scheme ms th p)
      | Inr bytes \<Rightarrow> (case sign_conn dec_req enc_resp key scheme False [now] bytes th of (out, _, left, th) \<Rightarrow>
          case proxy_sign (fst (sign_once enc_req dec_resp True left msg out)) True p of (r, p) \<Rightarrow>
            r # proxy_session enc_req dec_req enc_resp dec_resp key scheme ms th p))"

fun reply_result :: "SignResponse \<Rightarrow> sign_error + byte list" where
  "reply_result (Signature sig) = Inr sig"
| "reply_result SignFailed = Inl MonitorSigningFailed"

lemma proxy_roundtrip:
  assumes "\<And>r b. enc_req r = Inr b \<Longrightarrow> dec_req b = Inr r" "\<And>r b. enc_resp r = Inr b \<Longrightarrow> dec_resp b = Inr r"
    and "sign_write enc_req \<lparr>sign_message = msg\<rparr> = Inr bytes" "sign_write enc_resp resp = Inr out"
    and "sign_turn key scheme now \<lparr>sign_message = msg\<rparr> th = (resp, th')" "alive p"
  shows "sign_conn dec_req enc_resp key scheme False [now] bytes th = (out, [], False, th')"
    "proxy_sign (fst (sign_once enc_req dec_resp True left msg out)) True p = (reply_result resp, p)"
proof -
  have "sign_read dec_req False (bytes @ []) = (Ready (Inr (Some \<lparr>sign_message = msg\<rparr>)), [])"
    by (rule sign_write_read) (use assms in auto)
  then show "sign_conn dec_req enc_resp key scheme False [now] bytes th = (out, [], False, th')"
    using assms by simp
  have "sign_read dec_resp left (out @ []) = (Ready (Inr (Some resp)), [])"
    by (rule sign_write_read) (use assms in auto)
  then show "proxy_sign (fst (sign_once enc_req dec_resp True left msg out)) True p = (reply_result resp, p)"
    using assms(3,6) by (cases resp) (simp_all add: sign_once_def proxy_sign_def)
qed

lemma sorted_last: "sorted xs \<Longrightarrow> u \<in> set xs \<Longrightarrow> u \<le> last xs"
  by (induction xs) (auto split: if_splits)

subsection \<open>Properties\<close>

text \<open>C18: whatever a worker asks for and however fast, over any stretch of time the monitor's host key
  makes no more signatures than the burst of 32, one for each half second of the stretch, and one.\<close>

theorem signing_rate_bounded:
  assumes "call_times t0 (map fst (before @ r # rs))"
    and "th = snd (sign_turns key scheme before (SignThread_new t0))"
  shows "length (filter is_signature (fst (sign_turns key scheme (r # rs) th)))
    \<le> unat SIGN_BURST + 1 + (fst (last (r # rs)) - fst r) div SIGN_REFILL"
proof -
  define s where "s = throttle th"
  let ?T = "fst (last (r # rs))"
  have s: "s = snd (allow_all (map fst before) (SignThrottle_new t0))"
    by (simp add: s_def assms(2) sign_turns_allow SignThread_new_def)
  have c: "call_times t0 (map fst before)" "call_times t0 (map fst (r # rs))" "\<forall>t \<in> set (map fst before). \<forall>u \<in> set (map fst (r # rs)). t \<le> u"
    using assms(1) by (auto simp: call_times_def sorted_append)
  have new: "last_refill (SignThrottle_new t0) = t0" "unat (tokens (SignThrottle_new t0)) \<le> 32"
    by (simp_all add: SignThrottle_new_def SIGN_BURST_def)
  have ok: "unat (tokens s) \<le> 32" "t0 \<le> last_refill s" "\<forall>u \<in> set (map fst (r # rs)). last_refill s \<le> u"
    using allow_all_ok [of "SignThrottle_new t0" "map fst before"] new c by (auto simp: s call_times_def)
  then have "call_times (last_refill s) (map fst (r # rs))"
    using c(2) by (fastforce simp: call_times_def)
  moreover have T: "u \<le> ?T" if "u \<in> set (map fst (r # rs))" for u
  proof -
    have "sorted (map fst (r # rs))" using c(2) by (simp add: call_times_def)
    then have "u \<le> last (map fst (r # rs))" using that by (rule sorted_last)
    then show ?thesis by (simp add: last_map split: if_splits)
  qed
  ultimately have "granted (fst (allow_all (map fst (r # rs)) s)) \<le> 33 + (?T - fst r) div SIGN_REFILL"
    using window_bound [of s "fst r" "map fst rs" ?T] ok(1) by simp
  then show ?thesis using sign_turns_allow [of key scheme "r # rs" th] by (simp add: s_def SIGN_BURST_def del: sign_turns.simps allow_all.simps)
qed

lemma signing_rate_bounded_witness:
  "length (filter is_signature (fst (sign_turns \<lparr>choose_scheme = (\<lambda>_. Some Some)\<rparr> 0x0403
     [(5, \<lparr>sign_message = [1]\<rparr>), (secs 1, \<lparr>sign_message = [2]\<rparr>)] (SignThread_new 0)))) \<le> 34"
proof -
  have "call_times 0 (map fst ([] @ (5, \<lparr>sign_message = [1]\<rparr>) # [(secs 1, \<lparr>sign_message = [2]\<rparr>)]))"
    by (simp add: call_times_def secs_def)
  from signing_rate_bounded [OF this refl, of "\<lparr>choose_scheme = (\<lambda>_. Some Some)\<rparr>" "0x0403"] show ?thesis
    by (simp add: SIGN_BURST_def SIGN_REFILL_value secs_def del: sign_turns.simps(2))
qed

text \<open>C36: a worker that signs through the proxy gets exactly the signatures the monitor's key makes with
  the monitor's scheme, in the order it asked for them, and an error where the monitor refused; a
  refusal does not end the service.  Requests and responses decode to what was encoded and fit the
  signing stream.\<close>

theorem proxy_signs_like_the_monitor:
  assumes codec: "\<And>r b. enc_req r = Inr b \<Longrightarrow> dec_req b = Inr r" "\<And>r b. enc_resp r = Inr b \<Longrightarrow> dec_resp b = Inr r"
    and fits: "\<forall>(now, m) \<in> set ms. \<exists>bytes. sign_write enc_req \<lparr>sign_message = m\<rparr> = Inr bytes"
      "\<forall>resp \<in> set (fst (sign_turns key scheme (map (\<lambda>(now, m). (now, \<lparr>sign_message = m\<rparr>)) ms) th)). \<exists>out. sign_write enc_resp resp = Inr out"
    and alive: "alive p"
  shows "proxy_session enc_req dec_req enc_resp dec_resp key scheme ms th p
    = map reply_result (fst (sign_turns key scheme (map (\<lambda>(now, m). (now, \<lparr>sign_message = m\<rparr>)) ms) th))"
  using fits
proof (induction ms arbitrary: th)
  case (Cons nm ms)
  obtain now m where nm: "nm = (now, m)" by (cases nm)
  obtain resp th' where t: "sign_turn key scheme now \<lparr>sign_message = m\<rparr> th = (resp, th')"
    by (cases "sign_turn key scheme now \<lparr>sign_message = m\<rparr> th")
  note Cons' = sign_turns_Cons [OF t]
  from Cons.prems obtain bytes out where w: "sign_write enc_req \<lparr>sign_message = m\<rparr> = Inr bytes" "sign_write enc_resp resp = Inr out"
    by (auto simp: nm Cons' simp del: sign_turns.simps)
  note rt = proxy_roundtrip [OF codec w t alive]
  have "proxy_session enc_req dec_req enc_resp dec_resp key scheme ms th' p
      = map reply_result (fst (sign_turns key scheme (map (\<lambda>(now, m). (now, \<lparr>sign_message = m\<rparr>)) ms) th'))"
    using Cons.IH Cons.prems by (auto simp: nm Cons' simp del: sign_turns.simps)
  then show ?case using rt by (simp add: nm w Cons' del: sign_turns.simps sign_conn.simps)
qed simp

lemma proxy_signs_like_the_monitor_witness:
  "proxy_session (\<lambda>r. Inr (sign_message r) :: unit + byte list) (\<lambda>b. Inr \<lparr>sign_message = b\<rparr>)
     (\<lambda>r. Inr (case r of Signature s \<Rightarrow> 1 # s | SignFailed \<Rightarrow> [])) (\<lambda>b. Inr (if b = [] then SignFailed else Signature (tl b)))
     \<lparr>choose_scheme = (\<lambda>_. Some (\<lambda>m. if m = [] then None else Some (rev m)))\<rparr> 0x0403
     [(5, [1, 2]), (6, []), (7, [3])] (SignThread_new 0) \<lparr>alive = True\<rparr>
   = [Inr [2, 1], Inl MonitorSigningFailed, Inr [3]]"
proof -
  let ?key = "\<lparr>choose_scheme = (\<lambda>_. Some (\<lambda>m. if m = [] then None else Some (rev m)))\<rparr> :: SigningKey"
  have turns: "fst (sign_turns ?key 0x0403 (map (\<lambda>(now, m). (now, \<lparr>sign_message = m\<rparr>)) [(5, [1, 2]), (6, []), (7, [3])]) (SignThread_new 0))
      = [Signature [2, 1], SignFailed, Signature [3]]" by code_simp
  show ?thesis
    by (subst proxy_signs_like_the_monitor) (simp_all only: turns, auto simp: sign_write_def IPC_CAP_def split: SignResponse.splits)
qed

end
