(* ===== verification/Endpoints.thy ===== *)
theory Endpoints
  imports Transport Sign
begin

text \<open>
  The QUIC endpoints of the server: the transport limits and the development endpoint
  (\<^verbatim>\<open>transport_config\<close>, \<^verbatim>\<open>dev_endpoint\<close> of \<^verbatim>\<open>quish-server/src/transport.rs\<close>), the endpoint of the worker with its
  certificate resolver and the key that signs through the monitor (\<^verbatim>\<open>worker.rs\<close>, \<^verbatim>\<open>signproxy.rs\<close>).

  What quinn, rustls and rcgen do with a configuration are the fields of \<open>QuicLib\<close>.
\<close>

subsection \<open>Configurations\<close>

definition ALPN :: "byte list" where
  "ALPN = as_bytes ''h3''"

record TransportConfig =
  max_idle_timeout :: "nanos option"
  max_concurrent_bidi_streams :: nat
  keep_alive_interval :: "nanos option"

record CertifiedKey =
  ck_chain :: "byte list list"
  ck_key :: SigningKey

text \<open>A resolver answers a client's hello, here the server name in it.\<close>

type_synonym resolver = "string option \<Rightarrow> CertifiedKey option"

record TlsServer =
  ts_client_auth :: bool
  ts_resolver :: resolver
  ts_alpn :: "byte list list"

record ServerEndpoint =
  se_tls :: TlsServer
  se_transport :: TransportConfig
  se_listen :: SocketAddr

text \<open>\<open>quic_transport\<close> is the default transport configuration, \<open>quic_idle\<close> the conversion of a duration to an
  idle timeout, \<open>quic_tls\<close> whether QUIC can use a TLS configuration, \<open>quic_server\<close> whether an endpoint can be
  bound to an address and \<open>quic_adopt\<close> whether one can be made from a bound socket.  \<open>single_cert\<close> makes a
  resolver of a chain and a private key, \<open>self_signed\<close> a certificate and its private key for some names.\<close>

record QuicLib =
  quic_transport :: TransportConfig
  quic_idle :: "nanos \<Rightarrow> nanos option"
  quic_tls :: "TlsServer \<Rightarrow> bool"
  quic_server :: "SocketAddr \<Rightarrow> bool"
  quic_runtime :: bool
  quic_adopt :: bool
  single_cert :: "byte list list \<Rightarrow> byte list \<Rightarrow> resolver option"
  self_signed :: "string list \<Rightarrow> (byte list \<times> byte list) option"

datatype endpoint_error = GenerateCert | TlsConfig | QuicConfig | IdlePanic | BindEndpoint | NoRuntime | AdoptSocket

subsection \<open>Endpoints\<close>

definition transport_config :: "QuicLib \<Rightarrow> endpoint_error + TransportConfig" where
  "transport_config lib =
     rbind (ok_or IdlePanic (quic_idle lib IDLE_TIMEOUT)) (\<lambda>idle.
     Inr ((quic_transport lib)\<lparr>max_idle_timeout := Some idle, max_concurrent_bidi_streams := MAX_CHANNELS_PER_CONN\<rparr>))"

text \<open>The fingerprint is only logged.\<close>

definition dev_endpoint :: "QuicLib \<Rightarrow> SocketAddr \<Rightarrow> endpoint_error + ServerEndpoint" where
  "dev_endpoint lib listen =
     rbind (ok_or GenerateCert (self_signed lib [''localhost''])) (\<lambda>(cert_der, key).
     rbind (ok_or TlsConfig (single_cert lib [cert_der] key)) (\<lambda>resolver.
       let tls = \<lparr>ts_client_auth = False, ts_resolver = resolver, ts_alpn = [ALPN]\<rparr> in
       if \<not> quic_tls lib tls then Inl QuicConfig
       else rbind (transport_config lib) (\<lambda>transport.
         if quic_server lib listen then Inr \<lparr>se_tls = tls, se_transport = transport, se_listen = listen\<rparr>
         else Inl BindEndpoint)))"

definition SingleCert_resolve :: "CertifiedKey \<Rightarrow> resolver" where
  "SingleCert_resolve certified _ = Some certified"

text \<open>The key for rustls that signs through the monitor; \<open>sign\<close> is one signature over the socket.\<close>

record ProxySigningKey =
  px_scheme :: u16
  px_algorithm :: SignatureAlgorithm
  px_timeout :: nanos

definition with_timeout :: "u16 \<Rightarrow> nanos \<Rightarrow> ProxySigningKey" where
  "with_timeout scheme timeout = \<lparr>px_scheme = scheme, px_algorithm = algorithm_of scheme, px_timeout = timeout\<rparr>"

definition ProxySigningKey_new :: "u16 \<Rightarrow> ProxySigningKey" where
  "ProxySigningKey_new scheme = with_timeout scheme SIGN_TIMEOUT"

definition proxy_key :: "(byte list \<Rightarrow> byte list option) \<Rightarrow> ProxySigningKey \<Rightarrow> SigningKey" where
  "proxy_key sign px = \<lparr>choose_scheme = (\<lambda>offered. if proxy_choose_scheme (px_scheme px) offered then Some sign else None)\<rparr>"

definition worker_endpoint ::
  "QuicLib \<Rightarrow> (byte list \<Rightarrow> byte list option) \<Rightarrow> u16 \<Rightarrow> byte list \<Rightarrow> SocketAddr \<Rightarrow> endpoint_error + ServerEndpoint" where
  "worker_endpoint lib sign scheme cert_der bound =
     (let proxy = ProxySigningKey_new scheme;
          certified = \<lparr>ck_chain = [cert_der], ck_key = proxy_key sign proxy\<rparr>;
          tls = \<lparr>ts_client_auth = False, ts_resolver = SingleCert_resolve certified, ts_alpn = [ALPN]\<rparr>
      in if \<not> quic_tls lib tls then Inl QuicConfig
         else rbind (transport_config lib) (\<lambda>transport.
           if \<not> quic_runtime lib then Inl NoRuntime
           else if quic_adopt lib then Inr \<lparr>se_tls = tls, se_transport = transport, se_listen = bound\<rparr>
           else Inl AdoptSocket))"

subsection \<open>Lemmas\<close>

text \<open>Both endpoints carry the same limits: no more channels at a time than the accounting of failed
  attempts allows for, the idle timeout of the server, no client certificates, and HTTP/3 alone.\<close>

definition server_limits :: "QuicLib \<Rightarrow> ServerEndpoint \<Rightarrow> bool" where
  "server_limits lib ep \<longleftrightarrow> max_idle_timeout (se_transport ep) = quic_idle lib IDLE_TIMEOUT
     \<and> max_concurrent_bidi_streams (se_transport ep) = MAX_CHANNELS_PER_CONN
     \<and> \<not> ts_client_auth (se_tls ep) \<and> ts_alpn (se_tls ep) = [ALPN]"

lemma transport_config_limits:
  "transport_config lib = Inr t \<Longrightarrow> max_idle_timeout t = quic_idle lib IDLE_TIMEOUT \<and> max_concurrent_bidi_streams t = MAX_CHANNELS_PER_CONN
     \<and> keep_alive_interval t = keep_alive_interval (quic_transport lib)"
  by (cases "quic_idle lib IDLE_TIMEOUT") (auto simp: transport_config_def ok_or_def)

lemma dev_endpoint_limits: "dev_endpoint lib listen = Inr ep \<Longrightarrow> server_limits lib ep \<and> se_listen ep = listen"
  by (cases "self_signed lib [''localhost'']"; cases "transport_config lib")
    (auto simp: dev_endpoint_def ok_or_def Let_def server_limits_def dest!: transport_config_limits split: option.splits if_splits)

lemma worker_endpoint_limits: "worker_endpoint lib sign scheme cert listen = Inr ep \<Longrightarrow> server_limits lib ep \<and> se_listen ep = listen"
  by (cases "transport_config lib")
    (auto simp: worker_endpoint_def Let_def server_limits_def dest!: transport_config_limits split: if_splits)

text \<open>The worker shows every client the certificate it was given, with a key that makes only
  signatures of its one scheme.\<close>

lemma worker_endpoint_key:
  assumes "worker_endpoint lib sign scheme cert listen = Inr ep"
  shows "\<exists>ck. ts_resolver (se_tls ep) hello = Some ck \<and> ck_chain ck = [cert]
    \<and> choose_scheme (ck_key ck) offered = (if scheme \<in> set offered then Some sign else None)"
  using assms by (cases "transport_config lib")
    (auto simp: worker_endpoint_def Let_def SingleCert_resolve_def proxy_key_def ProxySigningKey_new_def with_timeout_def
      proxy_choose_scheme_def split: if_splits)

end
