(* ===== verification/Server_Config.thy ===== *)
theory Server_Config
  imports Registry_Build Privdrop Endpoints Rust_Path
begin

text \<open>
  Starting the server: the settings of \<^verbatim>\<open>quish-server/src/config.rs\<close> and \<^verbatim>\<open>main.rs\<close>, what the monitor
  sets up before it serves (\<^verbatim>\<open>run\<close>, \<^verbatim>\<open>host_identity\<close>, \<^verbatim>\<open>prepare_socket_dir\<close> of \<^verbatim>\<open>monitor.rs\<close>), the hand-off to
  the worker through its environment, and the start of the worker (\<^verbatim>\<open>run\<close> of \<^verbatim>\<open>worker.rs\<close>) with its
  system call filter (\<^verbatim>\<open>privdrop.rs\<close>).
\<close>

subsection \<open>The configuration file\<close>

record FileOidc =
  fo_issuer :: string
  fo_audience :: string
  fo_jwks_file :: string
  fo_user_claim :: "string option"
  fo_max_token_age_secs :: "u64 option"

definition DEFAULT_USER_CLAIM :: string where
  "DEFAULT_USER_CLAIM = ''preferred_username''"

definition DEFAULT_MAX_TOKEN_AGE_SECS :: u64 where
  "DEFAULT_MAX_TOKEN_AGE_SECS = 300"

definition into_backend :: "FileOidc \<Rightarrow> OidcConfig" where
  "into_backend o' = \<lparr>issuer = fo_issuer o', audience = fo_audience o', jwks_file = fo_jwks_file o',
     user_claim = unwrap_or (fo_user_claim o') DEFAULT_USER_CLAIM,
     max_token_age_secs = unwrap_or (fo_max_token_age_secs o') DEFAULT_MAX_TOKEN_AGE_SECS\<rparr>"

record FileConfig =
  fc_listen :: "SocketAddr option"
  fc_path :: "string option"
  fc_privsep_user :: "string option"
  fc_privsep_dir :: "string option"
  fc_host_key :: "string option"
  fc_max_auth_fails :: "u32 option"
  fc_allow_forward :: "bool option"
  fc_allow_remote_forward :: "bool option"
  fc_no_seccomp :: "bool option"
  fc_totp :: "bool option"
  fc_allow_users :: "string list option"
  fc_deny_users :: "string list option"
  fc_oidc :: "FileOidc option"

definition FileConfig_default :: FileConfig where
  "FileConfig_default = \<lparr>fc_listen = None, fc_path = None, fc_privsep_user = None, fc_privsep_dir = None, fc_host_key = None,
     fc_max_auth_fails = None, fc_allow_forward = None, fc_allow_remote_forward = None, fc_no_seccomp = None, fc_totp = None,
     fc_allow_users = None, fc_deny_users = None, fc_oidc = None\<rparr>"

datatype start_error = UsageError | ConfigUnreadable | ConfigInvalid | BadTotpSecret | NoHome | DevEndpoint endpoint_error

text \<open>\<open>read\<close> gives the text of a readable UTF-8 file, \<open>toml\<close> parses it.\<close>

definition FileConfig_load :: "(string \<Rightarrow> string option) \<Rightarrow> (string \<Rightarrow> FileConfig option) \<Rightarrow> string \<Rightarrow> start_error + FileConfig" where
  "FileConfig_load read toml path =
     rbind (ok_or ConfigUnreadable (read path)) (\<lambda>text. ok_or ConfigInvalid (toml text))"

subsection \<open>The command line\<close>

record ServerArgs =
  sa_config :: "string option"
  sa_listen :: "SocketAddr option"
  sa_path :: "string option"
  sa_dev_insecure_user :: "string option"
  sa_dev_insecure_totp_secret :: "string option"
  sa_totp :: bool
  sa_privsep_dir :: "string option"
  sa_privsep_user :: "string option"
  sa_host_key :: "string option"
  sa_max_auth_fails :: "u32 option"
  sa_allow_forward :: bool
  sa_allow_remote_forward :: bool
  sa_no_seccomp :: bool
  sa_allow_users :: "string list"
  sa_deny_users :: "string list"
  sa_internal_worker :: bool
  sa_internal_run_session :: bool

record MonConfig =
  mc_listen :: SocketAddr
  mc_path :: string
  mc_chroot_dir :: string
  mc_worker_user :: string
  mc_host_key :: "string option"
  mc_max_auth_fails :: u32
  mc_allow_forward :: bool
  mc_allow_remote_forward :: bool
  mc_no_seccomp :: bool
  mc_totp :: bool
  mc_policy :: UserPolicy
  mc_oidc :: "OidcConfig option"

text \<open>A flag of the command line wins over the file, the file over the built-in value; lists of users
  replace each other as a whole.\<close>

definition merge_config :: "ServerArgs \<Rightarrow> FileConfig \<Rightarrow> MonConfig" where
  "merge_config args file =
     \<lparr>mc_listen = unwrap_or (or_else (sa_listen args) (fc_listen file)) (V6 0, 4433),
      mc_path = unwrap_or (or_else (sa_path args) (fc_path file)) ''/quish'',
      mc_chroot_dir = unwrap_or (or_else (sa_privsep_dir args) (fc_privsep_dir file)) ''/run/quishd'',
      mc_worker_user = unwrap_or (or_else (sa_privsep_user args) (fc_privsep_user file)) ''quish'',
      mc_host_key = or_else (sa_host_key args) (fc_host_key file),
      mc_max_auth_fails = unwrap_or (or_else (sa_max_auth_fails args) (fc_max_auth_fails file)) DEFAULT_MAX_AUTH_FAILS,
      mc_allow_forward = (sa_allow_forward args \<or> unwrap_or (fc_allow_forward file) False),
      mc_allow_remote_forward = (sa_allow_remote_forward args \<or> unwrap_or (fc_allow_remote_forward file) False),
      mc_no_seccomp = (sa_no_seccomp args \<or> unwrap_or (fc_no_seccomp file) False),
      mc_totp = (sa_totp args \<or> unwrap_or (fc_totp file) False),
      mc_policy = \<lparr>allow_users = (if sa_allow_users args = [] then unwrap_or (fc_allow_users file) [] else sa_allow_users args),
                  deny_users = (if sa_deny_users args = [] then unwrap_or (fc_deny_users file) [] else sa_deny_users args)\<rparr>,
      mc_oidc = map_option into_backend (fc_oidc file)\<rparr>"

text \<open>The mode the process runs in.  The session helper is recognised before \<open>clap\<close> parses the
  arguments.\<close>

datatype server_mode =
    SessionHelper
  | WorkerMode
  | DevMode string "string option" MonConfig
  | MonitorMode MonConfig

definition server_main ::
  "(string \<Rightarrow> string option) \<Rightarrow> (string \<Rightarrow> FileConfig option) \<Rightarrow> (string list \<Rightarrow> ServerArgs option) \<Rightarrow> string list \<Rightarrow> start_error + server_mode" where
  "server_main read toml clap raw =
     (if ''--internal-run-session'' \<in> set raw then Inr SessionHelper
      else rbind (ok_or UsageError (clap raw)) (\<lambda>args.
        if sa_internal_worker args then Inr WorkerMode
        else rbind (case sa_config args of Some p \<Rightarrow> FileConfig_load read toml p | None \<Rightarrow> Inr FileConfig_default) (\<lambda>file.
          let cfg = merge_config args file in
          Inr (case sa_dev_insecure_user args of
              Some dev_user \<Rightarrow> DevMode dev_user (sa_dev_insecure_totp_secret args) cfg
            | None \<Rightarrow> MonitorMode cfg))))"

text \<open>The registry of the development server: one password backend, public keys of the user running it,
  and JWTs when configured.\<close>

definition authorized_keys_path :: "environ \<Rightarrow> start_error + string" where
  "authorized_keys_path e = rbind (ok_or NoHome (e ''HOME'')) (\<lambda>home. Inr (path_join home ''.config/quish/authorized_keys''))"

definition dev_registry ::
  "environ \<Rightarrow> ('jwk, 'key) AuthEnv \<Rightarrow> string \<Rightarrow> string option \<Rightarrow> MonConfig \<Rightarrow> start_error + Registry" where
  "dev_registry e a dev_user totp_secret cfg =
     rbind (case totp_secret of
         None \<Rightarrow> Inr (DevInsecureBackend dev_user)
       | Some b32 \<Rightarrow> rbind (ok_or BadTotpSecret (decode_base32_secret (ae_base32 a) b32)) (\<lambda>secret.
           Inr (TotpBackend (DevInsecureBackend dev_user) ((ae_totp a)\<lparr>secret_for := (\<lambda>_. Some secret)\<rparr>)))) (\<lambda>password.
     rbind (authorized_keys_path e) (\<lambda>keys.
     Inr (Registry_new
       ([password, PubkeyBackend ((ae_pubkey a)\<lparr>resolver := (\<lambda>_. Some keys)\<rparr>)]
        @ (case mc_oidc cfg of Some o' \<Rightarrow> [OidcBackend o' (ae_oidc a)] | None \<Rightarrow> []))
       FAIL_DELAY (mc_policy cfg))))"

text \<open>The development server about to serve.\<close>

record DevServing =
  dv_registry :: Registry
  dv_endpoint :: ServerEndpoint
  dv_path :: string
  dv_max_auth_fails :: u32
  dv_allow_forward :: bool
  dv_allow_remote_forward :: bool

definition run_dev ::
  "QuicLib \<Rightarrow> environ \<Rightarrow> ('jwk, 'key) AuthEnv \<Rightarrow> string \<Rightarrow> string option \<Rightarrow> MonConfig \<Rightarrow> start_error + DevServing" where
  "run_dev lib e a dev_user totp_secret cfg =
     rbind (dev_registry e a dev_user totp_secret cfg) (\<lambda>registry.
     rbind (map_sum DevEndpoint id (dev_endpoint lib (mc_listen cfg))) (\<lambda>ep.
     Inr \<lparr>dv_registry = registry, dv_endpoint = ep, dv_path = mc_path cfg, dv_max_auth_fails = mc_max_auth_fails cfg,
       dv_allow_forward = mc_allow_forward cfg, dv_allow_remote_forward = mc_allow_remote_forward cfg\<rparr>))"

subsection \<open>The host key\<close>

text \<open>\<^verbatim>\<open>Path::with_extension\<close>: the last component up to its last dot, unless that is its first character,
  with the new extension.\<close>

definition file_stem :: "string \<Rightarrow> string" where
  "file_stem name = (case rsplit_once (CHR ''.'') name of Some (s, _) \<Rightarrow> if s = [] then name else s | None \<Rightarrow> name)"

definition with_extension :: "string \<Rightarrow> string \<Rightarrow> string" where
  "with_extension p ext = (case path_file_name p of
       None \<Rightarrow> p
     | Some name \<Rightarrow> pieces_path (butlast (path_pieces p) @ [file_stem name @ ''.'' @ ext]))"

lemma with_extension_examples:
  "with_extension ''/var/lib/host_key.der'' ''crt'' = ''/var/lib/host_key.crt''"
  "with_extension ''key'' ''crt'' = ''key.crt''" "with_extension ''a/.hidden'' ''crt'' = ''a/.hidden.crt''"
  by code_simp+

text \<open>Files with their permission bits; a write keeps those of a file that is there and gives new ones
  \<open>umask\<close>.  \<open>writes\<close> and \<open>chmods\<close> say which calls succeed.\<close>

type_synonym mode_files = "string \<Rightarrow> (u32 \<times> byte list) option"

definition write_file :: "u32 \<Rightarrow> (string \<Rightarrow> bool) \<Rightarrow> string \<Rightarrow> byte list \<Rightarrow> mode_files \<Rightarrow> mode_files option" where
  "write_file umask writes p bs fs =
     (if writes p then Some (fs(p \<mapsto> (case fs p of Some (m, _) \<Rightarrow> m | None \<Rightarrow> umask, bs))) else None)"

definition chmod_file :: "(string \<Rightarrow> bool) \<Rightarrow> string \<Rightarrow> u32 \<Rightarrow> mode_files \<Rightarrow> mode_files option" where
  "chmod_file chmods p m fs = (if chmods p then Some (fs(p := map_option (\<lambda>(_, bs). (m, bs)) (fs p))) else None)"

datatype identity_error = ReadHostKey | WriteHostKey | ChmodHostKey | GenerateFailed

text \<open>The certificate and key, and the files afterwards.  \<open>id_generate\<close> is a fresh self-signed
  pair for some names.\<close>

record IdentityFs =
  id_umask :: u32
  id_reads :: "string \<Rightarrow> bool"
  id_writes :: "string \<Rightarrow> bool"
  id_chmods :: "string \<Rightarrow> bool"
  id_generate :: "string list \<Rightarrow> (byte list \<times> byte list) option"

text \<open>The certificate, the key, and the bytes of the key.\<close>

definition generate_identity :: "IdentityFs \<Rightarrow> identity_error + byte list \<times> byte list \<times> byte list" where
  "generate_identity os =
     rbind (ok_or GenerateFailed (id_generate os [''localhost''])) (\<lambda>(cert_der, key_bytes).
     Inr (cert_der, key_bytes, key_bytes))"

definition host_identity ::
  "IdentityFs \<Rightarrow> string option \<Rightarrow> mode_files \<Rightarrow> (identity_error + byte list \<times> byte list) \<times> mode_files" where
  "host_identity os path fs = (case path of
       None \<Rightarrow> (rbind (generate_identity os) (\<lambda>(cert, key, _). Inr (cert, key)), fs)
     | Some p \<Rightarrow>
         let cert_path = with_extension p ''crt'' in
         (case (fs p, fs cert_path) of
            (Some (_, key), Some (_, cert)) \<Rightarrow>
              (if id_reads os p \<and> id_reads os cert_path then Inr (cert, key) else Inl ReadHostKey, fs)
          | _ \<Rightarrow> (case generate_identity os of
                Inl e \<Rightarrow> (Inl e, fs)
              | Inr (cert, key, key_bytes) \<Rightarrow> (case write_file (id_umask os) (id_writes os) p key_bytes fs of
                    None \<Rightarrow> (Inl WriteHostKey, fs)
                  | Some fs \<Rightarrow> (case chmod_file (id_chmods os) p 0x180 fs of
                        None \<Rightarrow> (Inl ChmodHostKey, fs)
                      | Some fs \<Rightarrow> (case write_file (id_umask os) (id_writes os) cert_path cert fs of
                            None \<Rightarrow> (Inl WriteHostKey, fs)
                          | Some fs \<Rightarrow> (Inr (cert, key), fs)))))))"

subsection \<open>The socket directory\<close>

definition socket_dir_for :: "u32 \<Rightarrow> string \<Rightarrow> string" where
  "socket_dir_for process_id chroot_dir =
     rev (dropWhile (\<lambda>c. c = CHR ''/'') (rev chroot_dir)) @ ''.sock.d-'' @ show_nat (unat process_id)"

text \<open>What is at a path: the owner, and whether it is a directory itself and not a link to one.\<close>

record dir_entry =
  de_uid :: u32
  de_is_dir :: bool

datatype socket_dir_error = StatFailed | ForeignSocketDir | ClearFailed | CreateFailed

text \<open>\<open>there\<close>: the path leads to something, links followed; \<open>existing\<close>: the entry itself; \<open>clears\<close>: removing
  the old directory works; \<open>mkdir_as\<close>: the owner of a directory created now, if
  that works.\<close>

definition prepare_socket_dir :: "bool \<Rightarrow> bool \<Rightarrow> u32 option \<Rightarrow> dir_entry option \<Rightarrow> socket_dir_error + dir_entry" where
  "prepare_socket_dir there clears mkdir_as existing =
     rbind (if \<not> there then Inr () else case existing of
         None \<Rightarrow> Inl StatFailed
       | Some d \<Rightarrow> if de_uid d \<noteq> 0 \<or> \<not> de_is_dir d then Inl ForeignSocketDir else if clears then Inr () else Inl ClearFailed) (\<lambda>_.
     case mkdir_as of
       None \<Rightarrow> Inl CreateFailed
     | Some uid \<Rightarrow> if uid \<noteq> 0 then Inl ForeignSocketDir else Inr \<lparr>de_uid = uid, de_is_dir = True\<rparr>)"

subsection \<open>The hand-off to the worker\<close>

definition ENV_CTRL_PATH :: string where "ENV_CTRL_PATH = ''QUISH_CTRL_PATH''"
definition ENV_SIGN_PATH :: string where "ENV_SIGN_PATH = ''QUISH_SIGN_PATH''"
definition ENV_LISTEN :: string where "ENV_LISTEN = ''QUISH_LISTEN''"
definition ENV_PATH :: string where "ENV_PATH = ''QUISH_PATH''"
definition ENV_CHROOT :: string where "ENV_CHROOT = ''QUISH_CHROOT''"
definition ENV_USER :: string where "ENV_USER = ''QUISH_USER''"
definition ENV_SIGN_SCHEME :: string where "ENV_SIGN_SCHEME = ''QUISH_SIGN_SCHEME''"
definition ENV_MAX_AUTH_FAILS :: string where "ENV_MAX_AUTH_FAILS = ''QUISH_MAX_AUTH_FAILS''"
definition ENV_CERT :: string where "ENV_CERT = ''QUISH_CERT''"
definition ENV_ALLOW_FORWARD :: string where "ENV_ALLOW_FORWARD = ''QUISH_ALLOW_FORWARD''"
definition ENV_ALLOW_REMOTE_FORWARD :: string where "ENV_ALLOW_REMOTE_FORWARD = ''QUISH_ALLOW_REMOTE_FORWARD''"
definition ENV_NO_SECCOMP :: string where "ENV_NO_SECCOMP = ''QUISH_NO_SECCOMP''"

lemmas worker_env_defs = ENV_CTRL_PATH_def ENV_SIGN_PATH_def ENV_LISTEN_def ENV_PATH_def ENV_CHROOT_def ENV_USER_def
  ENV_SIGN_SCHEME_def ENV_MAX_AUTH_FAILS_def ENV_CERT_def ENV_ALLOW_FORWARD_def ENV_ALLOW_REMOTE_FORWARD_def ENV_NO_SECCOMP_def

definition show_bool :: "bool \<Rightarrow> string" where
  "show_bool b = (if b then ''true'' else ''false'')"

definition SCHEME :: u16 where
  "SCHEME = 0x0403"

definition worker_env :: "(byte list \<Rightarrow> string) \<Rightarrow> MonConfig \<Rightarrow> string \<Rightarrow> byte list \<Rightarrow> environ" where
  "worker_env b64 cfg sock_dir cert =
     [ENV_CTRL_PATH \<mapsto> path_join sock_dir ''ctrl'', ENV_SIGN_PATH \<mapsto> path_join sock_dir ''sign'',
      ENV_LISTEN \<mapsto> show_socket_addr (mc_listen cfg), ENV_PATH \<mapsto> mc_path cfg, ENV_CHROOT \<mapsto> mc_chroot_dir cfg,
      ENV_USER \<mapsto> mc_worker_user cfg, ENV_SIGN_SCHEME \<mapsto> show_nat (unat SCHEME),
      ENV_MAX_AUTH_FAILS \<mapsto> show_nat (unat (mc_max_auth_fails cfg)), ENV_ALLOW_FORWARD \<mapsto> show_bool (mc_allow_forward cfg),
      ENV_ALLOW_REMOTE_FORWARD \<mapsto> show_bool (mc_allow_remote_forward cfg), ENV_NO_SECCOMP \<mapsto> show_bool (mc_no_seccomp cfg),
      ENV_CERT \<mapsto> b64 cert]"

subsection \<open>The monitor\<close>

text \<open>What the monitor needs of the system until it serves.\<close>

record MonitorSys =
  os_identity :: IdentityFs
  os_load_key :: "byte list \<Rightarrow> SigningKey option"
  os_pid :: u32
  os_exists :: "string \<Rightarrow> bool"
  os_lstat :: "string \<Rightarrow> dir_entry option"
  os_clears :: bool
  os_mkdir_as :: "u32 option"
  os_bind :: "string \<Rightarrow> bool"
  os_exe :: bool
  os_spawn_worker :: bool

datatype monitor_error = IdentityFailed identity_error | LoadKey | SocketDirFailed socket_dir_error | BindSign | CurrentExe
  | BindCtrl | SpawnWorker

text \<open>The monitor about to serve its control socket: the host key, as bytes and as the key of the signing thread, the registry
  and the environment of the worker it has started.\<close>

record Monitoring =
  mr_key :: "byte list"
  mr_signing_key :: SigningKey
  mr_cert :: "byte list"
  mr_sock_dir :: string
  mr_registry :: Registry
  mr_worker_env :: environ

definition monitor_run ::
  "MonitorSys \<Rightarrow> (byte list \<Rightarrow> string) \<Rightarrow> ('jwk, 'key) AuthEnv \<Rightarrow> environ \<Rightarrow> MonConfig \<Rightarrow> mode_files \<Rightarrow> (monitor_error + Monitoring) \<times> mode_files" where
  "monitor_run os b64 a inherited cfg fs = (case host_identity (os_identity os) (mc_host_key cfg) fs of
       (Inl e, fs) \<Rightarrow> (Inl (IdentityFailed e), fs)
     | (Inr (cert, key), fs) \<Rightarrow>
         (case os_load_key os key of None \<Rightarrow> Inl LoadKey
          | Some signing_key \<Rightarrow> let sock_dir = socket_dir_for (os_pid os) (mc_chroot_dir cfg) in
            (case prepare_socket_dir (os_exists os sock_dir) (os_clears os) (os_mkdir_as os) (os_lstat os sock_dir) of
               Inl e \<Rightarrow> Inl (SocketDirFailed e)
             | Inr _ \<Rightarrow>
                 if \<not> os_bind os (path_join sock_dir ''sign'') then Inl BindSign
                 else if \<not> os_exe os then Inl CurrentExe
                 else if \<not> os_bind os (path_join sock_dir ''ctrl'') then Inl BindCtrl
                 else if \<not> os_spawn_worker os then Inl SpawnWorker
                 else Inr \<lparr>mr_key = key, mr_signing_key = signing_key, mr_cert = cert, mr_sock_dir = sock_dir,
                        mr_registry = build_registry (mc_totp cfg) (mc_policy cfg) (mc_oidc cfg) a,
                        mr_worker_env = inherited ++ worker_env b64 cfg sock_dir cert\<rparr>), fs))"

subsection \<open>The system call filter\<close>

definition WORKER_SYSCALLS :: "string list" where
  "WORKER_SYSCALLS =
     [''recvmsg'', ''sendmsg'', ''recvmmsg'', ''sendmmsg'', ''recvfrom'', ''sendto'', ''read'', ''write'', ''readv'', ''writev'', ''close'',
      ''socket'', ''bind'', ''connect'', ''getsockname'', ''getpeername'', ''getsockopt'', ''setsockopt'', ''listen'', ''accept4'', ''ioctl'',
      ''epoll_create1'', ''epoll_ctl'', ''epoll_wait'', ''epoll_pwait'', ''eventfd2'', ''futex'',
      ''clock_gettime'', ''gettimeofday'', ''clock_nanosleep'', ''nanosleep'', ''getrandom'',
      ''mmap'', ''munmap'', ''mremap'', ''mprotect'', ''madvise'', ''brk'',
      ''rt_sigaction'', ''rt_sigprocmask'', ''rt_sigreturn'', ''sigaltstack'',
      ''sched_yield'', ''sched_getaffinity'', ''getpid'', ''gettid'', ''uname'',
      ''clone'', ''clone3'', ''set_robust_list'', ''set_tid_address'', ''rseq'', ''fcntl'', ''exit'', ''exit_group'']"

datatype SeccompAction = AllowCall | LogCall | KillProcess

definition install_seccomp :: "bool \<Rightarrow> string \<Rightarrow> SeccompAction" where
  "install_seccomp enforce nr =
     (if nr \<in> set WORKER_SYSCALLS then AllowCall else if enforce then KillProcess else LogCall)"

subsection \<open>The worker\<close>

record WorkerSettings =
  ws_ctrl_path :: string
  ws_sign_path :: string
  ws_listen :: SocketAddr
  ws_path :: string
  ws_chroot :: string
  ws_user :: string
  ws_scheme :: u16
  ws_max_auth_fails :: u32
  ws_allow_forward :: bool
  ws_allow_remote_forward :: bool
  ws_cert :: "byte list"

datatype worker_error = WorkerEnv env_error | BadSetting string | SetupFailed string | DropFailed drop_error
  | EndpointError endpoint_error

definition wenv :: "env_error + 'a \<Rightarrow> worker_error + 'a" where
  "wenv r = (case r of Inl e \<Rightarrow> Inl (WorkerEnv e) | Inr x \<Rightarrow> Inr x)"

definition worker_settings :: "(string \<Rightarrow> byte list option) \<Rightarrow> environ \<Rightarrow> worker_error + WorkerSettings" where
  "worker_settings unb64 e =
     rbind (wenv (env_get e ENV_CTRL_PATH)) (\<lambda>ctrl.
     rbind (wenv (env_get e ENV_SIGN_PATH)) (\<lambda>sign.
     rbind (wenv (env_get e ENV_LISTEN)) (\<lambda>l.
     rbind (ok_or (BadSetting ''listen addr'') (parse_socket_addr l)) (\<lambda>listen.
     rbind (wenv (env_get e ENV_PATH)) (\<lambda>path.
     rbind (wenv (env_get e ENV_CHROOT)) (\<lambda>chroot.
     rbind (wenv (env_get e ENV_USER)) (\<lambda>user.
     rbind (wenv (env_get e ENV_SIGN_SCHEME)) (\<lambda>s.
     rbind (ok_or (BadSetting ''scheme'') (parse_u16 s)) (\<lambda>scheme.
     rbind (wenv (env_get e ENV_MAX_AUTH_FAILS)) (\<lambda>m.
     rbind (ok_or (BadSetting ''max_auth_fails'') (parse_u32 m)) (\<lambda>fails.
     rbind (wenv (env_get e ENV_CERT)) (\<lambda>c.
     rbind (ok_or (BadSetting ''decode cert'') (unb64 c)) (\<lambda>cert.
     Inr \<lparr>ws_ctrl_path = ctrl, ws_sign_path = sign, ws_listen = listen, ws_path = path, ws_chroot = chroot, ws_user = user,
       ws_scheme = scheme, ws_max_auth_fails = fails, ws_allow_forward = env_bool e ENV_ALLOW_FORWARD,
       ws_allow_remote_forward = env_bool e ENV_ALLOW_REMOTE_FORWARD, ws_cert = cert\<rparr>)))))))))))))"

text \<open>What the worker needs of the system, besides the kernel: the sockets it connects to and the
  address it binds, with the credentials it does so with, the libraries of its endpoint, and a
  signature over the signing socket.\<close>

record WorkerSys =
  sys_connect :: "string \<Rightarrow> Cred \<Rightarrow> bool"
  sys_bind :: "SocketAddr \<Rightarrow> Cred \<Rightarrow> bool"
  sys_seccomp :: bool
  sys_quic :: QuicLib
  sys_sign :: "byte list \<Rightarrow> byte list option"
  sys_passwd :: "string \<Rightarrow> PwUser option"

record WorkerServing =
  sv_settings :: WorkerSettings
  sv_cred :: Cred
  sv_filter :: "string \<Rightarrow> SeccompAction"
  sv_endpoint :: ServerEndpoint

definition worker_run ::
  "(string \<Rightarrow> byte list option) \<Rightarrow> WorkerSys \<Rightarrow> Kernel \<Rightarrow> environ \<Rightarrow> Cred \<Rightarrow> worker_error + WorkerServing" where
  "worker_run unb64 os k e c =
     rbind (worker_settings unb64 e) (\<lambda>ws.
     if \<not> sys_connect os (ws_ctrl_path ws) c then Inl (SetupFailed ''connect ctrl socket'')
     else if \<not> sys_connect os (ws_sign_path ws) c then Inl (SetupFailed ''connect sign socket'')
     else if \<not> sys_bind os (ws_listen ws) c then Inl (SetupFailed ''binding UDP socket'')
     else case drop_to_worker (sys_passwd os) k (ws_chroot ws) (ws_user ws) c of
         Inl d \<Rightarrow> Inl (DropFailed d)
       | Inr c \<Rightarrow>
           if \<not> sys_seccomp os then Inl (SetupFailed ''installing seccomp filter'')
           else case worker_endpoint (sys_quic os) (sys_sign os) (ws_scheme ws) (ws_cert ws) (ws_listen ws) of
               Inl err \<Rightarrow> Inl (EndpointError err)
             | Inr ep \<Rightarrow>
                 Inr \<lparr>sv_settings = ws, sv_cred = c, sv_filter = install_seccomp (\<not> env_bool e ENV_NO_SECCOMP), sv_endpoint = ep\<rparr>)"

subsection \<open>Lemmas\<close>

text \<open>What the allowlist leaves out, as its documentation says.\<close>

lemma dangerous_calls_filtered:
  "list_all (\<lambda>nr. install_seccomp True nr = KillProcess)
     [''openat'', ''execve'', ''ptrace'', ''io_uring_setup'', ''io_uring_enter'', ''bpf'', ''keyctl'', ''mount'', ''kexec_load'',
      ''process_vm_readv'', ''process_vm_writev'']"
  by code_simp

text \<open>The development server keeps the limits of the worker's endpoint.\<close>

lemma run_dev_limits:
  assumes "run_dev lib e a dev_user totp_secret cfg = Inr d"
  shows "server_limits lib (dv_endpoint d) \<and> se_listen (dv_endpoint d) = mc_listen cfg
    \<and> dev_registry e a dev_user totp_secret cfg = Inr (dv_registry d)"
  using assms
  by (cases "dev_registry e a dev_user totp_secret cfg"; cases "dev_endpoint lib (mc_listen cfg)")
    (auto simp: run_dev_def dest: dev_endpoint_limits)

text \<open>A key file that already has the certificate's extension is overwritten by the certificate.\<close>

lemma certificate_overwrites_key:
  "snd (host_identity \<lparr>id_umask = 0x1A4, id_reads = (\<lambda>_. True), id_writes = (\<lambda>_. True), id_chmods = (\<lambda>_. True),
      id_generate = (\<lambda>_. Some ([1], [2]))\<rparr> (Some ''key.crt'') Map.empty) ''key.crt'' = Some (0x180, [1])"
  by code_simp

text \<open>A persisted identity is loaded again on the next start.\<close>

lemma host_identity_stored:
  assumes "host_identity os (Some p) fs = (Inr (cert, key), fs')" "with_extension p ''crt'' \<noteq> p"
  shows "\<exists>m m'. fs' p = Some (m, key) \<and> fs' (with_extension p ''crt'') = Some (m', cert)"
proof (cases "id_generate os [''localhost'']")
  case (Some ck)
  then show ?thesis using assms
    by (cases ck) (auto simp: host_identity_def generate_identity_def ok_or_def write_file_def chmod_file_def Let_def
        split: option.splits prod.splits if_splits)
qed (use assms in \<open>auto simp: host_identity_def generate_identity_def ok_or_def Let_def split: option.splits prod.splits if_splits\<close>)

lemma host_identity_loads:
  "fs p = Some (m, key) \<Longrightarrow> fs (with_extension p ''crt'') = Some (m', cert) \<Longrightarrow> id_reads os p \<Longrightarrow> id_reads os (with_extension p ''crt'')
     \<Longrightarrow> host_identity os (Some p) fs = (Inr (cert, key), fs)"
  by (simp add: host_identity_def Let_def)

lemma host_identity_persists:
  assumes "host_identity os (Some p) fs = (Inr (cert, key), fs')"
    and "with_extension p ''crt'' \<noteq> p" "id_reads os' p" "id_reads os' (with_extension p ''crt'')"
    and "fs'' p = fs' p" "fs'' (with_extension p ''crt'') = fs' (with_extension p ''crt'')"
  shows "host_identity os' (Some p) fs'' = (Inr (cert, key), fs'')"
  using host_identity_stored [OF assms(1,2)] assms(3-) by (auto intro: host_identity_loads)

text \<open>The socket directory is root's own, or the monitor does not start.\<close>

lemma socket_dir_trusted: "prepare_socket_dir there clears mkdir_as existing = Inr d \<Longrightarrow> de_uid d = 0 \<and> de_is_dir d"
  by (auto simp: prepare_socket_dir_def split: option.splits if_splits)


definition settings_of :: "MonConfig \<Rightarrow> string \<Rightarrow> byte list \<Rightarrow> WorkerSettings" where
  "settings_of cfg sock_dir cert =
     \<lparr>ws_ctrl_path = path_join sock_dir ''ctrl'', ws_sign_path = path_join sock_dir ''sign'', ws_listen = mc_listen cfg,
      ws_path = mc_path cfg, ws_chroot = mc_chroot_dir cfg, ws_user = mc_worker_user cfg, ws_scheme = SCHEME,
      ws_max_auth_fails = mc_max_auth_fails cfg, ws_allow_forward = mc_allow_forward cfg,
      ws_allow_remote_forward = mc_allow_remote_forward cfg, ws_cert = cert\<rparr>"

lemma worker_env_get:
  "worker_env b64 cfg d cert ENV_CTRL_PATH = Some (path_join d ''ctrl'')"
  "worker_env b64 cfg d cert ENV_SIGN_PATH = Some (path_join d ''sign'')"
  "worker_env b64 cfg d cert ENV_LISTEN = Some (show_socket_addr (mc_listen cfg))"
  "worker_env b64 cfg d cert ENV_PATH = Some (mc_path cfg)"
  "worker_env b64 cfg d cert ENV_CHROOT = Some (mc_chroot_dir cfg)"
  "worker_env b64 cfg d cert ENV_USER = Some (mc_worker_user cfg)"
  "worker_env b64 cfg d cert ENV_SIGN_SCHEME = Some (show_nat (unat SCHEME))"
  "worker_env b64 cfg d cert ENV_MAX_AUTH_FAILS = Some (show_nat (unat (mc_max_auth_fails cfg)))"
  "worker_env b64 cfg d cert ENV_ALLOW_FORWARD = Some (show_bool (mc_allow_forward cfg))"
  "worker_env b64 cfg d cert ENV_ALLOW_REMOTE_FORWARD = Some (show_bool (mc_allow_remote_forward cfg))"
  "worker_env b64 cfg d cert ENV_NO_SECCOMP = Some (show_bool (mc_no_seccomp cfg))"
  "worker_env b64 cfg d cert ENV_CERT = Some (b64 cert)"
  by (simp_all add: worker_env_def worker_env_defs)

lemma worker_settings_handed:
  assumes "\<And>bs. unb64 (b64 bs) = Some bs" "parse_socket_addr (show_socket_addr (mc_listen cfg)) = Some (mc_listen cfg)"
  shows "worker_settings unb64 (inherited ++ worker_env b64 cfg d cert) = Inr (settings_of cfg d cert)"
proof -
  let ?e = "inherited ++ worker_env b64 cfg d cert"
  have "?e v = Some x" if "worker_env b64 cfg d cert v = Some x" for v x using that by simp
  note get = worker_env_get [THEN this]
  have "env_bool ?e ENV_ALLOW_FORWARD \<longleftrightarrow> mc_allow_forward cfg" "env_bool ?e ENV_ALLOW_REMOTE_FORWARD \<longleftrightarrow> mc_allow_remote_forward cfg"
    by (simp_all add: env_bool_def show_bool_def get)
  moreover have "parse_u16 (show_nat (unat SCHEME)) = Some SCHEME" by code_simp
  ultimately show ?thesis
    by (simp add: worker_settings_def settings_of_def env_get_def ok_or_def wenv_def get assms)
qed

lemma worker_run_handed:
  assumes b64: "\<And>bs. unb64 (b64 bs) = Some bs"
    and listen: "parse_socket_addr (show_socket_addr (mc_listen cfg)) = Some (mc_listen cfg)"
    and run: "worker_run unb64 os k (inherited ++ worker_env b64 cfg sock_dir cert) c = Inr w"
  shows "\<exists>c' ep. drop_to_worker (sys_passwd os) k (mc_chroot_dir cfg) (mc_worker_user cfg) c = Inr c'
    \<and> worker_endpoint (sys_quic os) (sys_sign os) SCHEME cert (mc_listen cfg) = Inr ep
    \<and> w = \<lparr>sv_settings = settings_of cfg sock_dir cert, sv_cred = c', sv_filter = install_seccomp (\<not> mc_no_seccomp cfg), sv_endpoint = ep\<rparr>"
proof -
  let ?e = "inherited ++ worker_env b64 cfg sock_dir cert"
  have ws: "worker_settings unb64 ?e = Inr (settings_of cfg sock_dir cert)"
    by (rule worker_settings_handed [OF b64 listen])
  have seccomp: "env_bool ?e ENV_NO_SECCOMP \<longleftrightarrow> mc_no_seccomp cfg"
    using worker_env_get(11) [of b64 cfg sock_dir cert] by (simp add: env_bool_def show_bool_def)
  from run ws show ?thesis by (auto simp: worker_run_def seccomp settings_of_def split: if_splits sum.splits)
qed

lemma monitor_run_serving:
  assumes "monitor_run mos b64 a inherited cfg fs = (Inr m, fs')"
  shows "host_identity (os_identity mos) (mc_host_key cfg) fs = (Inr (mr_cert m, mr_key m), fs')
    \<and> mr_registry m = build_registry (mc_totp cfg) (mc_policy cfg) (mc_oidc cfg) a
    \<and> os_load_key mos (mr_key m) = Some (mr_signing_key m) \<and> mr_sock_dir m = socket_dir_for (os_pid mos) (mc_chroot_dir cfg)
    \<and> mr_worker_env m = inherited ++ worker_env b64 cfg (mr_sock_dir m) (mr_cert m)"
  using assms by (auto simp: monitor_run_def Let_def split: prod.splits sum.splits option.splits if_splits)

lemma server_main_config:
  assumes "server_main read toml clap raw = Inr (MonitorMode cfg)"
  shows "\<exists>args file. clap raw = Some args \<and> cfg = merge_config args file
    \<and> (case sa_config args of Some p \<Rightarrow> FileConfig_load read toml p = Inr file | None \<Rightarrow> file = FileConfig_default)"
  using assms
  by (auto simp: server_main_def ok_or_def Let_def split: if_splits option.splits sum.splits)

subsection \<open>Properties\<close>

text \<open>C23: a server started from a command line and a configuration file serves as they say.  The
  monitor authenticates with the registry of the merged settings, and its worker, once it serves,
  has exactly those settings and the certificate of the key the monitor signs with, runs as the configured
  user, which is not root and cannot become root again, with no group but that user's, listens where
  configured with the transport limits of the server, and has the system call filter
  enforced unless the operator has turned it off.  The listen address prints to
  something that parses back.\<close>

theorem worker_serves_as_configured:
  assumes main: "server_main read toml clap raw = Inr (MonitorMode cfg)"
    and mon: "monitor_run mos b64 a inherited cfg fs = (Inr m, fs')"
    and run: "worker_run unb64 os k (mr_worker_env m) c = Inr w"
    and b64: "\<And>bs. unb64 (b64 bs) = Some bs"
    and listen: "parse_socket_addr (show_socket_addr (mc_listen cfg)) = Some (mc_listen cfg)" and k: "posix_ids k"
  shows "(\<exists>args file. clap raw = Some args \<and> cfg = merge_config args file
        \<and> (case sa_config args of Some p \<Rightarrow> FileConfig_load read toml p = Inr file | None \<Rightarrow> file = FileConfig_default))
    \<and> mr_registry m = build_registry (mc_totp cfg) (mc_policy cfg) (mc_oidc cfg) a
    \<and> host_identity (os_identity mos) (mc_host_key cfg) fs = (Inr (ws_cert (sv_settings w), mr_key m), fs')
    \<and> sv_settings w = settings_of cfg (mr_sock_dir m) (mr_cert m)
    \<and> (\<exists>pw. sys_passwd os (mc_worker_user cfg) = Some pw \<and> pw_uid pw \<noteq> 0 \<and> cr_uid (sv_cred w) = pw_uid pw
        \<and> cr_gid (sv_cred w) = pw_gid pw \<and> cr_groups (sv_cred w) = [pw_gid pw] \<and> k_setuid k 0 (sv_cred w) = None)
    \<and> server_limits (sys_quic os) (sv_endpoint w) \<and> se_listen (sv_endpoint w) = mc_listen cfg
    \<and> (\<forall>nr. sv_filter w nr = (if nr \<in> set WORKER_SYSCALLS then AllowCall
        else if mc_no_seccomp cfg then LogCall else KillProcess))"
proof -
  from monitor_run_serving [OF mon]
  have id: "host_identity (os_identity mos) (mc_host_key cfg) fs = (Inr (mr_cert m, mr_key m), fs')"
    and reg: "mr_registry m = build_registry (mc_totp cfg) (mc_policy cfg) (mc_oidc cfg) a"
    and e: "mr_worker_env m = inherited ++ worker_env b64 cfg (mr_sock_dir m) (mr_cert m)" by simp_all
  from worker_run_handed [OF b64 listen run [unfolded e]] obtain c' ep
    where d: "drop_to_worker (sys_passwd os) k (mc_chroot_dir cfg) (mc_worker_user cfg) c = Inr c'"
      and ep: "worker_endpoint (sys_quic os) (sys_sign os) SCHEME (mr_cert m) (mc_listen cfg) = Inr ep"
      and w: "w = \<lparr>sv_settings = settings_of cfg (mr_sock_dir m) (mr_cert m), sv_cred = c',
                   sv_filter = install_seccomp (\<not> mc_no_seccomp cfg), sv_endpoint = ep\<rparr>" by blast
  from worker_cannot_regain_root [OF k d] server_main_config [OF main] worker_endpoint_limits [OF ep] show ?thesis
    by (simp add: w install_seccomp_def id reg settings_of_def)
qed

definition demo_args :: ServerArgs where
  "demo_args =
     \<lparr>sa_config = None, sa_listen = None, sa_path = Some ''/s'', sa_dev_insecure_user = None, sa_dev_insecure_totp_secret = None,
      sa_totp = True, sa_privsep_dir = None, sa_privsep_user = None, sa_host_key = Some ''/k.der'', sa_max_auth_fails = None,
      sa_allow_forward = True, sa_allow_remote_forward = False, sa_no_seccomp = False, sa_allow_users = [], sa_deny_users = [],
      sa_internal_worker = False, sa_internal_run_session = False\<rparr>"

definition demo_quic :: QuicLib where
  "demo_quic = \<lparr>quic_transport = \<lparr>max_idle_timeout = Some (secs 30), max_concurrent_bidi_streams = 100, keep_alive_interval = None\<rparr>,
     quic_idle = Some, quic_tls = (\<lambda>_. True), quic_server = (\<lambda>_. True), quic_runtime = True, quic_adopt = True,
     single_cert = (\<lambda>_ _. None), self_signed = (\<lambda>_. None)\<rparr>"

definition demo_sys :: WorkerSys where
  "demo_sys = \<lparr>sys_connect = (\<lambda>_ _. True), sys_bind = (\<lambda>_ _. True), sys_seccomp = True, sys_quic = demo_quic,
     sys_sign = Some,
     sys_passwd = (\<lambda>n. if n = ''quish'' then Some \<lparr>pw_name = ''quish'', pw_uid = 900, pw_gid = 901, pw_dir = ''/'', pw_shell = []\<rparr> else None)\<rparr>"

definition demo_mon_sys :: MonitorSys where
  "demo_mon_sys = \<lparr>os_identity = \<lparr>id_umask = 0x1A4, id_reads = (\<lambda>_. True), id_writes = (\<lambda>_. True), id_chmods = (\<lambda>_. True),
       id_generate = (\<lambda>_. Some ([7], [8]))\<rparr>, os_load_key = (\<lambda>_. Some \<lparr>choose_scheme = (\<lambda>_. Some Some)\<rparr>), os_pid = 42, os_exists = (\<lambda>_. False), os_lstat = (\<lambda>_. None), os_clears = True,
     os_mkdir_as = Some 0, os_bind = (\<lambda>_. True), os_exe = True, os_spawn_worker = True\<rparr>"

definition demo_auth :: "(unit, unit) AuthEnv" where
  "demo_auth = \<lparr>ae_pwdb = getpwnam demo_env,
     ae_pubkey = \<lparr>now_secs = 0, pk_fs = Map.empty, resolver = Map.empty, ssh_from_openssh = (\<lambda>_. Inl ()),
       vk_from_bytes = (\<lambda>_. False), ed_verify = (\<lambda>_ _ _. False)\<rparr>,
     ae_pam = pam_lib demo_env,
     ae_totp = \<lparr>now_unix = 0, urandom = None, elapsed_nanos = [], hmac_sha1 = (\<lambda>_ _. []), secret_for = Map.empty\<rparr>,
     ae_read = Map.empty, ae_base32 = Map.empty,
     ae_oidc = \<lparr>read_file = Map.empty, parse_jwks = Map.empty, decode_header = Map.empty, jwk_kid = Map.empty,
       from_jwk = Map.empty, jwt_decode = (\<lambda>_ _ _. None), current_timestamp = 0\<rparr>\<rparr>"

lemma worker_serves_as_configured_witness:
  "\<exists>m w fs. monitor_run demo_mon_sys (map byte_char) demo_auth Map.empty (merge_config demo_args FileConfig_default) Map.empty = (Inr m, fs)
    \<and> fs ''/k.der'' = Some (0x180, [8]) \<and> fs ''/k.crt'' = Some (0x1A4, [7])
    \<and> worker_run (\<lambda>s. Some (as_bytes s)) demo_sys demo_kernel (mr_worker_env m) root_cred = Inr w
    \<and> cr_uid (sv_cred w) = 900 \<and> ws_cert (sv_settings w) = [7] \<and> sv_filter w ''execve'' = KillProcess"
proof -
  let ?cfg = "merge_config demo_args FileConfig_default"
  let ?m = "monitor_run demo_mon_sys (map byte_char) demo_auth Map.empty ?cfg Map.empty"
  have "\<not> isl (fst ?m) \<and> snd ?m ''/k.der'' = Some (0x180, [8]) \<and> snd ?m ''/k.crt'' = Some (0x1A4, [7])" by code_simp
  then obtain m fs where m: "?m = (Inr m, fs)" "fs ''/k.der'' = Some (0x180, [8])" "fs ''/k.crt'' = Some (0x1A4, [7])"
    by (cases ?m; cases "fst ?m") auto
  let ?r = "worker_run (\<lambda>s. Some (as_bytes s)) demo_sys demo_kernel (mr_worker_env (projr (fst ?m))) root_cred"
  have "\<not> isl ?r" by code_simp
  then obtain w where w: "worker_run (\<lambda>s. Some (as_bytes s)) demo_sys demo_kernel (mr_worker_env m) root_cred = Inr w"
    using m by (cases ?r) auto
  have main: "server_main (\<lambda>_. None) (\<lambda>_. None) (\<lambda>_. Some demo_args) [] = Inr (MonitorMode ?cfg)"
    by (simp add: server_main_def demo_args_def ok_or_def)
  have l: "parse_socket_addr (show_socket_addr (mc_listen ?cfg)) = Some (mc_listen ?cfg)" by code_simp
  have b: "Some (as_bytes (map byte_char bs)) = Some bs" for bs by (simp add: as_bytes_def comp_def)
  have c: "\<not> mc_no_seccomp ?cfg" "''execve'' \<notin> set WORKER_SYSCALLS" "mc_worker_user ?cfg = ''quish''"
    "mc_host_key ?cfg = Some ''/k.der''" by code_simp+
  have id: "fst (host_identity (os_identity demo_mon_sys) (Some ''/k.der'') Map.empty) = Inr ([7], [8])" by code_simp
  from worker_serves_as_configured [OF main m(1) w b l demo_kernel_posix] show ?thesis
    using m w c id by (intro exI [of _ m] exI [of _ w] exI [of _ fs]) (auto simp: demo_sys_def)
qed

end
