(* ===== verification/Login.thy ===== *)
theory Login
  imports Client_Channel Server_Config "HOL-Library.Countable"
begin

text \<open>
  Client and server together: \<^const>\<open>open_channel\<close> of the client against \<^const>\<open>handle_request\<close> of a
  server, of one process or with a monitor behind it, with the limiter, the backend's state and the
  clock as the world between them.
\<close>

subsection \<open>The server's side of a connection\<close>

text \<open>The two kinds of backend, with what they keep: the parked challenges, or the monitor's state.\<close>

datatype BackendState = DevState ChallengeStore | PrivsepState State

fun is_privsep :: "BackendState \<Rightarrow> bool" where
  "is_privsep (DevState chs) = False"
| "is_privsep (PrivsepState st) = True"

fun backend_challenges :: "BackendState \<Rightarrow> ChallengeStore" where
  "backend_challenges (DevState chs) = chs"
| "backend_challenges (PrivsepState st) = challenges st"

fun backend_users :: "BackendState \<Rightarrow> conn_id \<Rightarrow> string option" where
  "backend_users (DevState chs) = Map.empty"
| "backend_users (PrivsepState st) = users st"

record LoginWorld =
  lw_now :: nanos
  lw_limiter :: RateLimiter
  lw_fails :: u32
  lw_backend :: BackendState

text \<open>What does not change during a connection.  The registry, of the process or of the monitor, reads
  the clock, so it is given by the instant; \<open>site_elapsed\<close> is how long a verification started at an
  instant takes for a header and an answer, and \<open>site_env\<close> is the rest of the monitor's surroundings.\<close>

record Site =
  site_path :: string
  site_parse :: "string option \<Rightarrow> Credentials option"
  site_registry :: "nanos \<Rightarrow> Registry"
  site_elapsed :: "nanos \<Rightarrow> string option \<Rightarrow> ChallengeAnswer option \<Rightarrow> nanos"
  site_env :: MonEnv
  site_conn :: conn_id
  site_info :: ConnInfo
  site_max_fails :: u32
  site_enc :: "Challenge \<Rightarrow> string"
  site_dec :: "string \<Rightarrow> ChallengeAnswer option"

definition site_ip :: "Site \<Rightarrow> IpAddr" where
  "site_ip site = fst (peer_addr (site_info site))"

text \<open>An answer takes the parked challenge out of the store before anything is awaited.\<close>

definition after_take :: "nanos \<Rightarrow> conn_id \<Rightarrow> ChallengeAnswer option \<Rightarrow> ChallengeStore \<Rightarrow> ChallengeStore" where
  "after_take now c answer chs = (case answer of None \<Rightarrow> chs | Some ans \<Rightarrow> snd (cs_take now c (ans_token ans) chs))"

definition site_mon_env :: "Site \<Rightarrow> nanos \<Rightarrow> nanos \<Rightarrow> MonEnv" where
  "site_mon_env site started took = (site_env site)
     \<lparr>mon_verdict := verdict (site_parse site) (site_registry site started), mon_now := started, mon_done := started + took\<rparr>"

text \<open>The outcome with the instant it is there, and the backend afterwards.  A future the deadline drops
  parks no challenge in a server of one process; the monitor finishes its turn all the same.\<close>

definition site_auth ::
  "Site \<Rightarrow> nanos \<Rightarrow> BackendState \<Rightarrow> string option \<Rightarrow> ChallengeAnswer option \<Rightarrow> (AuthOutcome \<times> nanos) poll \<times> BackendState" where
  "site_auth site started bk authorization answer =
     (let took = site_elapsed site started authorization answer; c = site_conn site in
      case bk of
        DevState chs \<Rightarrow>
          (case dev_authenticate (site_parse site) (site_registry site started) chs started took c authorization answer
                  (site_info site) of
             Ready (out, t, chs') \<Rightarrow>
               (Ready (out, t), DevState (if t - started \<le> AUTH_DEADLINE then chs' else after_take started c answer chs))
           | Pending \<Rightarrow> (Pending, DevState (after_take started c answer chs)))
      | PrivsepState st \<Rightarrow>
          (case handle (site_mon_env site started took) st (auth_request c authorization answer (site_info site)) of
             Ready (st', resp, fds, _) \<Rightarrow>
               (Ready (privsep_authenticate FAIL_DELAY started took (Inr (resp, fds))), PrivsepState st')
           | Pending \<Rightarrow> (Pending, PrivsepState (st\<lparr>challenges := after_take started c answer (challenges st)\<rparr>))))"

fun reply_response :: "http_reply \<Rightarrow> HttpResponse" where
  "reply_response (Status n) = \<lparr>status = n, challenge_header = None\<rparr>"
| "reply_response (Challenge401 h) = \<lparr>status = 401, challenge_header = Some h\<rparr>"
| "reply_response ServeChannel = \<lparr>status = 200, challenge_header = None\<rparr>"

definition serve_request :: "Site \<Rightarrow> LoginWorld \<Rightarrow> HttpRequest \<Rightarrow> HttpResponse option \<times> LoginWorld" where
  "serve_request site w req =
     (let started = lw_now w + backoff (site_ip site) (lw_limiter w);
          bk = (if pre_auth (site_path site) (lw_fails w) (site_max_fails site) req \<noteq> None then lw_backend w
            else snd (site_auth site started (lw_backend w) (header req ''authorization'')
                   (Option.bind (header req ''quish-challenge-response'') (site_dec site))))
      in case handle_request (site_path site) (site_enc site) (site_dec site)
                (\<lambda>a ans. poll_bind (fst (site_auth site started (lw_backend w) a ans)) (\<lambda>(out, t). Ready (out, t - started)))
                (lw_now w) (site_ip site) (site_max_fails site) req (lw_limiter w) (lw_fails w)
         of (r, t, rl, n) \<Rightarrow> (Some (reply_response r), \<lparr>lw_now = t, lw_limiter = rl, lw_fails = n, lw_backend = bk\<rparr>))"

text \<open>The user reads the code at the instant of the prompt and takes \<open>delay\<close> to type it.\<close>

definition typing :: "(nanos \<Rightarrow> string) \<Rightarrow> nanos \<Rightarrow> LoginWorld \<Rightarrow> Prompt \<Rightarrow> string option \<times> LoginWorld" where
  "typing code delay w p = (Some (code (lw_now w)), w\<lparr>lw_now := lw_now w + delay\<rparr>)"

subsection \<open>Lemmas\<close>

lemma client_request_admitted:
  assumes "build_connect_request_with http target authorization answer = Some req"
    and "uri_path_of http (''https://'' @ socket_target (tg_host target) (tg_port target) @ tg_path target) = Some path"
    and "n < m"
  shows "pre_auth path n m req = None" "header req ''authorization'' = Some authorization"
    "header req ''quish-challenge-response'' = answer"
proof -
  have "version_supported (Some (show_nat (unat PROTOCOL_VERSION)))" by (simp add: version_supported_def parse_u32_show_nat)
  with assms show "pre_auth path n m req = None" "header req ''authorization'' = Some authorization"
    "header req ''quish-challenge-response'' = answer"
    by (auto simp: build_connect_request_with_def pre_auth_None_iff split: if_splits option.splits)
qed

lemma serve_request_admitted:
  assumes "pre_auth (site_path site) (lw_fails w) (site_max_fails site) req = None"
    and "started = lw_now w + backoff (site_ip site) (lw_limiter w)"
    and "site_auth site started (lw_backend w) (header req ''authorization'')
      (Option.bind (header req ''quish-challenge-response'') (site_dec site)) = (Ready (out, t), bk)"
    and "started \<le> t"
  shows "serve_request site w req =
    (let out = (if t - started \<le> AUTH_DEADLINE then out else ODeny); t = (if t - started \<le> AUTH_DEADLINE then t else started + AUTH_DEADLINE)
     in case after_auth (site_enc site) t (site_ip site) out (lw_limiter w) (lw_fails w) of (r, rl, n) \<Rightarrow>
       (Some (reply_response r), \<lparr>lw_now = t, lw_limiter = rl, lw_fails = n, lw_backend = bk\<rparr>))"
  using assms by (simp add: serve_request_def Let_def handle_request_def with_deadline_def split: prod.split)

text \<open>The connection as the registry sees it, and the least time a non-success takes.\<close>

definition resumed :: "Site \<Rightarrow> nanos \<Rightarrow> BackendState \<Rightarrow> ChallengeAnswer option \<Rightarrow> ConnInfo" where
  "resumed site started bk answer = (site_info site)\<lparr>challenge := (case answer of None \<Rightarrow> None
     | Some a \<Rightarrow> map_option (\<lambda>s. ChallengeResponse_new s (responses a))
         (fst (cs_take started (site_conn site) (ans_token a) (backend_challenges bk))))\<rparr>"

fun site_floor :: "Site \<Rightarrow> nanos \<Rightarrow> BackendState \<Rightarrow> nanos" where
  "site_floor site started (DevState chs) = fail_delay (site_registry site started)"
| "site_floor site started (PrivsepState st) = FAIL_DELAY"

text \<open>A connection without a challenge of its own, whose peer's address survives being printed and parsed
  on the way to the monitor.\<close>

definition plain_conn :: "ConnInfo \<Rightarrow> bool" where
  "plain_conn conn \<longleftrightarrow> challenge conn = None
     \<and> parse_socket_addr (show_socket_addr (peer_addr conn)) = Some (peer_addr conn)"

definition outcome_of :: "Verdict \<Rightarrow> AuthOutcome" where
  "outcome_of v = (case v of Allow _ \<Rightarrow> OAllow
     | ChallengeV st ps \<Rightarrow> OChallenge \<lparr>chal_token = token st, prompts = ps\<rparr> | Deny \<Rightarrow> ODeny)"

definition store_after :: "Verdict \<Rightarrow> nanos \<Rightarrow> conn_id \<Rightarrow> ChallengeStore \<Rightarrow> ChallengeStore" where
  "store_after v created c chs = (case v of ChallengeV st ps \<Rightarrow> cs_insert created c st chs | _ \<Rightarrow> chs)"

text \<open>Both backends do what the registry's verdict says: the same outcome at the same instant up to the
  floor, the challenge parked between the start and that instant, and with a monitor the user bound.\<close>

lemma site_auth_dev:
  assumes "plain_conn (site_info site)"
    and "verdict (site_parse site) (site_registry site started) auth (resumed site started (DevState chs) ans) = Ready v"
    and "took = site_elapsed site started auth ans"
    and "t = (if is_allow v then started + took else started + max took (fail_delay (site_registry site started)))"
  shows "site_auth site started (DevState chs) auth ans = (Ready (outcome_of v, t),
     DevState (if t - started \<le> AUTH_DEADLINE then store_after v t (site_conn site) (after_take started (site_conn site) ans chs)
          else after_take started (site_conn site) ans chs))"
proof -
  let ?c = "site_conn site"
  have taken: "(case ans of None \<Rightarrow> (site_info site, chs)
      | Some a \<Rightarrow> (case cs_take started ?c (ans_token a) chs of (p, chs) \<Rightarrow>
          ((site_info site)\<lparr>challenge := map_option (\<lambda>s. ChallengeResponse_new s (responses a)) p\<rparr>, chs)))
      = (resumed site started (DevState chs) ans, after_take started ?c ans chs)"
    using assms(1) by (cases ans) (simp_all add: resumed_def after_take_def plain_conn_def case_prod_unfold)
  have "dev_authenticate (site_parse site) (site_registry site started) chs started took ?c auth ans (site_info site)
      = Ready (outcome_of v, t, store_after v t ?c (after_take started ?c ans chs))"
    unfolding dev_authenticate_def taken
    using assms(2,4) by (cases v) (simp_all add: authenticate_def outcome_of_def store_after_def nat_add_max_right)
  then show ?thesis by (simp add: site_auth_def Let_def assms(3))
qed

lemma site_auth_privsep:
  assumes "plain_conn (site_info site)"
    and "verdict (site_parse site) (site_registry site started) auth (resumed site started (PrivsepState st) ans) = Ready v"
    and "took = site_elapsed site started auth ans"
    and "t = (if is_allow v then started + took else started + max took FAIL_DELAY)"
  shows "\<exists>st'. site_auth site started (PrivsepState st) auth ans = (Ready (outcome_of v, t), PrivsepState st')
    \<and> challenges st' = store_after v (started + took) (site_conn site) (after_take started (site_conn site) ans (challenges st))
    \<and> users st' = (case v of Allow u \<Rightarrow> (users st)(site_conn site \<mapsto> u) | _ \<Rightarrow> users st)"
proof -
  let ?c = "site_conn site" and ?e = "site_mon_env site started took"
  have ci: "auth_conn_info ?e st ?c (show_socket_addr (peer_addr (site_info site))) (channel_binding (site_info site)) ans
      = (resumed site started (PrivsepState st) ans, st\<lparr>challenges := after_take started ?c ans (challenges st)\<rparr>)"
    using assms(1) by (cases ans; cases "site_info site")
      (simp_all add: auth_conn_info_def resumed_def after_take_def plain_conn_def site_mon_env_def case_prod_unfold)
  have mv: "mon_verdict ?e = verdict (site_parse site) (site_registry site started)" "mon_done ?e = started + took"
    by (simp_all add: site_mon_env_def)
  show ?thesis
    using assms(2,4) by (cases v)
      (simp_all add: site_auth_def Let_def auth_request_def handle_authenticate_def ci mv assms(3) [symmetric] privsep_authenticate_def
        client_authenticate_def outcome_of_def store_after_def nat_add_max_right)
qed

lemma site_auth_verdict:
  assumes "plain_conn (site_info site)"
    and "verdict (site_parse site) (site_registry site started) auth (resumed site started bk ans) = Ready v"
    and "took = site_elapsed site started auth ans"
    and "t = (if is_allow v then started + took else started + max took (site_floor site started bk))"
  shows "\<exists>bk'. site_auth site started bk auth ans = (Ready (outcome_of v, t), bk')
    \<and> (t - started \<le> AUTH_DEADLINE \<longrightarrow> (\<exists>created. started \<le> created \<and> created \<le> t \<and>
         backend_challenges bk' = store_after v created (site_conn site) (after_take started (site_conn site) ans (backend_challenges bk))))
    \<and> backend_users bk' = (case (bk, v) of (PrivsepState st, Allow u) \<Rightarrow> (users st)(site_conn site \<mapsto> u) | _ \<Rightarrow> backend_users bk)
    \<and> is_privsep bk' = is_privsep bk"
proof (cases bk)
  case (DevState chs)
  then show ?thesis
    using site_auth_dev [of site started auth chs ans v took t] assms by (auto intro: exI [of _ t])
next
  case (PrivsepState st)
  have t: "t = (if is_allow v then started + took else started + max took FAIL_DELAY)"
    unfolding assms(4) PrivsepState by simp
  obtain st' where "site_auth site started (PrivsepState st) auth ans = (Ready (outcome_of v, t), PrivsepState st')"
    "challenges st' = store_after v (started + took) (site_conn site) (after_take started (site_conn site) ans (challenges st))"
    "users st' = (case v of Allow u \<Rightarrow> (users st)(site_conn site \<mapsto> u) | _ \<Rightarrow> users st)"
    using site_auth_privsep [OF assms(1) assms(2) [unfolded PrivsepState] assms(3) t] by blast
  then show ?thesis
    using t PrivsepState by (cases v) (auto intro: exI [of _ "started + took"])
qed

subsection \<open>Refusals\<close>

text \<open>Why a registry refuses: the header is missing or malformed, no backend takes its scheme, the backend
  that takes it says no, or the policy forbids the user it names.\<close>

definition refused :: "(string option \<Rightarrow> Credentials option) \<Rightarrow> Registry \<Rightarrow> string option \<Rightarrow> ConnInfo \<Rightarrow> bool" where
  "refused parse reg hdr conn \<longleftrightarrow> (case parse hdr of
       None \<Rightarrow> True
     | Some creds \<Rightarrow> (case find (\<lambda>b. supports b creds) (backends reg) of
           None \<Rightarrow> True
         | Some b \<Rightarrow> (case bk_authenticate b conn creds of
               Ready Deny \<Rightarrow> True
             | Ready (Allow u) \<Rightarrow> \<not> permits (policy reg) u
             | _ \<Rightarrow> False)))"

lemma refused_verdict: "refused parse reg hdr conn \<longleftrightarrow> verdict parse reg hdr conn = Ready Deny"
proof (cases "parse hdr")
  case None
  then show ?thesis by (simp add: refused_def verdict_def)
next
  case (Some creds)
  show ?thesis
  proof (cases "find (\<lambda>b. supports b creds) (backends reg)")
    case None
    with Some show ?thesis by (simp add: refused_def verdict_def dispatch_first)
  next
    case (Some b)
    then show ?thesis
      using \<open>parse hdr = Some creds\<close>
      by (cases "bk_authenticate b conn creds")
        (auto simp: refused_def verdict_def dispatch_first split: Verdict.splits)
  qed
qed

subsection \<open>Second factors\<close>

text \<open>A server that asks \<open>u\<close> for a second factor: \<open>u\<close>'s Authorization header carries the right first factor
  for \<open>factor\<close>, the first backend of the registry that takes such a header is the second factor around
  \<open>factor\<close>, the policy permits \<open>u\<close>, and \<open>u\<close> is enrolled with \<open>secret\<close>.  Verifications and the failure
  floor stay within the deadline.\<close>

definition two_factor_site :: "Site \<Rightarrow> AuthBackend \<Rightarrow> (nanos \<Rightarrow> TotpEnv) \<Rightarrow> string \<Rightarrow> string \<Rightarrow> byte list \<Rightarrow> bool" where
  "two_factor_site site factor totp authorization u secret \<longleftrightarrow>
     (\<exists>creds. site_parse site (Some authorization) = Some creds
        \<and> (\<forall>t. find (\<lambda>b. supports b creds) (backends (site_registry site t)) = Some (TotpBackend factor (totp t)))
        \<and> bk_authenticate factor (site_info site) creds = Ready (Allow u))
     \<and> (\<forall>t. permits (policy (site_registry site t)) u \<and> fail_delay (site_registry site t) \<le> AUTH_DEADLINE
          \<and> secret_for (totp t) u = Some secret)
     \<and> (\<forall>t h a. site_elapsed site t h a \<le> AUTH_DEADLINE)
     \<and> plain_conn (site_info site)"

text \<open>The registries of the monitor and of the server of one process are such: for a password, the second
  factor comes first.\<close>

lemma monitor_registry_two_factor:
  "ae_pam a = Some lib \<Longrightarrow> find (\<lambda>b. supports b (Password u pw)) (backends (build_registry True pol oidc a))
     = Some (TotpBackend (PamBackend lib) (totp_env a))"
  by (simp add: build_registry_def Registry_new_def PubkeyBackend_def TotpBackend_def PamBackend_def)

lemma dev_registry_two_factor:
  assumes "dev_registry e a dev_user (Some b32) cfg = Inr reg"
  shows "\<exists>secret. find (\<lambda>b. supports b (Password u pw)) (backends reg)
     = Some (TotpBackend (DevInsecureBackend dev_user) ((ae_totp a)\<lparr>secret_for := (\<lambda>_. Some secret)\<rparr>))"
proof -
  obtain secret where "decode_base32_secret (ae_base32 a) b32 = Some secret"
    using assms by (cases "decode_base32_secret (ae_base32 a) b32") (simp_all add: dev_registry_def ok_or_def)
  then show ?thesis
    using assms by (cases "authorized_keys_path e")
      (auto simp: dev_registry_def ok_or_def Registry_new_def TotpBackend_def DevInsecureBackend_def)
qed

lemma fail_delay_in_time: "FAIL_DELAY \<le> AUTH_DEADLINE"
  by (simp add: FAIL_DELAY_def AUTH_DEADLINE_def secs_def)

lemma site_floor_in_time: "two_factor_site site factor totp authorization u secret \<Longrightarrow> site_floor site t bk \<le> AUTH_DEADLINE"
  by (cases bk) (simp_all add: two_factor_site_def fail_delay_in_time)

lemma find_verdict:
  "parse a = Some creds \<Longrightarrow> find (\<lambda>b. supports b creds) (backends reg) = Some b \<Longrightarrow> bk_authenticate b conn creds = Ready v \<Longrightarrow>
     verdict parse reg a conn = Ready (case v of Allow u \<Rightarrow> if permits (policy reg) u then v else Deny | _ \<Rightarrow> v)"
  by (cases v) (simp_all add: verdict_def dispatch_first)

lemma first_round:
  assumes site: "two_factor_site site factor totp authorization u secret"
    and adm: "pre_auth (site_path site) (lw_fails w) (site_max_fails site) req = None"
      "header req ''authorization'' = Some authorization" "header req ''quish-challenge-response'' = None"
    and t0: "t0 = lw_now w + backoff (site_ip site) (lw_limiter w)"
  shows "\<exists>st t created bk. pending_user st = Some u \<and> t0 \<le> created \<and> created \<le> t \<and> t \<le> t0 + AUTH_DEADLINE
    \<and> backend_challenges bk (site_conn site) = Some (st, created) \<and> is_privsep bk = is_privsep (lw_backend w)
    \<and> serve_request site w req =
      (Some \<lparr>status = 401, challenge_header = Some (site_enc site \<lparr>chal_token = token st, prompts = [\<lparr>message = totp_prompt, echo = False\<rparr>]\<rparr>)\<rparr>,
       w\<lparr>lw_now := t, lw_backend := bk\<rparr>)"
proof -
  from site obtain creds where parse: "site_parse site (Some authorization) = Some creds"
    and fnd: "find (\<lambda>b. supports b creds) (backends (site_registry site t0)) = Some (TotpBackend factor (totp t0))"
    and fst: "bk_authenticate factor (site_info site) creds = Ready (Allow u)"
    and times: "site_elapsed site t0 (Some authorization) None \<le> AUTH_DEADLINE" and plain: "plain_conn (site_info site)"
    unfolding two_factor_site_def by blast
  define ps where "ps = [\<lparr>message = totp_prompt, echo = False\<rparr>]"
  define st where "st = \<lparr>token = new_token (totp t0), pending_user = Some u\<rparr>"
  define t where "t = t0 + max (site_elapsed site t0 (Some authorization) None) (site_floor site t0 (lw_backend w))"
  have info: "resumed site t0 (lw_backend w) None = site_info site"
    using plain by (simp add: resumed_def plain_conn_def)
  have "bk_authenticate (TotpBackend factor (totp t0)) (site_info site) creds = Ready (ChallengeV st ps)"
    using plain fst by (simp add: TotpBackend_def totp_authenticate_def open_challenge_def st_def ps_def plain_conn_def)
  from find_verdict [where parse = "site_parse site", OF parse fnd this]
  have v: "verdict (site_parse site) (site_registry site t0) (Some authorization) (resumed site t0 (lw_backend w) None)
      = Ready (ChallengeV st ps)" by (simp add: info)
  have tt: "t - t0 \<le> AUTH_DEADLINE" using times site_floor_in_time [OF site, of t0 "lw_backend w"] by (simp add: t_def)
  obtain bk created where sa: "site_auth site t0 (lw_backend w) (Some authorization) None = (Ready (outcome_of (ChallengeV st ps), t), bk)"
    and cr: "t0 \<le> created" "created \<le> t" "backend_challenges bk = store_after (ChallengeV st ps) created (site_conn site)
         (after_take t0 (site_conn site) None (backend_challenges (lw_backend w)))" "is_privsep bk = is_privsep (lw_backend w)"
    using site_auth_verdict [OF plain v refl, of t] tt by (auto simp: t_def)
  have "serve_request site w req =
      (Some \<lparr>status = 401, challenge_header = Some (site_enc site \<lparr>chal_token = token st, prompts = ps\<rparr>)\<rparr>, w\<lparr>lw_now := t, lw_backend := bk\<rparr>)"
    using serve_request_admitted [OF adm(1) t0, of "outcome_of (ChallengeV st ps)" t bk] sa adm(2,3) tt
    by (simp add: outcome_of_def after_auth_def t_def)
  moreover have "backend_challenges bk (site_conn site) = Some (st, created)"
    using cr(3) by (simp add: store_after_def cs_insert_def)
  ultimately show ?thesis
    using cr tt unfolding ps_def by (intro exI [of _ st] exI [of _ t] exI [of _ created] exI [of _ bk]) (simp add: st_def t_def)
qed

lemma second_round:
  assumes site: "two_factor_site site factor totp authorization u secret"
    and adm: "pre_auth (site_path site) (lw_fails w) (site_max_fails site) req = None"
      "header req ''authorization'' = Some authorization"
      "Option.bind (header req ''quish-challenge-response'') (site_dec site) = Some \<lparr>ans_token = token st, responses = [typed]\<rparr>"
    and st: "backend_challenges (lw_backend w) (site_conn site) = Some (st, created)" "pending_user st = Some u"
    and t0: "t0 = lw_now w + backoff (site_ip site) (lw_limiter w)" "t0 - created \<le> CHALLENGE_TTL"
    and code: "parse_u32 (trim typed) = Some code" "verify_at (hmac_sha1 (totp t0)) secret code (now_unix (totp t0))"
  shows "\<exists>w'. serve_request site w req = (Some \<lparr>status = 200, challenge_header = None\<rparr>, w')
    \<and> lw_fails w' = lw_fails w \<and> backoff (site_ip site) (lw_limiter w') = 0
    \<and> (is_privsep (lw_backend w) \<longrightarrow> backend_users (lw_backend w') (site_conn site) = Some u)"
proof -
  let ?a = "\<lparr>ans_token = token st, responses = [typed]\<rparr>"
  from site obtain creds where parse: "site_parse site (Some authorization) = Some creds"
    and fnd: "find (\<lambda>b. supports b creds) (backends (site_registry site t0)) = Some (TotpBackend factor (totp t0))"
    and pm: "permits (policy (site_registry site t0)) u" and sec: "secret_for (totp t0) u = Some secret"
    and times: "site_elapsed site t0 (Some authorization) (Some ?a) \<le> AUTH_DEADLINE" and plain: "plain_conn (site_info site)"
    unfolding two_factor_site_def by blast
  define t where "t = t0 + site_elapsed site t0 (Some authorization) (Some ?a)"
  have info: "challenge (resumed site t0 (lw_backend w) (Some ?a)) = Some (ChallengeResponse_new st [typed])"
    using st(1) t0(2) by (simp add: resumed_def cs_take_def)
  have "complete (totp t0) (ChallengeResponse_new st [typed]) = Allow u"
    using st(2) sec code by (simp add: complete_Allow_iff ChallengeResponse_new_def)
  then have "bk_authenticate (TotpBackend factor (totp t0)) (resumed site t0 (lw_backend w) (Some ?a)) creds = Ready (Allow u)"
    by (simp add: TotpBackend_def totp_authenticate_def info)
  from find_verdict [where parse = "site_parse site", OF parse fnd this]
  have v: "verdict (site_parse site) (site_registry site t0) (Some authorization) (resumed site t0 (lw_backend w) (Some ?a))
      = Ready (Allow u)" by (simp add: pm)
  obtain bk where sa: "site_auth site t0 (lw_backend w) (Some authorization) (Some ?a) = (Ready (outcome_of (Allow u), t), bk)"
    and us: "is_privsep (lw_backend w) \<longrightarrow> backend_users bk (site_conn site) = Some u"
    using site_auth_verdict [OF plain v refl, of t] by (cases "lw_backend w") (auto simp: t_def)
  show ?thesis
    using serve_request_admitted [OF adm(1) t0(1), of OAllow t bk] sa us adm(2,3) times
    by (simp add: outcome_of_def after_auth_def backoff_after_success t_def Let_def)
qed

subsection \<open>Properties\<close>

text \<open>C12: a user with the right first factor and an authenticator gets in, on a server of one process and
  on one with a monitor: the client's first request is answered with a challenge, the code read off the
  authenticator and typed within half a minute completes it, and the channel opens.  Neither the
  connection nor the address has a failure more for it, and a monitor holds the connection as that
  user's.  The server's registry is one whose first backend for the user's header is the second factor
  (as those of the monitor and of the server of one process are for passwords when the second factor is
  on).  The codecs of challenges and answers are inverse to each other, and the server's clock runs true
  over half a minute.\<close>

theorem two_factor_login_succeeds:
  assumes lib: "uri_path_of http (''https://'' @ socket_target (tg_host target) (tg_port target) @ tg_path target) = Some (site_path site)"
      "header_value_ok http authorization" "\<forall>a. header_value_ok http (enc a)"
    and codec: "\<forall>ch. dec (site_enc site ch) = Some ch" "\<forall>a. site_dec site (enc a) = Some a"
    and site: "two_factor_site site factor totp authorization u secret" "lw_fails w < site_max_fails site"
    and code: "\<forall>t d. t \<le> lw_now w + secs 60 \<longrightarrow> d \<le> secs 30 \<longrightarrow>
      parse_u32 (trim (code t)) = Some (current_code (hmac_sha1 (totp (t + d))) (now_unix (totp t)) secret)"
    and clock: "\<forall>t d. t \<le> lw_now w + secs 60 \<longrightarrow> d \<le> secs 30 \<longrightarrow> unat (now_unix (totp t)) \<le> unat (now_unix (totp (t + d)))
      \<and> unat (now_unix (totp (t + d))) \<le> unat (now_unix (totp t)) + 30"
    and delay: "delay + backoff (site_ip site) (lw_limiter w) \<le> secs 30"
    and login: "open_channel http dec (\<lambda>a. Some (enc a)) \<lparr>respond = serve_request site, read_answer = typing code delay\<rparr>
      target authorization w = (r, w')"
  shows "r = Inr () \<and> lw_fails w' = lw_fails w \<and> backoff (site_ip site) (lw_limiter w') = 0
    \<and> (is_privsep (lw_backend w) \<longrightarrow> backend_users (lw_backend w') (site_conn site) = Some u)"
proof -
  let ?srv = "\<lparr>respond = serve_request site, read_answer = typing code delay\<rparr>"
  obtain req1 where req1: "build_connect_request_with http target authorization None = Some req1"
    using lib by (simp add: build_connect_request_with_def)
  obtain st t created bk where st: "pending_user st = Some u"
    and t: "lw_now w + backoff (site_ip site) (lw_limiter w) \<le> created" "created \<le> t"
      "t \<le> lw_now w + backoff (site_ip site) (lw_limiter w) + AUTH_DEADLINE"
    and bk: "backend_challenges bk (site_conn site) = Some (st, created)" "is_privsep bk = is_privsep (lw_backend w)"
    and s1: "serve_request site w req1 =
      (Some \<lparr>status = 401, challenge_header = Some (site_enc site \<lparr>chal_token = token st, prompts = [\<lparr>message = totp_prompt, echo = False\<rparr>]\<rparr>)\<rparr>,
       w\<lparr>lw_now := t, lw_backend := bk\<rparr>)"
    using first_round [OF site(1) client_request_admitted [OF req1 lib(1) site(2)] refl] by blast
  define w1 where "w1 = w\<lparr>lw_now := t, lw_backend := bk\<rparr>"
  define w2 where "w2 = w1\<lparr>lw_now := t + delay\<rparr>"
  define a where "a = \<lparr>ans_token = token st, responses = [code t]\<rparr>"
  define d where "d = delay + backoff (site_ip site) (lw_limiter w)"
  obtain req2 where req2: "build_connect_request_with http target authorization (Some (enc a)) = Some req2"
    using lib by (simp add: build_connect_request_with_def)
  have f2: "lw_fails w2 < site_max_fails site" using site(2) by (simp add: w2_def w1_def)
  note adm2 = client_request_admitted [OF req2 lib(1) f2]
  have w2: "backend_challenges (lw_backend w2) (site_conn site) = Some (st, created)"
    "t + d = lw_now w2 + backoff (site_ip site) (lw_limiter w2)"
    "t + d - created \<le> CHALLENGE_TTL" "Option.bind (header req2 ''quish-challenge-response'') (site_dec site) = Some a"
    using delay codec(2) adm2(3) bk t by (simp_all add: w2_def w1_def d_def CHALLENGE_TTL_def AUTH_DEADLINE_def secs_def)
  have d: "t \<le> lw_now w + secs 60" "d \<le> secs 30" using delay t by (simp_all add: d_def AUTH_DEADLINE_def secs_def)
  have "verify_at (hmac_sha1 (totp (t + d))) secret (current_code (hmac_sha1 (totp (t + d))) (now_unix (totp t)) secret) (now_unix (totp (t + d)))"
    using clock [rule_format, OF d] by (intro verify_at_near) auto
  then obtain w3 where s2: "serve_request site w2 req2 = (Some \<lparr>status = 200, challenge_header = None\<rparr>, w3)"
      "lw_fails w3 = lw_fails w2" "backoff (site_ip site) (lw_limiter w3) = 0"
      "is_privsep (lw_backend w2) \<longrightarrow> backend_users (lw_backend w3) (site_conn site) = Some u"
    using second_round [OF site(1) adm2(1,2) w2(4) [unfolded a_def] w2(1) st w2(2,3)] code [rule_format, OF d] by blast
  have ans: "build_challenge_answer (typing code delay)
      \<lparr>chal_token = token st, prompts = [\<lparr>message = totp_prompt, echo = False\<rparr>]\<rparr> w1 = (Some a, w2)"
    by (simp add: build_challenge_answer_def typing_def a_def w2_def w1_def)
  have "open_rounds http dec (\<lambda>a. Some (enc a)) ?srv target authorization 2 (Some (enc a)) w2 = (Inr (), w3)"
    by (subst open_rounds.simps) (simp add: req2 s2(1))
  then have "open_channel http dec (\<lambda>a. Some (enc a)) ?srv target authorization w = (Inr (), w3)"
    unfolding open_channel_def MAX_CHALLENGE_ROUNDS_def numeral_3_eq_3 numeral_2_eq_2
    by (subst open_rounds.simps) (simp add: req1 s1 codec(1) ans w1_def [symmetric])
  then show ?thesis using login s2 bk(2) by (simp add: w2_def w1_def)
qed

text \<open>C26: every refusal looks the same to the client, whatever it is for: a missing or malformed header, a
  scheme no backend takes, credentials or a code the backend turns down, or a user the policy forbids; on a server of one process as on one with a monitor.  The reply is a bare 401, it counts
  as one failure for address and connection, nobody is let in, and it is sent at the floor after the
  verification began, if the verification took no longer than that; a longer one only delays it, up to
  the deadline.\<close>

theorem refusals_look_alike:
  assumes admitted: "pre_auth (site_path site) (lw_fails w) (site_max_fails site) req = None"
    and plain: "plain_conn (site_info site)"
    and started: "started = lw_now w + backoff (site_ip site) (lw_limiter w)"
    and answer: "answer = Option.bind (header req ''quish-challenge-response'') (site_dec site)"
    and ref: "refused (site_parse site) (site_registry site started) (header req ''authorization'')
      (resumed site started (lw_backend w) answer)"
    and took: "took = site_elapsed site started (header req ''authorization'') answer"
    and least: "least = site_floor site started (lw_backend w)" "least \<le> AUTH_DEADLINE"
    and t: "t = started + (if took \<le> least then least else min took AUTH_DEADLINE)"
  shows "\<exists>bk. serve_request site w req = (Some \<lparr>status = 401, challenge_header = None\<rparr>,
      \<lparr>lw_now = t, lw_limiter = record_failure t (site_ip site) (lw_limiter w), lw_fails = lw_fails w + 1, lw_backend = bk\<rparr>)
    \<and> backend_users bk = backend_users (lw_backend w)"
proof -
  have v: "verdict (site_parse site) (site_registry site started) (header req ''authorization'')
      (resumed site started (lw_backend w) answer) = Ready Deny"
    using ref by (simp add: refused_verdict)
  obtain bk where sa: "site_auth site started (lw_backend w) (header req ''authorization'') answer
      = (Ready (ODeny, started + max took least), bk)" and us: "backend_users bk = backend_users (lw_backend w)"
    using site_auth_verdict [OF plain v took refl] least(1)
    by (cases "lw_backend w") (auto simp: outcome_of_def)
  have "serve_request site w req = (Some \<lparr>status = 401, challenge_header = None\<rparr>,
      \<lparr>lw_now = t, lw_limiter = record_failure t (site_ip site) (lw_limiter w), lw_fails = lw_fails w + 1, lw_backend = bk\<rparr>)"
    using serve_request_admitted [OF admitted started sa [unfolded answer]] least(2)
    by (auto simp: t after_auth_def max_def min_def Let_def)
  then show ?thesis using us by blast
qed

text \<open>Concrete codecs, by numbering the values.\<close>

definition demo_enc_challenge :: "Challenge \<Rightarrow> string" where
  "demo_enc_challenge ch = show_nat (to_nat (chal_token ch, map (\<lambda>p. (message p, echo p)) (prompts ch)))"

definition demo_dec_challenge :: "string \<Rightarrow> Challenge option" where
  "demo_dec_challenge s = (case from_nat (digits_val s) of (tok, ps) \<Rightarrow>
     Some \<lparr>chal_token = tok, prompts = map (\<lambda>(m, e). \<lparr>message = m, echo = e\<rparr>) ps\<rparr>)"

definition demo_enc_answer :: "ChallengeAnswer \<Rightarrow> string" where
  "demo_enc_answer a = show_nat (to_nat (ans_token a, responses a))"

definition demo_dec_answer :: "string \<Rightarrow> ChallengeAnswer option" where
  "demo_dec_answer s = (case from_nat (digits_val s) of (tok, rs) \<Rightarrow> Some \<lparr>ans_token = tok, responses = rs\<rparr>)"

lemma demo_codecs: "demo_dec_challenge (demo_enc_challenge ch) = Some ch" "demo_dec_answer (demo_enc_answer a) = Some a"
proof -
  have "map (\<lambda>(m, e). \<lparr>message = m, echo = e\<rparr>) (map (\<lambda>p. (message p, echo p)) ps) = ps" for ps :: "Prompt list"
    by (induction ps) simp_all
  then show "demo_dec_challenge (demo_enc_challenge ch) = Some ch"
    by (simp add: demo_dec_challenge_def demo_enc_challenge_def show_nat_digits del: map_map)
  show "demo_dec_answer (demo_enc_answer a) = Some a"
    by (simp add: demo_dec_answer_def demo_enc_answer_def show_nat_digits)
qed

text \<open>A monitor with PAM and second factors on, and a user enrolled with a secret.\<close>

definition demo_enrolled :: "nanos \<Rightarrow> (unit, unit) AuthEnv" where
  "demo_enrolled t = demo_auth\<lparr>ae_totp := \<lparr>now_unix = word_of_nat (t div secs 1), urandom = Some [1], elapsed_nanos = [],
       hmac_sha1 = (\<lambda>k m. m @ k @ replicate 11 5), secret_for = Map.empty\<rparr>,
     ae_read := [''/h/.config/quish/totp'' \<mapsto> ''A4======''], ae_base32 := [''A4======'' \<mapsto> [7]]\<rparr>"

definition demo_policy :: UserPolicy where
  "demo_policy = \<lparr>allow_users = [''al''], deny_users = []\<rparr>"

lemma demo_enrolled_secret: "secret_for (totp_env (demo_enrolled t)) ''al'' = Some [7]"
proof -
  have "path_join ''/h'' ''.config/quish/totp'' = ''/h/.config/quish/totp''" "trim ''A4======'' = ''A4======''" by code_simp+
  then show ?thesis
    by (simp add: totp_env_def demo_enrolled_def demo_auth_def demo_env_def per_user_totp_secret_def decode_base32_secret_def)
qed

definition demo_site :: Site where
  "demo_site = \<lparr>site_path = ''/q'', site_parse = map_option (\<lambda>pw. Password ''al'' pw),
     site_registry = (\<lambda>t. build_registry True demo_policy None (demo_enrolled t)),
     site_elapsed = (\<lambda>_ _ _. 5), site_env = demo_env,
     site_conn = 1, site_info = \<lparr>peer_addr = (V4 1, 9), channel_binding = [], challenge = None\<rparr>,
     site_max_fails = 6, site_enc = demo_enc_challenge, site_dec = demo_dec_answer\<rparr>"

definition demo_world :: LoginWorld where
  "demo_world = \<lparr>lw_now = 0, lw_limiter = RateLimiter_default, lw_fails = 0, lw_backend = PrivsepState State_default\<rparr>"

definition demo_code :: "nanos \<Rightarrow> string" where
  "demo_code t = show_nat (unat (current_code (\<lambda>k m. m @ k @ replicate 11 5) (word_of_nat (t div secs 1)) [7]))"

lemma demo_plain: "plain_conn (site_info demo_site)"
proof -
  have "parse_socket_addr (show_socket_addr (V4 1, 9)) = Some (V4 1, 9)" by code_simp
  then show ?thesis by (simp add: plain_conn_def demo_site_def)
qed

lemma demo_two_factor_site:
  "two_factor_site demo_site (PamBackend (the (pam_lib demo_env))) (\<lambda>t. totp_env (demo_enrolled t)) ''x'' ''al'' [7]"
proof -
  have pam: "ae_pam (demo_enrolled t) = Some (the (pam_lib demo_env))" for t
    by (simp add: demo_enrolled_def demo_auth_def demo_env_def)
  have "bk_authenticate (PamBackend (the (pam_lib demo_env))) conn (Password ''al'' ''x'') = Ready (Allow ''al'')" for conn
    by (simp add: PamBackend_def pam_backend_authenticate_def demo_env_def)
  moreover have "permits (policy (build_registry True demo_policy None a)) ''al''"
    "fail_delay (build_registry True demo_policy None a) = FAIL_DELAY" for a :: "(unit, unit) AuthEnv"
    by (simp_all add: build_registry_def Registry_new_def demo_policy_def permits_def)
  moreover have "site_parse demo_site (Some ''x'') = Some (Password ''al'' ''x'')" "site_elapsed demo_site t h a = 5"
    "site_registry demo_site t = build_registry True demo_policy None (demo_enrolled t)" for t h a
    by (simp_all add: demo_site_def)
  moreover have "5 \<le> AUTH_DEADLINE" by (simp add: AUTH_DEADLINE_def secs_def)
  ultimately show ?thesis
    using demo_plain demo_enrolled_secret monitor_registry_two_factor [OF pam] fail_delay_in_time
    by (simp add: two_factor_site_def)
qed

lemma two_factor_login_succeeds_witness:
  "\<exists>w'. open_channel \<lparr>uri_path_of = (\<lambda>_. Some ''/q''), header_value_ok = (\<lambda>_. True)\<rparr> demo_dec_challenge
      (\<lambda>a. Some (demo_enc_answer a)) \<lparr>respond = serve_request demo_site, read_answer = typing demo_code (secs 20)\<rparr>
      \<lparr>tg_user = ''al'', tg_host = ''h'', tg_port = 443, tg_path = ''/q''\<rparr> ''x'' demo_world = (Inr (), w')
    \<and> backend_users (lw_backend w') 1 = Some ''al''"
    (is "\<exists>w'. open_channel ?http ?dec ?enc ?srv ?target ?auth ?w = _ \<and> _")
proof -
  obtain r w' where l: "open_channel ?http ?dec ?enc ?srv ?target ?auth ?w = (r, w')" by (metis prod.exhaust)
  have now: "now_unix (totp_env (demo_enrolled t)) = word_of_nat (t div secs 1)"
    and mac: "hmac_sha1 (totp_env (demo_enrolled t)) = (\<lambda>k m. m @ k @ replicate 11 5)" for t
    by (simp_all add: totp_env_def demo_enrolled_def)
  have clock: "unat (word_of_nat (t div secs 1) :: u64) = t div secs 1" if "t \<le> secs 90" for t
  proof -
    have "t div secs 1 \<le> secs 90 div secs 1" using that by (rule div_le_mono)
    then have "t div secs 1 < 2 ^ 64" by (simp add: secs_def)
    then show ?thesis by (simp add: unsigned_of_nat take_bit_nat_eq_self)
  qed
  have "unat (now_unix (totp_env (demo_enrolled t))) \<le> unat (now_unix (totp_env (demo_enrolled (t + d))))
      \<and> unat (now_unix (totp_env (demo_enrolled (t + d)))) \<le> unat (now_unix (totp_env (demo_enrolled t))) + 30"
    if "t \<le> secs 60" "d \<le> secs 30" for t d
  proof -
    have "(t + d) div secs 1 \<le> (t + 30 * secs 1) div secs 1" using that by (intro div_le_mono) (simp add: secs_def)
    then show ?thesis using that clock [of t] clock [of "t + d"] unfolding now by (simp add: secs_def div_le_mono)
  qed
  moreover have "parse_u32 (trim (demo_code t))
      = Some (current_code (hmac_sha1 (totp_env (demo_enrolled t'))) (now_unix (totp_env (demo_enrolled t))) [7])" for t t'
    unfolding now mac by (simp add: demo_code_def parse_u32_show_nat)
  ultimately have "r = Inr () \<and> backend_users (lw_backend w') 1 = Some ''al''"
    using two_factor_login_succeeds [OF _ _ _ _ _ demo_two_factor_site _ _ _ _ l] demo_codecs
    by (simp add: demo_site_def demo_world_def backoff_def RateLimiter_default_def RateLimiter_new_def secs_def)
  then show ?thesis by (simp add: l)
qed

lemma refusals_look_alike_witness:
  "\<exists>bk. serve_request demo_site demo_world (demo_request\<lparr>header := [''quish-version'' \<mapsto> ''2'']\<rparr>)
     = (Some \<lparr>status = 401, challenge_header = None\<rparr>, \<lparr>lw_now = secs 1,
          lw_limiter = record_failure (secs 1) (V4 1) RateLimiter_default, lw_fails = 1, lw_backend = bk\<rparr>)
    \<and> backend_users bk = Map.empty"
proof -
  have "version_supported (Some ''2'')" by code_simp
  then have "pre_auth ''/q'' 0 6 (demo_request\<lparr>header := [''quish-version'' \<mapsto> ''2'']\<rparr>) = None"
    by (simp add: pre_auth_None_iff demo_request_def)
  then show ?thesis
    using refusals_look_alike [of demo_site demo_world "demo_request\<lparr>header := [''quish-version'' \<mapsto> ''2'']\<rparr>", OF _ demo_plain refl refl]
    by (simp add: demo_site_def demo_world_def demo_request_def site_ip_def backoff_def RateLimiter_default_def RateLimiter_new_def
        refused_def FAIL_DELAY_def AUTH_DEADLINE_def secs_def State_default_def)
qed

end
