(* ===== verification/Worker_Run.thy ===== *)
theory Worker_Run
  imports Worker Session
begin

text \<open>
  What the worker does with the descriptors of a session the monitor has spawned,
  \<^verbatim>\<open>run_shell\<close>, \<^verbatim>\<open>run_exec\<close>, \<^verbatim>\<open>run_transfer\<close> and \<^verbatim>\<open>run_transfer_write\<close> of
  \<^verbatim>\<open>quish-server/src/worker.rs\<close>: the pump, the reaping of the session and the final status.

  Each gives the frames sent, how it ends, and the requests made of the monitor.
\<close>

type_synonym run_result = "ChannelMessage list \<times> (unit + unit) \<times> Request list"

text \<open>The last frame of a channel; a client that has hung up is not an error.\<close>

definition send_status :: "send_result \<Rightarrow> 32 word \<Rightarrow> ChannelMessage list \<times> (unit + unit)" where
  "send_status r code = (case r of
       SentOk \<Rightarrow> ([ExitStatus code], Inr ())
     | HungUp \<Rightarrow> ([], Inr ())
     | SendFailed \<Rightarrow> ([], Inl ()))"

text \<open>After the pump: an error leaves at once; otherwise the session is reaped, and its code sent when
  the output was drained.\<close>

definition after_pump :: "session_id \<Rightarrow> (unit + PumpEnd) \<Rightarrow> 32 word \<Rightarrow> send_result \<Rightarrow> run_result" where
  "after_pump sid end code r = (case end of
       Inl e \<Rightarrow> ([], Inl e, [])
     | Inr Drained \<Rightarrow> (case send_status r code of (sent, res) \<Rightarrow> (sent, res, [Reap sid]))
     | Inr ClientGone \<Rightarrow> ([], Inr (), [Reap sid]))"

text \<open>The size the terminal is given before anything else, then one resize for each frame that asks for
  it.\<close>

definition run_shell :: "session_id \<Rightarrow> u16 \<Rightarrow> u16 \<Rightarrow> PumpState \<Rightarrow> 32 word \<Rightarrow> send_result \<Rightarrow> run_result \<times> (u16 \<times> u16) list" where
  "run_shell sid cols rows s code r = (case pump_end s of
       None \<Rightarrow> ((to_client s, Inr (), []), (cols, rows) # resizes s)
     | Some e \<Rightarrow> (case after_pump sid e code r of (sent, res, reqs) \<Rightarrow>
         ((to_client s @ sent, res, reqs), (cols, rows) # resizes s)))"

text \<open>Signals are forwarded to the monitor while the pump runs.\<close>

definition run_exec :: "session_id \<Rightarrow> PumpState \<Rightarrow> 32 word \<Rightarrow> send_result \<Rightarrow> run_result" where
  "run_exec sid s code r =
     (let signals = map (SignalReq sid) (to_signals s) in
      case pump_end s of
        None \<Rightarrow> (to_client s, Inr (), signals)
      | Some e \<Rightarrow> (case after_pump sid e code r of (sent, res, reqs) \<Rightarrow> (to_client s @ sent, res, signals @ reqs)))"

definition run_transfer :: "session_id \<Rightarrow> (unit + byte list) list \<Rightarrow> send_result list \<Rightarrow> 32 word \<Rightarrow> run_result" where
  "run_transfer sid reads rs code = (case send_chunks rs (read_loop (length reads) reads) of
       (sent, Inl e, _, _) \<Rightarrow> (sent, Inl e, [])
     | (sent, Inr ClientGone, _, _) \<Rightarrow> (sent, Inr (), [Reap sid])
     | (sent, Inr Drained, _, rs) \<Rightarrow>
         (case send_status (case rs of r # _ \<Rightarrow> r | [] \<Rightarrow> SentOk) code of (status, res) \<Rightarrow> (sent @ status, res, [Reap sid])))"

text \<open>An upload: the bytes the helper gets on its standard input, and what follows once the helper has
  closed its output.  \<open>room\<close> is what the pipe takes before the helper stops reading.\<close>

definition run_transfer_write ::
  "session_id \<Rightarrow> nat \<Rightarrow> ChannelMessage list \<Rightarrow> 32 word \<Rightarrow> send_result \<Rightarrow> byte list \<times> run_result" where
  "run_transfer_write sid room frames code r =
     (write_loop room (frame_data frames),
      case send_status r code of (sent, res) \<Rightarrow> (sent, res, [Reap sid]))"

subsection \<open>Lemmas\<close>

text \<open>A session is reaped unless sending to the client failed.\<close>

lemma after_pump_reaps: "end \<noteq> Inl () \<Longrightarrow> snd (snd (after_pump sid end code r)) = [Reap sid]"
  by (cases "end") (auto simp: after_pump_def split: PumpEnd.splits prod.splits)

lemma send_error_skips_reap: "after_pump sid (Inl ()) code r = ([], Inl (), [])"
  by (simp add: after_pump_def)

text \<open>A download in order: the chunks as they were read, then the status.\<close>

lemma run_transfer_ok:
  assumes "list_all (\<lambda>c. c \<noteq> []) chunks"
  shows "run_transfer sid (map Inr chunks) [] code = (map Data chunks @ [ExitStatus code], Inr (), [Reap sid])"
  using read_loop_all [OF assms, of "length chunks" "[]"] by (simp add: run_transfer_def send_chunks_ok send_status_def)

end
