(* ===== verification/Dev_Session.thy ===== *)
theory Dev_Session
  imports Worker_Run Transport
begin

text \<open>
  The channels of the development server, \<^verbatim>\<open>serve\<close>, \<^verbatim>\<open>shell\<close> and \<^verbatim>\<open>exec\<close> of \<^verbatim>\<open>quish-server/src/session.rs\<close>, the
  choice between it and the worker in \<^verbatim>\<open>transport.rs\<close>, and how the two modes compare.
\<close>

subsection \<open>Dispatch\<close>

text \<open>The first frame of a channel: none, one that does not decode, or what to open.\<close>

datatype first_frame = NoFrame | BadOpen | Opens ChannelOpen

datatype dev_action =
    DevNothing
  | DevError
  | DevShell string u16 u16
  | DevExec string
  | DevForward string u16 bool
  | DevListen conn_id string u16 bool
  | DevData conn_id u64
  | DevRead string
  | DevWrite string u32
  | DevMkdir string u32

text \<open>There are no connections to tell apart: everything is parked for connection 0.\<close>

fun serve :: "bool \<Rightarrow> bool \<Rightarrow> first_frame \<Rightarrow> dev_action" where
  "serve allow_forward allow_remote_forward NoFrame = DevNothing"
| "serve allow_forward allow_remote_forward BadOpen = DevError"
| "serve allow_forward allow_remote_forward (Opens op) = (case op of
       Shell term' cols rows \<Rightarrow> DevShell term' cols rows
     | Exec command \<Rightarrow> DevExec command
     | Forward host port \<Rightarrow> DevForward host port allow_forward
     | RemoteForwardListen bind port \<Rightarrow> DevListen 0 bind port allow_remote_forward
     | RemoteForwardData cref \<Rightarrow> DevData 0 cref
     | ReadFile path \<Rightarrow> DevRead path
     | WriteFile path mode \<Rightarrow> DevWrite path mode
     | MkDir path mode \<Rightarrow> DevMkdir path mode)"

datatype Backend = Dev | Privsep

datatype served_channel = ByDev dev_action | ByWorker channel_action | ByNobody

text \<open>An authenticated channel goes to the code of the backend; in the worker, too, no first frame ends the
  channel quietly and a bad one is an error.\<close>

definition backend_serve :: "Backend \<Rightarrow> bool \<Rightarrow> bool \<Rightarrow> conn_id \<Rightarrow> first_frame \<Rightarrow> served_channel" where
  "backend_serve b allow_forward allow_remote_forward c f = (case b of
       Dev \<Rightarrow> ByDev (serve allow_forward allow_remote_forward f)
     | Privsep \<Rightarrow> (case f of Opens op \<Rightarrow> ByWorker (serve_channel c op) | _ \<Rightarrow> ByNobody))"

subsection \<open>Processes\<close>

text \<open>What \<^verbatim>\<open>wait\<close> says of a child: it exited with a code, was killed by a signal, or cannot be waited
  for.\<close>

datatype child_exit = ExitedWith "32 word" | Signalled | WaitFailed

fun child_code :: "child_exit \<Rightarrow> 32 word" where
  "child_code (ExitedWith c) = c"
| "child_code Signalled = - 1"
| "child_code WaitFailed = - 1"

record DevProcess =
  dp_argv :: "string list"
  dp_term :: "string option"

definition shell_process :: "string \<Rightarrow> string \<Rightarrow> DevProcess" where
  "shell_process default_prog term' = \<lparr>dp_argv = [default_prog], dp_term = Some (if term' = [] then ''xterm'' else term')\<rparr>"

definition exec_process :: "environ \<Rightarrow> string \<Rightarrow> DevProcess" where
  "exec_process e command = \<lparr>dp_argv = [unwrap_or (e ''SHELL'') ''/bin/sh'', ''-c'', command], dp_term = None\<rparr>"

text \<open>After the pump: the code of the child when its output was drained; the client may have hung up by
  then.\<close>

definition dev_finish :: "PumpState \<Rightarrow> 32 word \<Rightarrow> send_result \<Rightarrow> ChannelMessage list \<times> (unit + unit)" where
  "dev_finish s code r = (case pump_end s of
       None \<Rightarrow> (to_client s, Inr ())
     | Some (Inl e) \<Rightarrow> (to_client s, Inl e)
     | Some (Inr Drained) \<Rightarrow> (case send_status r code of (sent, res) \<Rightarrow> (to_client s @ sent, res))
     | Some (Inr ClientGone) \<Rightarrow> (to_client s, Inr ()))"

text \<open>A shell: the frames sent, the end, and the sizes its terminal is given.  An exit code the reaper
  could not get is -1.\<close>

definition dev_shell :: "u16 \<Rightarrow> u16 \<Rightarrow> PumpState \<Rightarrow> (32 word) option \<Rightarrow> send_result \<Rightarrow> (ChannelMessage list \<times> (unit + unit)) \<times> (u16 \<times> u16) list" where
  "dev_shell cols rows s exit r = (dev_finish s (unwrap_or exit (- 1)) r, (cols, rows) # resizes s)"

text \<open>A command: the frames sent, the end, and the signals its process is sent, if it still has an id.\<close>

definition dev_exec :: "nat option \<Rightarrow> PumpState \<Rightarrow> child_exit \<Rightarrow> send_result \<Rightarrow> (ChannelMessage list \<times> (unit + unit)) \<times> (nat \<times> Signal) list" where
  "dev_exec pid' s exit r =
     (dev_finish s (child_code exit) r, case pid' of Some p \<Rightarrow> map (\<lambda>sig. (p, sig)) (to_signals s) | None \<Rightarrow> [])"

subsection \<open>Lemmas\<close>

text \<open>For the client the two modes look alike: from the same run of the pump and the same exit code
  come the same frames and the same end.\<close>

lemma dev_exec_like_worker:
  assumes "pump_end s = Some e" "child_code exit = code"
  shows "fst (dev_exec p s exit r) = (case run_exec sid s code r of (frames, res, _) \<Rightarrow> (frames, res))"
  using assms
  by (auto simp: dev_exec_def dev_finish_def run_exec_def after_pump_def Let_def split: sum.splits PumpEnd.splits prod.splits)

lemma dev_shell_like_worker:
  assumes "pump_end s = Some e"
  shows "dev_shell cols rows s (Some code) r =
    (case run_shell sid cols rows s code r of ((frames, res, _), sizes) \<Rightarrow> ((frames, res), sizes))"
  using assms
  by (auto simp: dev_shell_def unwrap_or_def dev_finish_def run_shell_def after_pump_def split: sum.splits PumpEnd.splits prod.splits)

end
