(* ===== verification/Client_Cp.thy ===== *)
theory Client_Cp
  imports Client_Target Proto "HOL-Library.List_Lexorder" "HOL-Library.Char_ord"
begin

text \<open>
  \<^verbatim>\<open>quish cp\<close>, \<^verbatim>\<open>quish-client/src/cp.rs\<close>: the source and destination specifications, where a copy
  lands, the walk of a source directory and the transfers.
\<close>

subsection \<open>Specifications\<close>

datatype CpSpec = Local string | Remote "string option" string string

datatype cp_error =
    UnterminatedBracket | EmptyHost | NoColonAfterBracket | CannotDownloadDirectory
  | RemoteToRemote | BothLocal | SourceUnreadable | NotRegular | ConfigError config_error

text \<open>\<^verbatim>\<open>str::find\<close> of a character.\<close>

definition find_char :: "char \<Rightarrow> string \<Rightarrow> nat option" where
  "find_char c s = (if c \<in> set s then Some (length (takeWhile (\<lambda>x. x \<noteq> c) s)) else None)"

definition none_or_after :: "nat \<Rightarrow> nat option \<Rightarrow> bool" where
  "none_or_after i k = (case k of None \<Rightarrow> True | Some j \<Rightarrow> i < j)"

definition split_user :: "string \<Rightarrow> string option \<times> string" where
  "split_user s = (case find_char (CHR ''@'') s of
       Some i \<Rightarrow> if none_or_after i (find_char (CHR '':'') s) \<and> none_or_after i (find_char (CHR ''/'') s)
                then (Some (take i s), drop (i + 1) s) else (None, s)
     | None \<Rightarrow> (None, s))"

definition parse_cp_spec :: "string \<Rightarrow> cp_error + CpSpec" where
  "parse_cp_spec s = (case split_user s of (user, rest) \<Rightarrow>
     (case strip_prefix ''['' rest of
        Some after_bracket \<Rightarrow> (case split_once (CHR '']'') after_bracket of
            None \<Rightarrow> Inl UnterminatedBracket
          | Some (host, tail) \<Rightarrow>
              if host = [] then Inl EmptyHost
              else (case strip_prefix '':'' tail of
                  None \<Rightarrow> Inl NoColonAfterBracket
                | Some path \<Rightarrow> Inr (Remote user host path)))
      | None \<Rightarrow> (case split_once (CHR '':'') rest of
            Some (host, path) \<Rightarrow>
              if CHR ''/'' \<in> set host then Inr (Local s)
              else if host = [] then Inl EmptyHost else Inr (Remote user host path)
          | None \<Rightarrow> Inr (Local s))))"

subsection \<open>Where a copy lands\<close>

definition remote_basename :: "string \<Rightarrow> string option" where
  "remote_basename remote = (let base = last (split_on (CHR ''/'') remote) in if base = [] then None else Some base)"

definition resolve_local_dst :: "string \<Rightarrow> bool \<Rightarrow> string \<Rightarrow> cp_error + string" where
  "resolve_local_dst dst dst_is_dir remote =
     (if dst_is_dir \<or> suffix ''/'' dst
      then rbind (ok_or CannotDownloadDirectory (remote_basename remote)) (\<lambda>base. Inr (path_join dst base))
      else Inr dst)"

definition resolve_remote_dst :: "string \<Rightarrow> string \<Rightarrow> string" where
  "resolve_remote_dst dst src_name =
     (if dst = [] then src_name
      else if suffix ''/'' dst then dst @ src_name
      else if dst = ''.'' \<or> dst = ''..'' then dst @ ''/'' @ src_name
      else dst)"

definition trim_end_slashes :: "string \<Rightarrow> string" where
  "trim_end_slashes s = rev (dropWhile (\<lambda>c. c = CHR ''/'') (rev s))"

definition local_basename :: "string \<Rightarrow> string" where
  "local_basename src = (let trimmed = trim_end_slashes src in unwrap_or (path_file_name trimmed) trimmed)"

definition part_path :: "string \<Rightarrow> string" where
  "part_path final_path =
     (let name = unwrap_or (path_file_name final_path) ''download'';
          parent = (case path_parent final_path of Some (c # cs) \<Rightarrow> c # cs | _ \<Rightarrow> ''.'')
      in path_join parent (''.'' @ name @ ''.quish-part''))"

record CpArgs =
  cp_src :: string
  cp_dst :: string
  cp_identity :: "string option"
  cp_port :: "u16 option"
  cp_connect_path :: "string option"

definition resolve_cp_target ::
  "environ \<Rightarrow> string option \<Rightarrow> string \<Rightarrow> CpArgs \<Rightarrow> ClientConfig \<Rightarrow> config_error + Target \<times> string option" where
  "resolve_cp_target e user host args cfg =
     (let resolved = resolve_target e \<lparr>raw_user = user, raw_host = host, raw_port = cp_port args, raw_path = cp_connect_path args\<rparr> cfg
      in rbind (choose_identity e (cp_identity args) (res_identity resolved)) (\<lambda>identity. Inr (res_target resolved, identity)))"

subsection \<open>The source directory\<close>

text \<open>What \<^verbatim>\<open>read_dir\<close> shows of a directory, \<^const>\<open>None\<close> when it cannot be read; other entries are
  symbolic links, devices and the like.  An entry whose type or metadata cannot be read counts as a directory
  that cannot be: the walk fails on either.  File names are UTF-8.\<close>

datatype node = RegFile u32 "byte list" | Directory u32 "(string \<times> node) list option" | OtherNode

record WalkDir =
  wd_rel :: string
  wd_mode :: u32

definition perm_bits :: "u32 \<Rightarrow> u32" where
  "perm_bits m = and m 0x1FF"

definition child_rel :: "string \<Rightarrow> string \<Rightarrow> string" where
  "child_rel rel name = (if rel = [] then name else rel @ ''/'' @ name)"

lemma size_list_insort [termination_simp]: "size_list f (insort_key k x xs) = Suc (f x + size_list f xs)"
  by (induction xs) auto

lemma size_list_sort [termination_simp]: "size_list f (sort_key k xs) = size_list f xs"
  by (induction xs) (simp_all add: size_list_insort)

text \<open>The walk appends to the lists of directories and files so far.\<close>

function collect_dir :: "(string \<times> node) list \<Rightarrow> string \<Rightarrow> WalkDir list \<times> string list \<Rightarrow> (cp_error + WalkDir list \<times> string list)" where
  "collect_dir [] rel walk = Inr walk"
| "collect_dir ((name, OtherNode) # es) rel walk = collect_dir es rel walk"
| "collect_dir ((name, RegFile _ _) # es) rel (dirs, files) = collect_dir es rel (dirs, files @ [child_rel rel name])"
| "collect_dir ((name, Directory mode sub) # es) rel (dirs, files) =
     (case sub of
        None \<Rightarrow> Inl SourceUnreadable
      | Some ss \<Rightarrow>
          rbind (collect_dir (sort_key fst ss) (child_rel rel name)
            (dirs @ [\<lparr>wd_rel = child_rel rel name, wd_mode = perm_bits mode\<rparr>], files)) (\<lambda>walk. collect_dir es rel walk))"
  by pat_completeness auto
termination
  by (relation "measure (\<lambda>(es, _). size_list (size_prod (\<lambda>_. 0) size) es)") (auto simp: size_list_sort split: option.splits)

definition collect_walk :: "(string \<times> node) list option \<Rightarrow> cp_error + WalkDir list \<times> string list" where
  "collect_walk root = (case root of
       None \<Rightarrow> Inl SourceUnreadable
     | Some es \<Rightarrow> collect_dir (sort_key fst es) [] ([], []))"

subsection \<open>Transfers\<close>

text \<open>Regular files are read in pieces of at most 32 KiB.\<close>

function chunks :: "nat \<Rightarrow> 'a list \<Rightarrow> 'a list list" where
  "chunks n bs = (if bs = [] \<or> n = 0 then [] else take n bs # chunks n (drop n bs))"
  by auto
termination
  by (relation "measure (\<lambda>(n, bs). length bs)") auto

declare chunks.simps [simp del]

definition UPLOAD_CHUNK :: nat where
  "UPLOAD_CHUNK = 32 * 1024"

text \<open>What an upload sends before it closes its side.\<close>

definition upload_messages :: "byte list \<Rightarrow> ChannelMessage list" where
  "upload_messages contents = map Data (chunks UPLOAD_CHUNK contents)"

text \<open>The frames a channel delivers: a message, the end, or an error; a list that ends is a channel
  that stays silent.\<close>

type_synonym frames = "(unit + ChannelMessage option) list"

fun await_status :: "frames \<Rightarrow> (unit + (32 word) option) poll" where
  "await_status [] = Pending"
| "await_status (Inl e # _) = Ready (Inl e)"
| "await_status (Inr None # _) = Ready (Inr None)"
| "await_status (Inr (Some msg) # fs) = (case msg of ExitStatus c \<Rightarrow> Ready (Inr (Some c)) | _ \<Rightarrow> await_status fs)"

text \<open>The local files by path.  \<open>quota\<close> bounds what can be written; \<open>creates\<close> and \<open>renames\<close> say whether
  creating the temporary file and renaming it work; removing it does.\<close>

type_synonym local_files = "string \<Rightarrow> byte list option"

fun download_loop :: "nat \<Rightarrow> frames \<Rightarrow> byte list \<Rightarrow> ((unit + (32 word) option) \<times> byte list) poll" where
  "download_loop quota [] got = Pending"
| "download_loop quota (Inl e # _) got = Ready (Inl e, got)"
| "download_loop quota (Inr None # _) got = Ready (Inr None, got)"
| "download_loop quota (Inr (Some msg) # fs) got = (case msg of
     Data d \<Rightarrow> if length got + length d \<le> quota then download_loop quota fs (got @ d)
              else Ready (Inl (), got @ take (quota - length got) d)
   | ExitStatus c \<Rightarrow> Ready (Inr (Some c), got)
   | _ \<Rightarrow> download_loop quota fs got)"

definition download_one :: "bool \<Rightarrow> nat \<Rightarrow> bool \<Rightarrow> frames \<Rightarrow> string \<Rightarrow> local_files \<Rightarrow> ((unit + 32 word) \<times> local_files) poll" where
  "download_one creates quota renames fs final_path files =
     (let temp_path = part_path final_path in
      if \<not> creates then Ready (Inl (), files) else
      poll_bind (download_loop quota fs []) (\<lambda>(status, got).
        let files = files(temp_path \<mapsto> got); cleaned = files(temp_path := None) in
        Ready (case status of
          Inl e \<Rightarrow> (Inl e, cleaned)
        | Inr (Some c) \<Rightarrow>
            if c = 0 then
              (if renames then (Inr 0, files(final_path \<mapsto> got, temp_path := None)) else (Inl (), files))
            else (Inr c, cleaned)
        | Inr None \<Rightarrow> (Inl (), cleaned))))"

subsection \<open>Uploading a directory\<close>

datatype cp_op = OpMkdir string u32 | OpUpload string string

text \<open>The operations in order; \<open>run\<close> performs one and gives the status the server sent.  The first
  status other than zero ends the upload and is its result.\<close>

definition upload_plan :: "string \<Rightarrow> string \<Rightarrow> u32 \<Rightarrow> WalkDir list \<times> string list \<Rightarrow> cp_op list" where
  "upload_plan local_root remote_root root_mode walk = (case walk of (dirs, files) \<Rightarrow>
     OpMkdir remote_root root_mode
     # map (\<lambda>d. OpMkdir (remote_root @ ''/'' @ wd_rel d) (wd_mode d)) dirs
     @ map (\<lambda>f. OpUpload (path_join local_root f) (remote_root @ ''/'' @ f)) files)"

fun run_plan :: "('w \<Rightarrow> cp_op \<Rightarrow> (unit + 32 word) \<times> 'w) \<Rightarrow> cp_op list \<Rightarrow> 'w \<Rightarrow> (unit + 32 word) \<times> 'w" where
  "run_plan run [] w = (Inr 0, w)"
| "run_plan run (op # ops) w = (case run w op of
     (Inl e, w) \<Rightarrow> (Inl e, w)
   | (Inr code, w) \<Rightarrow> if code \<noteq> 0 then (Inr code, w) else run_plan run ops w)"

definition upload_tree ::
  "('w \<Rightarrow> cp_op \<Rightarrow> (unit + 32 word) \<times> 'w) \<Rightarrow> string \<Rightarrow> string \<Rightarrow> u32 \<Rightarrow> WalkDir list \<times> string list \<Rightarrow> 'w \<Rightarrow> (unit + 32 word) \<times> 'w" where
  "upload_tree run local_root remote_root root_mode walk w =
     run_plan run (upload_plan local_root remote_root root_mode walk) w"

subsection \<open>The command\<close>

text \<open>What \<^verbatim>\<open>run_cp\<close> does once it has parsed its arguments: one transfer with its target.\<close>

datatype cp_action =
    DoDownload Target "string option" string string
  | DoUpload Target "string option" string string
  | DoUploadTree Target "string option" string string u32 "WalkDir list \<times> string list"

definition config_ok :: "config_error + 'a \<Rightarrow> cp_error + 'a" where
  "config_ok r = (case r of Inl e \<Rightarrow> Inl (ConfigError e) | Inr x \<Rightarrow> Inr x)"

text \<open>\<open>meta\<close> is \<^verbatim>\<open>std::fs::metadata\<close>, following links.\<close>

definition run_cp ::
  "environ \<Rightarrow> (config_error + ClientConfig) \<Rightarrow> (string \<Rightarrow> node option) \<Rightarrow> CpArgs \<Rightarrow> cp_error + cp_action" where
  "run_cp e loaded meta args =
     rbind (parse_cp_spec (cp_src args)) (\<lambda>src.
     rbind (parse_cp_spec (cp_dst args)) (\<lambda>dst.
     rbind (config_ok loaded) (\<lambda>cfg.
       case (src, dst) of
         (Remote _ _ _, Remote _ _ _) \<Rightarrow> Inl RemoteToRemote
       | (Local _, Local _) \<Rightarrow> Inl BothLocal
       | (Remote user host remote, Local local) \<Rightarrow>
           rbind (config_ok (resolve_cp_target e user host args cfg)) (\<lambda>(target, identity).
           rbind (resolve_local_dst local (case meta local of Some (Directory _ _) \<Rightarrow> True | _ \<Rightarrow> False) remote) (\<lambda>final_path.
             Inr (DoDownload target identity remote final_path)))
       | (Local local, Remote user host remote) \<Rightarrow>
           rbind (ok_or SourceUnreadable (meta local)) (\<lambda>m.
           rbind (config_ok (resolve_cp_target e user host args cfg)) (\<lambda>(target, identity).
             let remote_final = resolve_remote_dst remote (local_basename local) in
             case m of
               Directory mode entries \<Rightarrow>
                 rbind (collect_walk entries) (\<lambda>walk. Inr (DoUploadTree target identity local remote_final (perm_bits mode) walk))
             | _ \<Rightarrow> Inr (DoUpload target identity local remote_final))))))"

text \<open>An upload of a single file: it must be regular; the channel opens with its path and mode.\<close>

definition upload_one :: "(string \<Rightarrow> node option) \<Rightarrow> string \<Rightarrow> string \<Rightarrow> cp_error + ChannelOpen \<times> ChannelMessage list" where
  "upload_one meta local remote = (case meta local of
       None \<Rightarrow> Inl SourceUnreadable
     | Some (RegFile mode contents) \<Rightarrow> Inr (WriteFile remote (perm_bits mode), upload_messages contents)
     | Some _ \<Rightarrow> Inl NotRegular)"

subsection \<open>Lemmas on the walk\<close>

text \<open>The entry at a relative path of a directory.\<close>

inductive entry_at :: "(string \<times> node) list \<Rightarrow> string \<Rightarrow> node \<Rightarrow> bool" where
  Here: "(name, x) \<in> set es \<Longrightarrow> entry_at es name x"
| Below: "(name, Directory mode (Some ss)) \<in> set es \<Longrightarrow> entry_at ss rel x \<Longrightarrow> entry_at es (name @ ''/'' @ rel) x"

lemma entry_at_iff:
  "entry_at es rel x \<longleftrightarrow> (rel, x) \<in> set es
     \<or> (\<exists>name mode ss rel'. (name, Directory mode (Some ss)) \<in> set es \<and> entry_at ss rel' x \<and> rel = name @ ''/'' @ rel')"
  (is "_ \<longleftrightarrow> ?rhs")
proof
  assume "entry_at es rel x"
  then show ?rhs by (cases rule: entry_at.cases) blast+
next
  assume ?rhs
  then show "entry_at es rel x"
    by (elim disjE exE conjE) (simp_all only: entry_at.Here entry_at.Below)
qed

lemma entry_at_cong: "set es = set es' \<Longrightarrow> entry_at es rel x \<longleftrightarrow> entry_at es' rel x"
  by (subst (1 2) entry_at_iff) simp

definition dirs_of :: "(string \<times> node) list \<Rightarrow> (string \<times> u32) set" where
  "dirs_of es = {(r, m). \<exists>ss. entry_at es r (Directory m ss)}"

definition files_of :: "(string \<times> node) list \<Rightarrow> string set" where
  "files_of es = {r. \<exists>m bs. entry_at es r (RegFile m bs)}"

lemma entry_at_Cons:
  "entry_at ((name, x) # es) rel y \<longleftrightarrow> rel = name \<and> y = x \<or> entry_at es rel y
     \<or> (\<exists>mode ss rel'. x = Directory mode (Some ss) \<and> entry_at ss rel' y \<and> rel = name @ ''/'' @ rel')"
  by (subst (1 2) entry_at_iff) (simp, blast)

lemma entry_at_Nil [simp]: "\<not> entry_at [] rel x"
  by (subst entry_at_iff) simp

lemma dirs_of_simps [simp]:
  "dirs_of [] = {}"
  "dirs_of ((n, OtherNode) # es) = dirs_of es"
  "dirs_of ((n, RegFile m bs) # es) = dirs_of es"
  "dirs_of (sort_key fst es) = dirs_of es"
  by (simp_all add: dirs_of_def entry_at_Cons entry_at_cong [of "sort_key fst es" es])

lemma dirs_of_Directory [simp]:
  "dirs_of ((n, Directory m (Some ss)) # es) = insert (n, m) ((\<lambda>(r, k). (n @ ''/'' @ r, k)) ` dirs_of ss \<union> dirs_of es)"
  unfolding dirs_of_def entry_at_Cons by (auto simp: image_iff)

lemma files_of_simps [simp]:
  "files_of [] = {}"
  "files_of ((n, OtherNode) # es) = files_of es"
  "files_of (sort_key fst es) = files_of es"
  by (simp_all add: files_of_def entry_at_Cons entry_at_cong [of "sort_key fst es" es])

lemma files_of_Cons [simp]:
  "files_of ((n, RegFile m bs) # es) = insert n (files_of es)"
  "files_of ((n, Directory m (Some ss)) # es) = (\<lambda>r. n @ ''/'' @ r) ` files_of ss \<union> files_of es"
  unfolding files_of_def entry_at_Cons by (auto simp: image_iff)

text \<open>Names of entries are not empty and have no slash.\<close>

fun good_names :: "node \<Rightarrow> bool" where
  "good_names (Directory _ (Some es)) = list_all (\<lambda>(n, x). n \<noteq> [] \<and> CHR ''/'' \<notin> set n \<and> good_names x) es"
| "good_names _ = True"

definition good_entries :: "(string \<times> node) list \<Rightarrow> bool" where
  "good_entries es \<longleftrightarrow> (\<forall>(n, x) \<in> set es. n \<noteq> [] \<and> CHR ''/'' \<notin> set n \<and> good_names x)"

lemma good_entries_simps [simp]:
  "good_entries []" "good_entries ((n, x) # es) \<longleftrightarrow> n \<noteq> [] \<and> CHR ''/'' \<notin> set n \<and> good_names x \<and> good_entries es"
  "good_entries (sort_key fst es) \<longleftrightarrow> good_entries es"
  "good_names (Directory m (Some es)) \<longleftrightarrow> good_entries es"
  by (auto simp: good_entries_def list_all_iff)

declare good_names.simps [simp del]
lemmas good_names_other [simp] = good_names.simps(2-)

text \<open>Every directory of \<open>ds\<close> has its parent before it: \<open>rel\<close> itself or a directory in front.\<close>

fun parents_first :: "string set \<Rightarrow> string list \<Rightarrow> bool" where
  "parents_first known [] = True"
| "parents_first known (d # ds) \<longleftrightarrow> (\<exists>p \<in> known. \<exists>n. n \<noteq> [] \<and> CHR ''/'' \<notin> set n \<and> d = child_rel p n) \<and> parents_first (insert d known) ds"

lemma parents_first_append:
  "parents_first known (xs @ ys) \<longleftrightarrow> parents_first known xs \<and> parents_first (known \<union> set xs) ys"
  by (induction xs arbitrary: known) auto

lemma parents_first_mono: "parents_first known xs \<Longrightarrow> known \<subseteq> known' \<Longrightarrow> parents_first known' xs"
proof (induction xs arbitrary: known known')
  case (Cons d ds)
  have "parents_first (insert d known') ds"
    by (rule Cons.IH [of "insert d known"]) (use Cons.prems in auto)
  with Cons.prems show ?case by auto
qed simp

lemma child_rel_assoc: "name \<noteq> [] \<Longrightarrow> child_rel (child_rel rel name) r = child_rel rel (name @ ''/'' @ r)"
  by (simp add: child_rel_def)

text \<open>What a walk of \<open>es\<close> below \<open>rel\<close> adds: the directories, in an order with parents first, and the
  regular files, each in \<open>rel\<close> or a directory that was added.\<close>

definition in_one_of :: "string set \<Rightarrow> string \<Rightarrow> bool" where
  "in_one_of ps f \<longleftrightarrow> (\<exists>p \<in> ps. \<exists>n. n \<noteq> [] \<and> CHR ''/'' \<notin> set n \<and> f = child_rel p n)"

definition walk_adds :: "(string \<times> node) list \<Rightarrow> string \<Rightarrow> WalkDir list \<Rightarrow> string list \<Rightarrow> bool" where
  "walk_adds es rel new files \<longleftrightarrow> parents_first {rel} (map wd_rel new)
     \<and> set new = (\<lambda>(r, m). \<lparr>wd_rel = child_rel rel r, wd_mode = perm_bits m\<rparr>) ` dirs_of es
     \<and> set files = child_rel rel ` files_of es
     \<and> (\<forall>f \<in> set files. in_one_of (insert rel (wd_rel ` set new)) f)"

lemma in_one_of_mono: "in_one_of ps f \<Longrightarrow> ps \<subseteq> qs \<Longrightarrow> in_one_of qs f"
  by (auto simp: in_one_of_def)

lemma parents_first_Directory:
  assumes "parents_first {d} xs" "parents_first {rel} ys" "d = child_rel rel name" "name \<noteq> []" "CHR ''/'' \<notin> set name"
  shows "parents_first {rel} (d # xs @ ys)"
proof -
  have "parents_first {d, rel} xs" "parents_first ({d, rel} \<union> set xs) ys"
    using assms(1,2) by (blast intro: parents_first_mono)+
  moreover have "\<exists>n. n \<noteq> [] \<and> CHR ''/'' \<notin> set n \<and> d = child_rel rel n" using assms(3-5) by blast
  ultimately show ?thesis by (simp add: parents_first_append)
qed

lemma in_one_of_Directory:
  assumes "in_one_of (insert d ps) f \<or> in_one_of (insert rel qs) f"
  shows "in_one_of (insert rel (insert d (ps \<union> qs))) f"
  using assms in_one_of_mono [of "insert d ps" f "insert rel (insert d (ps \<union> qs))"]
    in_one_of_mono [of "insert rel qs" f "insert rel (insert d (ps \<union> qs))"] by blast

lemma walk_adds_Directory:
  assumes below: "walk_adds ss (child_rel rel name) new1 files1" and after: "walk_adds es rel new2 files2"
    and name: "name \<noteq> []" "CHR ''/'' \<notin> set name"
  shows "walk_adds ((name, Directory m (Some ss)) # es) rel
    (\<lparr>wd_rel = child_rel rel name, wd_mode = perm_bits m\<rparr> # new1 @ new2) (files1 @ files2)"
proof -
  let ?d = "\<lparr>wd_rel = child_rel rel name, wd_mode = perm_bits m\<rparr>" and ?es = "(name, Directory m (Some ss)) # es"
  let ?w = "\<lambda>rel (r, m). \<lparr>wd_rel = child_rel rel r, wd_mode = perm_bits m\<rparr>"
  from below have b: "parents_first {child_rel rel name} (map wd_rel new1)" "set new1 = ?w (child_rel rel name) ` dirs_of ss"
    "set files1 = child_rel (child_rel rel name) ` files_of ss" "\<forall>f \<in> set files1. in_one_of (insert (child_rel rel name) (wd_rel ` set new1)) f"
    unfolding walk_adds_def by blast+
  from after have a: "parents_first {rel} (map wd_rel new2)" "set new2 = ?w rel ` dirs_of es"
    "set files2 = child_rel rel ` files_of es" "\<forall>f \<in> set files2. in_one_of (insert rel (wd_rel ` set new2)) f"
    unfolding walk_adds_def by blast+
  have "parents_first {rel} (map wd_rel (?d # new1 @ new2))"
    using parents_first_Directory [OF b(1) a(1) refl name] by simp
  moreover have "?w (child_rel rel name) ` dirs_of ss = ?w rel ` (\<lambda>(r, k). (name @ ''/'' @ r, k)) ` dirs_of ss"
    by (simp add: image_image case_prod_unfold child_rel_assoc [OF name(1)])
  then have "set (?d # new1 @ new2) = ?w rel ` dirs_of ?es"
    by (simp only: list.set set_append a(2) b(2) dirs_of_Directory image_insert image_Un prod.case)
  moreover have "set (files1 @ files2) = child_rel rel ` files_of ?es"
    by (simp add: a(3) b(3) image_Un image_image child_rel_assoc [OF name(1)])
  moreover have "in_one_of (insert rel (wd_rel ` set (?d # new1 @ new2))) f" if "f \<in> set (files1 @ files2)" for f
  proof -
    have "wd_rel ` set (?d # new1 @ new2) = insert (child_rel rel name) (wd_rel ` set new1 \<union> wd_rel ` set new2)" by (simp add: image_Un)
    moreover have "in_one_of (insert (child_rel rel name) (wd_rel ` set new1)) f \<or> in_one_of (insert rel (wd_rel ` set new2)) f"
      using that a(4) b(4) by auto
    ultimately show ?thesis using in_one_of_Directory by metis
  qed
  ultimately show ?thesis unfolding walk_adds_def by blast
qed

lemma walk_adds_simps:
  "walk_adds [] rel [] []"
  "walk_adds ((name, OtherNode) # es) rel new files \<longleftrightarrow> walk_adds es rel new files"
  "walk_adds (sort_key fst es) rel new files \<longleftrightarrow> walk_adds es rel new files"
  by (simp_all add: walk_adds_def)

lemma walk_adds_RegFile:
  assumes "walk_adds es rel new files" "name \<noteq> []" "CHR ''/'' \<notin> set name"
  shows "walk_adds ((name, RegFile m bs) # es) rel new (child_rel rel name # files)"
proof -
  have "in_one_of (insert rel (wd_rel ` set new)) (child_rel rel name)"
    unfolding in_one_of_def using assms(2,3) by blast
  with assms(1) show ?thesis
    unfolding walk_adds_def dirs_of_simps files_of_Cons list.set image_insert by (elim conjE) (intro conjI; blast)
qed

lemma collect_dir_adds:
  assumes "collect_dir es rel walk = Inr walk'" "good_entries es"
  shows "\<exists>new files. walk' = (fst walk @ new, snd walk @ files) \<and> walk_adds es rel new files"
  using assms
proof (induction es rel walk arbitrary: walk' rule: collect_dir.induct)
  case (1 rel walk)
  then show ?case using walk_adds_simps(1) by (intro exI [of _ "[]"]) simp
next
  case (2 name es rel walk)
  then show ?case by (simp add: walk_adds_simps(2))
next
  case (3 name m bs es rel dirs files)
  then obtain new fs where "walk' = (dirs @ new, (files @ [child_rel rel name]) @ fs)" "walk_adds es rel new fs" by auto
  then show ?case
    using 3(3) walk_adds_RegFile [of es rel new fs name m bs]
    by (intro exI [of _ new] exI [of _ "child_rel rel name # fs"]) simp
next
  case (4 name mode sub es rel dirs files)
  let ?d = "\<lparr>wd_rel = child_rel rel name, wd_mode = perm_bits mode\<rparr>"
  from 4(3) obtain ss mid where sub: "sub = Some ss"
    and mid: "collect_dir (sort_key fst ss) (child_rel rel name) (dirs @ [?d], files) = Inr mid" "collect_dir es rel mid = Inr walk'"
    by (auto split: option.splits)
  from 4(1) [OF sub mid(1)] 4(4) sub obtain new1 fs1
    where 1: "mid = ((dirs @ [?d]) @ new1, files @ fs1)" "walk_adds ss (child_rel rel name) new1 fs1"
    by (auto simp: walk_adds_simps(3))
  from 4(2) [OF sub mid(2)] 4(4) obtain new2 fs2 where 2: "walk' = (fst mid @ new2, snd mid @ fs2)" "walk_adds es rel new2 fs2" by auto
  show ?case
    using 1 2 sub 4(4) walk_adds_Directory [OF 1(2) 2(2), of mode]
    by (intro exI [of _ "?d # new1 @ new2"] exI [of _ "fs1 @ fs2"]) simp
qed

lemma parents_first_split:
  "parents_first known (xs @ d # ys) \<Longrightarrow> in_one_of (known \<union> set xs) d"
  by (auto simp: parents_first_append in_one_of_def)

lemma collect_walk_adds:
  "collect_walk (Some es) = Inr (dirs, files) \<Longrightarrow> good_entries es \<Longrightarrow> walk_adds es [] dirs files"
  using collect_dir_adds [of "sort_key fst es" "[]" "([], [])" "(dirs, files)"]
  by (auto simp: collect_walk_def walk_adds_simps(3))

subsection \<open>Lemmas on transfers\<close>

lemma chunks_concat: "n > 0 \<Longrightarrow> concat (chunks n bs) = bs"
proof (induction n bs rule: chunks.induct)
  case (1 n bs)
  then show ?case by (subst chunks.simps) simp
qed

lemma chunks_bound: "c \<in> set (chunks n bs) \<Longrightarrow> c \<noteq> [] \<and> length c \<le> n"
proof (induction n bs rule: chunks.induct)
  case (1 n bs)
  from 1(2) have ne: "bs \<noteq> []" "n \<noteq> 0" by (auto simp: chunks.simps [of n bs] split: if_splits)
  from 1(2) have "c = take n bs \<or> c \<in> set (chunks n (drop n bs))"
    by (subst (asm) chunks.simps) (simp add: ne)
  with 1(1) ne show ?case by auto
qed

text \<open>The payload of a channel up to its status.\<close>

fun payload :: "frames \<Rightarrow> byte list" where
  "payload (Inr (Some (Data d)) # fs) = d @ payload fs"
| "payload (Inr (Some (ExitStatus c)) # fs) = []"
| "payload (Inr (Some msg) # fs) = payload fs"
| "payload _ = []"

text \<open>The status a channel ends with, if it gets to one.\<close>

fun final_status :: "frames \<Rightarrow> (32 word) option" where
  "final_status (Inr (Some (ExitStatus c)) # fs) = Some c"
| "final_status (Inr (Some msg) # fs) = final_status fs"
| "final_status _ = None"

lemma download_loop_status:
  "download_loop quota fs got = Ready (Inr (Some c), bs) \<Longrightarrow> bs = got @ payload fs \<and> final_status fs = Some c"
proof (induction quota fs got rule: download_loop.induct)
  case (4 quota msg fs got)
  then show ?case by (cases msg) (auto split: if_splits)
qed auto

lemma path_file_name_join:
  assumes "is_normal n" "CHR ''/'' \<notin> set n" "p \<noteq> []"
  shows "path_file_name (path_join p n) = Some n"
proof -
  obtain q where q: "path_join p n = q @ ''/'' @ n"
  proof (cases "last p = CHR ''/''")
    case True
    then have "p = butlast p @ ''/''" using assms(3) by (metis append_butlast_last_id)
    then have "path_join p n = butlast p @ ''/'' @ n"
      using assms(2) True by (auto simp: path_join_def prefix_def)
    then show thesis by (rule that)
  next
    case False
    then have "path_join p n = p @ ''/'' @ n" using assms by (auto simp: path_join_def prefix_def)
    then show thesis by (rule that)
  qed
  have sp: "split_on (CHR ''/'') (q @ ''/'' @ n) = split_on (CHR ''/'') q @ [n]"
    using split_on_append [of "CHR ''/''" q n] assms(2) by (simp add: split_on_id)
  obtain x xs where x: "split_on (CHR ''/'') q = x # xs" using split_on_nonempty [of "CHR ''/''" q] by (cases "split_on (CHR ''/'') q") auto
  have "last (trim_pieces (x # xs @ [n])) = n" using assms(1) by (simp add: trim_pieces_def is_normal_def)
  then show ?thesis using assms(1) sp x by (simp add: path_file_name_def path_pieces_def q)
qed

lemma part_path_differs: "part_path p \<noteq> p"
proof -
  define name where "name = unwrap_or (path_file_name p) ''download''"
  define n where "n = ''.'' @ name @ ''.quish-part''"
  have "CHR ''/'' \<notin> set name"
    using path_file_name_component [of p] by (cases "path_file_name p") (auto simp: name_def unwrap_or_def)
  then have n: "is_normal n" "CHR ''/'' \<notin> set n" by (auto simp: n_def is_normal_def)
  obtain parent where "part_path p = path_join parent n" "parent \<noteq> []"
    by (cases "path_parent p") (auto simp: part_path_def Let_def n_def name_def split: list.splits)
  then have f: "path_file_name (part_path p) = Some n" using path_file_name_join n by simp
  show ?thesis
  proof
    assume "part_path p = p"
    with f have "name = n" by (simp add: name_def unwrap_or_def)
    then have "length name = length n" by simp
    then show False by (simp add: n_def)
  qed
qed


lemma map_append_split:
  assumes "map f xs @ map g ys = b @ x # c"
  shows "(\<exists>us v ws. xs = us @ v # ws \<and> b = map f us \<and> x = f v)
    \<or> (\<exists>us v ws. ys = us @ v # ws \<and> b = map f xs @ map g us \<and> x = g v)"
  using assms
proof (induction xs arbitrary: b)
  case Nil
  then obtain us vs where "ys = us @ vs" "map g us = b" "map g vs = x # c" by (auto simp: map_eq_append_conv)
  then show ?case by (cases vs) auto
next
  case (Cons a xs)
  show ?case
  proof (cases b)
    case Nil
    with Cons.prems show ?thesis by (intro disjI1 exI [of _ "[]"] exI [of _ a] exI [of _ xs]) simp
  next
    case (Cons y b')
    with Cons.prems have y: "y = f a" and r: "map f xs @ map g ys = b' @ x # c" by simp_all
    from Cons.IH [OF r] show ?thesis
    proof (elim disjE exE conjE)
      fix us v ws assume "xs = us @ v # ws" "b' = map f us" "x = f v"
      then show ?thesis using y \<open>b = y # b'\<close> by (intro disjI1 exI [of _ "a # us"] exI [of _ v] exI [of _ ws]) simp
    next
      fix us v ws assume "ys = us @ v # ws" "b' = map f xs @ map g us" "x = g v"
      then show ?thesis using y \<open>b = y # b'\<close> by (intro disjI2 exI [of _ us] exI [of _ v] exI [of _ ws]) simp
    qed
  qed
qed

subsection \<open>Properties\<close>

fun op_path :: "cp_op \<Rightarrow> string" where
  "op_path (OpMkdir p _) = p"
| "op_path (OpUpload _ p) = p"

text \<open>C38: the upload of a directory makes the remote root first and every other directory and file
  only after the directory it goes into, so no step needs a parent that is not there; and it makes
  exactly the directories of the source, with their permission bits, and uploads exactly its regular
  files.\<close>

theorem upload_makes_parents_first:
  assumes walk: "collect_walk (Some es) = Inr walk" "good_entries es"
    and plan: "upload_plan local_root root mode walk = before @ op # after"
  shows "(if before = [] then op = OpMkdir root mode
      else \<exists>q m n. OpMkdir q m \<in> set before \<and> n \<noteq> [] \<and> CHR ''/'' \<notin> set n \<and> op_path op = q @ ''/'' @ n)
    \<and> set (upload_plan local_root root mode walk) = {OpMkdir root mode}
      \<union> (\<lambda>(r, m). OpMkdir (root @ ''/'' @ r) (perm_bits m)) ` dirs_of es
      \<union> (\<lambda>r. OpUpload (path_join local_root r) (root @ ''/'' @ r)) ` files_of es"
proof -
  obtain dirs files where w: "walk = (dirs, files)" by (cases walk)
  have adds: "parents_first {[]} (map wd_rel dirs)" "set files = child_rel [] ` files_of es"
    "set dirs = (\<lambda>(r, m). \<lparr>wd_rel = child_rel [] r, wd_mode = perm_bits m\<rparr>) ` dirs_of es"
    "\<forall>f \<in> set files. in_one_of (insert [] (wd_rel ` set dirs)) f"
    using collect_walk_adds [OF walk(1) [unfolded w] walk(2)] unfolding walk_adds_def by blast+
  let ?mk = "\<lambda>d. OpMkdir (root @ ''/'' @ wd_rel d) (wd_mode d)" and ?up = "\<lambda>f. OpUpload (path_join local_root f) (root @ ''/'' @ f)"
  have p: "upload_plan local_root root mode walk = OpMkdir root mode # map ?mk dirs @ map ?up files" by (simp add: upload_plan_def w)
  have parent: "\<exists>q m n. OpMkdir q m \<in> insert (OpMkdir root mode) (?mk ` ds) \<and> n \<noteq> [] \<and> CHR ''/'' \<notin> set n \<and> root @ ''/'' @ r = q @ ''/'' @ n"
    if "in_one_of (insert [] (wd_rel ` ds)) r" for ds r
  proof -
    from that obtain d n where n: "d = [] \<or> (\<exists>x \<in> ds. d = wd_rel x)" "n \<noteq> []" "CHR ''/'' \<notin> set n" "r = child_rel d n"
      unfolding in_one_of_def by blast
    obtain m where m: "OpMkdir (if d = [] then root else root @ ''/'' @ d) m \<in> insert (OpMkdir root mode) (?mk ` ds)"
    proof (cases "d = []")
      case False
      with n(1) obtain x where "x \<in> ds" "d = wd_rel x" by blast
      with False that [of "wd_mode x"] show thesis by auto
    qed auto
    show ?thesis
      by (rule exI, rule exI [of _ m], rule exI [of _ n], rule conjI [OF m]) (use n(2-) in \<open>simp add: child_rel_def\<close>)
  qed
  have first: "\<exists>q m n. OpMkdir q m \<in> set before \<and> n \<noteq> [] \<and> CHR ''/'' \<notin> set n \<and> op_path op = q @ ''/'' @ n" if ne: "before \<noteq> []"
  proof -
    from plan p ne obtain b where b: "before = OpMkdir root mode # b" and rest: "map ?mk dirs @ map ?up files = b @ op # after"
      by (cases before) auto
    from map_append_split [OF rest] show ?thesis
    proof (elim disjE exE conjE)
      fix xs d ys assume d: "dirs = xs @ d # ys" "b = map ?mk xs" "op = ?mk d"
      then have "in_one_of ({[]} \<union> set (map wd_rel xs)) (wd_rel d)"
        using adds(1) by (intro parents_first_split [of _ _ _ "map wd_rel ys"]) simp
      from parent [of "set xs" "wd_rel d"] this show ?thesis by (simp add: d b)
    next
      fix xs f ys assume f: "files = xs @ f # ys" "b = map ?mk dirs @ map ?up xs" "op = ?up f"
      then have "in_one_of (insert [] (wd_rel ` set dirs)) f" using adds(4) by (metis in_set_conv_decomp)
      from parent [OF this] obtain q m n where q: "OpMkdir q m \<in> insert (OpMkdir root mode) (?mk ` set dirs)" "n \<noteq> []"
        "CHR ''/'' \<notin> set n" "root @ ''/'' @ f = q @ ''/'' @ n" by blast
      show ?thesis unfolding b f(2,3)
        by (rule exI [of _ q], rule exI [of _ m], rule exI [of _ n]) (use q in auto)
    qed
  qed
  have "before = [] \<Longrightarrow> op = OpMkdir root mode" using plan p by simp
  moreover have "set (map ?mk dirs) = (\<lambda>(r, m). OpMkdir (root @ ''/'' @ r) (perm_bits m)) ` dirs_of es"
    "set (map ?up files) = ?up ` files_of es"
    unfolding set_map adds(2,3) by (simp_all add: image_image case_prod_unfold child_rel_def)
  ultimately show ?thesis using first unfolding p list.set set_append by simp
qed

lemma upload_makes_parents_first_witness:
  "set (upload_plan ''l'' ''r'' 7 ([\<lparr>wd_rel = ''d'', wd_mode = 0x1ED\<rparr>], [''d/f'', ''z''])) =
     {OpMkdir ''r'' 7, OpMkdir ''r/d'' 0x1ED, OpUpload ''l/d/f'' ''r/d/f'', OpUpload ''l/z'' ''r/z''}"
proof -
  let ?es = "[(''z'', RegFile 0 []), (''d'', Directory 0x41ED (Some [(''f'', RegFile 0 []), (''s'', OtherNode)]))]"
  let ?walk = "([\<lparr>wd_rel = ''d'', wd_mode = 0x1ED\<rparr>], [''d/f'', ''z''])"
  have w: "collect_walk (Some ?es) = Inr ?walk" by code_simp
  have p: "upload_plan ''l'' ''r'' 7 ?walk = [] @ OpMkdir ''r'' 7 # tl (upload_plan ''l'' ''r'' 7 ?walk)"
    by (simp add: upload_plan_def)
  have "perm_bits 0x41ED = 0x1ED" "path_join ''l'' ''d/f'' = ''l/d/f''" "path_join ''l'' ''z'' = ''l/z''" by code_simp+
  then show ?thesis using upload_makes_parents_first [OF w _ p] by auto
qed

text \<open>C37: a download that reports success has put at its destination exactly the payload the server
  sent before a status of zero, and nothing else has changed on disk; in every other case the
  destination is as it was before.  No temporary file is left behind, unless the final renaming
  fails.\<close>

theorem download_all_or_nothing:
  assumes "download_one creates quota renames fs final_path files = Ready (r, files')" "files (part_path final_path) = None"
  shows "if r = Inr 0 then final_status fs = Some 0 \<and> files' = files(final_path \<mapsto> payload fs)
    else files' final_path = files final_path \<and> (creates \<and> \<not> renames \<or> files' = files)"
proof -
  let ?t = "part_path final_path"
  have ne: "?t \<noteq> final_path" by (rule part_path_differs)
  have restore: "files(?t := None) = files" using assms(2) by (simp add: fun_upd_idem)
  show ?thesis
  proof (cases creates)
    case True
    with assms(1) obtain status got where l: "download_loop quota fs [] = Ready (status, got)"
      and r: "(r, files') = (case status of
          Inl e \<Rightarrow> (Inl e, files(?t \<mapsto> got, ?t := None))
        | Inr (Some c) \<Rightarrow> if c = 0 then (if renames then (Inr 0, files(?t \<mapsto> got, final_path \<mapsto> got, ?t := None)) else (Inl (), files(?t \<mapsto> got)))
            else (Inr c, files(?t \<mapsto> got, ?t := None))
        | Inr None \<Rightarrow> (Inl (), files(?t \<mapsto> got, ?t := None)))"
      by (cases "download_loop quota fs []") (auto simp: download_one_def Let_def)
    show ?thesis
    proof (cases "status = Inr (Some 0) \<and> renames")
      case True
      then have "got = payload fs \<and> final_status fs = Some 0" using download_loop_status l by fastforce
      moreover have "files(?t \<mapsto> got, final_path \<mapsto> got, ?t := None) = files(final_path \<mapsto> got)"
        using ne assms(2) by (auto simp: fun_eq_iff)
      ultimately show ?thesis using r True by simp
    next
      case False
      with r ne restore \<open>creates\<close> show ?thesis by (auto split: sum.splits option.splits if_splits)
    qed
  next
    case False
    with assms(1) show ?thesis by (auto simp: download_one_def)
  qed
qed

lemma download_all_or_nothing_witness:
  "download_one True 99 True [Inr (Some (Data [1, 2])), Inr (Some (Data [3])), Inr (Some (ExitStatus 0))] ''d/f'' Map.empty
   = Ready (Inr 0, [''d/f'' \<mapsto> [1, 2, 3]])"
proof -
  let ?fs = "[Inr (Some (Data [1, 2])), Inr (Some (Data [3])), Inr (Some (ExitStatus 0))]"
  obtain files where d: "download_one True 99 True ?fs ''d/f'' Map.empty = Ready (Inr 0, files)"
    by (simp add: download_one_def Let_def)
  from download_all_or_nothing [OF d] show ?thesis by (simp add: d)
qed

end
