(* ===== verification/Terminal.thy ===== *)
theory Terminal
  imports Worker_Run "HOL-Library.Sublist"
begin

text \<open>
  The client's end of a shell or command channel, \<^verbatim>\<open>quish-client/src/terminal.rs\<close>: the size and the raw mode
  of the terminal, the reader of standard input, and the pump \<^verbatim>\<open>run_channel\<close> as a step relation whose
  steps are the branches of its \<^verbatim>\<open>select!\<close>.  The last part runs it against the pump of the server.
\<close>

subsection \<open>The terminal\<close>

text \<open>What \<^verbatim>\<open>tcgetwinsize\<close> reports, columns first.\<close>

definition winsize :: "(u16 \<times> u16) option \<Rightarrow> u16 \<times> u16" where
  "winsize ws = (case ws of
       Some (cols, rows) \<Rightarrow> if cols > 0 \<and> rows > 0 then (cols, rows) else (80, 24)
     | None \<Rightarrow> (80, 24))"

text \<open>Standard input as a terminal: its settings, if it is one, and whether they can be set.\<close>

record 't Tty =
  tty_attrs :: "'t option"
  tty_settable :: bool

definition RawMode_enable :: "('t \<Rightarrow> 't) \<Rightarrow> 't Tty \<Rightarrow> 't option \<times> 't Tty" where
  "RawMode_enable make_raw t = (case tty_attrs t of
       None \<Rightarrow> (None, t)
     | Some original \<Rightarrow>
         if tty_settable t then (Some original, t\<lparr>tty_attrs := Some (make_raw original)\<rparr>) else (None, t))"

definition RawMode_drop :: "'t option \<Rightarrow> 't Tty \<Rightarrow> 't Tty" where
  "RawMode_drop original t = (case original of
       None \<Rightarrow> t
     | Some a \<Rightarrow> if tty_settable t then t\<lparr>tty_attrs := Some a\<rparr> else t)"

text \<open>The chunks standard input gives until its end or an error.\<close>

fun spawn_stdin :: "(unit + byte list) list \<Rightarrow> byte list list" where
  "spawn_stdin [] = []"
| "spawn_stdin (Inl _ # _) = []"
| "spawn_stdin (Inr c # rs) = (if c = [] then [] else c # spawn_stdin rs)"

subsection \<open>The pump\<close>

datatype term_error = SendOpenFailed | HandlerFailed | OutputFailed | SendFrameFailed

text \<open>What has not been read of either side (the end of \<open>remote\<close> is the end of the stream), the
  state of the sending half, what has been written, and how the loop ended.\<close>

record TermState =
  remote :: "ChannelMessage list"
  typed :: "byte list list"
  stdin_done :: bool
  send_open :: bool
  send_finished :: bool
  sent :: "ChannelMessage list"
  shown_out :: "byte list list"
  shown_err :: "byte list list"
  ended :: "(term_error + 32 word) option"

definition term_start :: "ChannelMessage list \<Rightarrow> byte list list \<Rightarrow> TermState" where
  "term_start frames chunks = \<lparr>remote = frames, typed = chunks, stdin_done = False, send_open = True, send_finished = False,
     sent = [], shown_out = [], shown_err = [], ended = None\<rparr>"

text \<open>\<^verbatim>\<open>send_frame\<close>: nothing happens once the sending half has been taken.\<close>

definition send_frame :: "bool \<Rightarrow> ChannelMessage \<Rightarrow> TermState \<Rightarrow> TermState" where
  "send_frame ok msg s =
     (if \<not> send_open s then s
      else if ok then s\<lparr>sent := sent s @ [msg]\<rparr> else s\<lparr>ended := Some (Inl SendFrameFailed)\<rparr>)"

definition on_remote :: "bool \<Rightarrow> TermState \<Rightarrow> TermState" where
  "on_remote wrote s = (case remote s of
       [] \<Rightarrow> s\<lparr>ended := Some (Inr (- 1))\<rparr>
     | msg # ms \<Rightarrow>
         (let s = s\<lparr>remote := ms\<rparr> in case msg of
            Data d \<Rightarrow> if wrote then s\<lparr>shown_out := shown_out s @ [d]\<rparr> else s\<lparr>ended := Some (Inl OutputFailed)\<rparr>
          | DataErr d \<Rightarrow> if wrote then s\<lparr>shown_err := shown_err s @ [d]\<rparr> else s\<lparr>ended := Some (Inl OutputFailed)\<rparr>
          | ExitStatus code \<Rightarrow> s\<lparr>ended := Some (Inr code)\<rparr>
          | Resize _ _ \<Rightarrow> s
          | SignalMsg _ \<Rightarrow> s))"

definition on_stdin :: "bool \<Rightarrow> TermState \<Rightarrow> TermState" where
  "on_stdin ok s = (case typed s of
       c # cs \<Rightarrow> send_frame ok (Data c) (s\<lparr>typed := cs\<rparr>)
     | [] \<Rightarrow> s\<lparr>stdin_done := True, send_open := False, send_finished := send_finished s \<or> send_open s\<rparr>)"

definition on_winch :: "bool \<Rightarrow> (u16 \<times> u16) option \<Rightarrow> TermState \<Rightarrow> TermState" where
  "on_winch ok ws s = (case winsize ws of (cols, rows) \<Rightarrow> send_frame ok (Resize cols rows) s)"

definition on_signal :: "bool \<Rightarrow> Signal \<Rightarrow> TermState \<Rightarrow> TermState" where
  "on_signal ok sig s = send_frame ok (SignalMsg sig) s"

inductive term_step :: "bool \<Rightarrow> TermState \<Rightarrow> TermState \<Rightarrow> bool" for interactive where
  Remote: "ended s = None \<Longrightarrow> term_step interactive s (on_remote wrote s)"
| Stdin: "ended s = None \<Longrightarrow> \<not> stdin_done s \<Longrightarrow> term_step interactive s (on_stdin ok s)"
| Winch: "ended s = None \<Longrightarrow> interactive \<Longrightarrow> term_step interactive s (on_winch ok ws s)"
| Interrupt: "ended s = None \<Longrightarrow> \<not> interactive \<Longrightarrow> term_step interactive s (on_signal ok SigInt s)"
| Quit: "ended s = None \<Longrightarrow> \<not> interactive \<Longrightarrow> term_step interactive s (on_signal ok SigQuit s)"

inductive term_run :: "bool \<Rightarrow> TermState \<Rightarrow> TermState \<Rightarrow> bool" for interactive start where
  Start: "term_run interactive start start"
| Step: "term_run interactive start s \<Longrightarrow> term_step interactive s s' \<Longrightarrow> term_run interactive start s'"

inductive_cases term_step_cases: "term_step interactive s s'"

text \<open>The end of the loop: the sending half is finished unless an error left the function.\<close>

definition term_finish :: "TermState \<Rightarrow> TermState" where
  "term_finish s = s\<lparr>send_open := False, send_finished := send_finished s \<or> send_open s\<rparr>"

text \<open>The whole of \<^verbatim>\<open>run_channel\<close>: its result, the state it leaves, and the terminal.  The guard of the
  raw mode is dropped on every way out.\<close>

inductive run_channel ::
  "('t \<Rightarrow> 't) \<Rightarrow> bool \<Rightarrow> TermState \<Rightarrow> 't Tty \<Rightarrow> (term_error + 32 word) \<Rightarrow> TermState \<Rightarrow> 't Tty \<Rightarrow> bool"
  for make_raw interactive start tty where
  OpenFails: "(if interactive then RawMode_enable make_raw tty else (None, tty)) = (guard, tty') \<Longrightarrow>
    run_channel make_raw interactive start tty (Inl SendOpenFailed) start (RawMode_drop guard tty')"
| HandlersFail: "(if interactive then RawMode_enable make_raw tty else (None, tty)) = (guard, tty') \<Longrightarrow>
    run_channel make_raw interactive start tty (Inl HandlerFailed) start (RawMode_drop guard tty')"
| PumpFails: "(if interactive then RawMode_enable make_raw tty else (None, tty)) = (guard, tty') \<Longrightarrow>
    term_run interactive start s \<Longrightarrow> ended s = Some (Inl e) \<Longrightarrow>
    run_channel make_raw interactive start tty (Inl e) s (RawMode_drop guard tty')"
| Exits: "(if interactive then RawMode_enable make_raw tty else (None, tty)) = (guard, tty') \<Longrightarrow>
    term_run interactive start s \<Longrightarrow> ended s = Some (Inr code) \<Longrightarrow>
    run_channel make_raw interactive start tty (Inr code) (term_finish s) (RawMode_drop guard tty')"

subsection \<open>Lemmas\<close>

text \<open>The terminal is as it was, however the channel ends.\<close>

lemma RawMode_drop_enable: "RawMode_enable make_raw t = (guard, t') \<Longrightarrow> RawMode_drop guard t' = t"
  by (auto simp: RawMode_enable_def RawMode_drop_def split: option.splits if_splits)

lemma guard_restores:
  "(if interactive then RawMode_enable make_raw t else (None, t)) = (guard, t') \<Longrightarrow> RawMode_drop guard t' = t"
  by (auto simp: RawMode_drop_enable RawMode_drop_def [of None] split: if_splits)

lemma run_channel_restores_tty: "run_channel make_raw interactive start tty res s tty' \<Longrightarrow> tty' = tty"
  by (induction rule: run_channel.induct) (simp_all add: guard_restores)

text \<open>A signal or a resize after the end of standard input goes nowhere, although its handler has
  replaced the default action.\<close>

lemma signal_lost_after_stdin: "\<not> send_open s \<Longrightarrow> on_signal ok sig s = s" "\<not> send_open s \<Longrightarrow> on_winch ok ws s = s"
  by (simp_all add: on_signal_def on_winch_def send_frame_def split: prod.splits)

text \<open>What has been written is what has been read, in order; only a frame that ends the loop is an exit
  status.\<close>

definition no_status :: "ChannelMessage list \<Rightarrow> bool" where
  "no_status ms \<longleftrightarrow> list_all (\<lambda>m. case m of ExitStatus _ \<Rightarrow> False | _ \<Rightarrow> True) ms"

definition seen :: "TermState \<Rightarrow> ChannelMessage list \<Rightarrow> bool" where
  "seen s done \<longleftrightarrow> no_status done \<and> shown_out s = frame_data done \<and> shown_err s = err_data done"

definition recv_inv :: "ChannelMessage list \<Rightarrow> TermState \<Rightarrow> bool" where
  "recv_inv frames s \<longleftrightarrow> (\<exists>done. seen s done \<and> (case ended s of
       None \<Rightarrow> frames = done @ remote s
     | Some (Inr code) \<Rightarrow> frames = done @ ExitStatus code # remote s \<or> code = - 1 \<and> frames = done
     | Some (Inl _) \<Rightarrow> prefix done frames))"

definition send_inv :: "byte list list \<Rightarrow> TermState \<Rightarrow> bool" where
  "send_inv chunks s \<longleftrightarrow> prefix (frame_data (sent s)) chunks
     \<and> (ended s = None \<longrightarrow> frame_data (sent s) @ typed s = chunks \<and> (stdin_done s \<longleftrightarrow> \<not> send_open s))"

lemma no_status_simps [simp]:
  "no_status []" "no_status (xs @ ys) \<longleftrightarrow> no_status xs \<and> no_status ys" "no_status [Data d]" "no_status [DataErr d]"
  "no_status [Resize c r]" "no_status [SignalMsg sig]"
  by (simp_all add: no_status_def)

lemma recv_inv_remote:
  assumes "recv_inv frames s" "ended s = None"
  shows "recv_inv frames (on_remote wrote s)"
proof -
  from assms obtain "done" where d: "frames = done @ remote s" "seen s done" by (auto simp: recv_inv_def)
  show ?thesis
  proof (cases "remote s")
    case Nil
    then show ?thesis using d by (auto simp: recv_inv_def on_remote_def seen_def)
  next
    case (Cons msg ms)
    show ?thesis
    proof (cases msg)
      case (ExitStatus code)
      then show ?thesis using d Cons by (auto simp: recv_inv_def on_remote_def seen_def Let_def)
    next
      case (Data b)
      then show ?thesis using d Cons assms(2) unfolding recv_inv_def
        by (intro exI [of _ "if wrote then done @ [msg] else done"]) (simp add: on_remote_def seen_def Let_def)
    next
      case (DataErr b)
      then show ?thesis using d Cons assms(2) unfolding recv_inv_def
        by (intro exI [of _ "if wrote then done @ [msg] else done"]) (simp add: on_remote_def seen_def Let_def)
    qed (use d Cons assms(2) in \<open>auto simp: recv_inv_def on_remote_def seen_def Let_def intro!: exI [of _ "done @ [msg]"]\<close>)
  qed
qed

lemma recv_inv_send: "recv_inv frames s \<Longrightarrow> ended s = None \<Longrightarrow> recv_inv frames (send_frame ok msg s)"
  by (auto simp: recv_inv_def send_frame_def seen_def)

lemma recv_inv_step: "term_step interactive s s' \<Longrightarrow> recv_inv frames s \<Longrightarrow> recv_inv frames s'"
proof (induction rule: term_step.induct)
  case (Stdin s ok)
  have "recv_inv frames (s\<lparr>typed := cs\<rparr>)" for cs using Stdin by (simp add: recv_inv_def seen_def)
  then show ?case using Stdin
    by (auto simp: on_stdin_def recv_inv_send recv_inv_def [of _ "s\<lparr>stdin_done := True, send_open := False, send_finished := b\<rparr>" for b]
        recv_inv_def [of _ s] seen_def split: list.split)
qed (simp_all add: recv_inv_remote recv_inv_send on_winch_def on_signal_def split: prod.split)

lemma send_inv_step: "term_step interactive s s' \<Longrightarrow> send_inv chunks s \<Longrightarrow> send_inv chunks s'"
proof (induction rule: term_step.induct)
  case (Remote s wrote)
  then show ?case by (auto simp: send_inv_def on_remote_def Let_def split: list.split ChannelMessage.split)
next
  case (Stdin s ok)
  then show ?case by (cases "typed s") (auto simp: send_inv_def on_stdin_def send_frame_def)
qed (auto simp: send_inv_def on_winch_def on_signal_def send_frame_def split: prod.split)

lemma term_run_inv:
  "term_run interactive (term_start frames chunks) s \<Longrightarrow> recv_inv frames s \<and> send_inv chunks s"
proof (induction rule: term_run.induct)
  case Start
  show ?case by (auto simp: recv_inv_def send_inv_def term_start_def seen_def intro!: exI [of _ "[]"])
qed (use recv_inv_step send_inv_step in blast)

lemma run_channel_inv:
  assumes "run_channel make_raw interactive (term_start frames chunks) tty res s tty'"
  shows "prefix (frame_data (sent s)) chunks \<and> (\<forall>code. res = Inr code \<longrightarrow>
    (\<exists>done. seen s done \<and> (frames = done @ ExitStatus code # remote s \<or> code = - 1 \<and> frames = done)))"
  using assms
proof (cases rule: run_channel.cases)
  case (PumpFails guard t' e)
  then show ?thesis using term_run_inv [of interactive frames chunks s] by (simp add: send_inv_def)
next
  case (Exits guard t' u code)
  then show ?thesis using term_run_inv [of interactive frames chunks u]
    by (auto simp: send_inv_def recv_inv_def term_finish_def seen_def)
qed (simp_all add: term_start_def)

text \<open>The pump can always go on, and ends once the frames that arrive have been read.\<close>

lemma term_ends:
  assumes "term_run interactive start s"
  shows "\<exists>s'. term_run interactive start s' \<and> ended s' \<noteq> None"
  using assms
proof (induction "length (remote s)" arbitrary: s rule: less_induct)
  case less
  show ?case
  proof (cases "ended s")
    case None
    from term_run.Step [OF less.prems term_step.Remote [OF None, of interactive True]]
    have run: "term_run interactive start (on_remote True s)" .
    show ?thesis
    proof (cases "remote s")
      case Nil
      then show ?thesis using run by (intro exI [of _ "on_remote True s"]) (simp add: on_remote_def)
    next
      case (Cons msg ms)
      then have "length (remote (on_remote True s)) < length (remote s)"
        by (simp add: on_remote_def Let_def split: ChannelMessage.split)
      from less.hyps [OF this run] show ?thesis .
    qed
  qed (use less.prems in blast)
qed

subsection \<open>A command from end to end\<close>

text \<open>What the server has sent is at every moment a beginning of what the command has written.\<close>

definition sends_prefix :: "byte list list \<Rightarrow> byte list list \<Rightarrow> PumpState \<Rightarrow> bool" where
  "sends_prefix out err s \<longleftrightarrow> no_status (to_client s) \<and> prefix (frame_data (to_client s)) out \<and> prefix (err_data (to_client s)) err"

lemma exec_sends_prefix:
  "exec_run (pump_start frames out err) s \<Longrightarrow> sends_prefix out err s"
proof (induction rule: exec_run.induct)
  case Start
  show ?case by (simp add: sends_prefix_def pump_start_def)
next
  case (Step s s')
  from exec_inv_run [OF Step.hyps(1)] have inv: "exec_inv frames out err s" .
  from Step.hyps(2) show ?case
  proof (cases rule: exec_step.cases)
    case (Out r)
    then show ?thesis using inv Step.IH
      by (cases "out_left s"; cases r) (auto simp: sends_prefix_def exec_inv_def check_drained_def on_out_def pump_send_def prefix_def)
  next
    case (Err r)
    then show ?thesis using inv Step.IH
      by (cases "err_left s"; cases r) (auto simp: sends_prefix_def exec_inv_def check_drained_def on_err_def pump_send_def prefix_def)
  next
    case Frame
    then show ?thesis using Step.IH
      by (auto simp: sends_prefix_def check_drained_def on_frame_def Let_def split: list.split ChannelMessage.split)
  qed
qed

lemma frame_data_prefix: "prefix xs ys \<Longrightarrow> prefix (frame_data xs) (frame_data ys)" "prefix xs ys \<Longrightarrow> prefix (err_data xs) (err_data ys)"
  by (auto simp: prefix_def)

text \<open>What every pump of the server promises: the output it has sent and the input it has taken are
  beginnings of what there is.  Then so is what goes through the network on either side of it.\<close>

locale relay =
  fixes reached :: "ChannelMessage list \<Rightarrow> byte list list \<Rightarrow> PumpState \<Rightarrow> bool"
  assumes sends: "reached received out s \<Longrightarrow> prefix (frame_data (to_client s)) out"
    and takes: "reached received out s \<Longrightarrow> prefix (to_stdin s) (frame_data received)"
begin

lemma carries_out:
  assumes "reached received out s" "prefix arrived (to_client s)"
  shows "prefix (frame_data arrived) out"
  using frame_data_prefix(1) [OF assms(2)] sends [OF assms(1)] by (rule prefix_order.trans)

lemma carries_in:
  assumes "reached received out s" "prefix received msgs" "prefix (frame_data msgs) chunks"
  shows "prefix (to_stdin s) chunks"
  using takes [OF assms(1)] frame_data_prefix(1) [OF assms(2)] assms(3) by (meson prefix_order.trans)

end

interpretation exec: relay "\<lambda>received out s. \<exists>err. exec_run (pump_start received out err) s"
proof
  fix received out s
  assume "\<exists>err. exec_run (pump_start received out err) s"
  then obtain err where run: "exec_run (pump_start received out err) s" ..
  show "prefix (frame_data (to_client s)) out" using exec_sends_prefix [OF run] by (simp add: sends_prefix_def)
  show "prefix (to_stdin s) (frame_data received)"
    using exec_inv_run [OF run] by (auto simp: exec_inv_def intro: prefixI [OF sym])
qed

text \<open>The same for the pump of a shell.\<close>

definition shell_inv :: "ChannelMessage list \<Rightarrow> byte list list \<Rightarrow> PumpState \<Rightarrow> bool" where
  "shell_inv frames out s \<longleftrightarrow> no_status (to_client s) \<and> err_data (to_client s) = [] \<and> prefix (frame_data (to_client s)) out
     \<and> (pump_end s = None \<or> pump_end s = Some (Inr Drained) \<longrightarrow> frame_data (to_client s) @ out_left s = out)
     \<and> (pump_end s = Some (Inr Drained) \<longrightarrow> out_left s = [])
     \<and> (stdin_open s \<longleftrightarrow> \<not> frames_done s) \<and> (frames_done s \<longrightarrow> from_client s = [])
     \<and> to_stdin s @ frame_data (from_client s) = frame_data frames"

lemma shell_inv_step: "shell_step s s' \<Longrightarrow> shell_inv frames out s \<Longrightarrow> shell_inv frames out s'"
proof (induction rule: shell_step.induct)
  case (Out s r)
  then show ?case by (cases "out_left s"; cases r) (auto simp: shell_inv_def shell_out_def pump_send_def prefix_def)
next
  case (Frame s)
  show ?case
  proof (cases "from_client s")
    case Nil
    with Frame show ?thesis by (auto simp: shell_inv_def shell_frame_def)
  next
    case (Cons msg ms)
    with Frame show ?thesis by (cases msg) (auto simp: shell_inv_def shell_frame_def Let_def)
  qed
qed

lemma shell_inv_run: "shell_run (pump_start frames out err) s \<Longrightarrow> shell_inv frames out s"
proof (induction rule: shell_run.induct)
  case Start
  show ?case by (simp add: shell_inv_def pump_start_def)
qed (rule shell_inv_step)

interpretation sh: relay "\<lambda>received out s. \<exists>err. shell_run (pump_start received out err) s"
proof
  fix received out s
  assume "\<exists>err. shell_run (pump_start received out err) s"
  then have "shell_inv received out s" using shell_inv_run by blast
  then show "prefix (frame_data (to_client s)) out" "prefix (to_stdin s) (frame_data received)"
    by (auto simp: shell_inv_def intro: prefixI [OF sym])
qed

lemma status_unique:
  assumes "no_status ms" "no_status done" "prefix (done @ ExitStatus c # rest) (ms @ tail)" "tail = [] \<or> tail = [ExitStatus code]"
  shows "done = ms \<and> tail = [ExitStatus code] \<and> c = code"
proof -
  from assms(3) obtain zs where "ms @ tail = done @ ExitStatus c # rest @ zs" by (auto simp: prefix_def)
  then show ?thesis using assms(1,2,4)
    by (auto simp: append_eq_append_conv2 Cons_eq_append_conv append_eq_Cons_conv no_status_def)
qed

text \<open>The frames of a session: those of the pump, and the status after the end of the output.\<close>

lemma after_pump_frames:
  assumes "after_pump sid e code r = (tail, sres, reqs)"
  shows "tail = [] \<or> e = Inr Drained \<and> tail = [ExitStatus code]"
  using assms
  by (auto simp: after_pump_def send_status_def split: sum.splits PumpEnd.splits send_result.splits prod.splits)

lemma run_exec_frames:
  assumes "run_exec sid s code r = (frames, sres, reqs)" "pump_end s = Some e"
  shows "\<exists>tail. frames = to_client s @ tail \<and> (tail = [] \<or> e = Inr Drained \<and> tail = [ExitStatus code])"
  using assms after_pump_frames [of sid e code r]
  by (cases "after_pump sid e code r") (auto simp: run_exec_def Let_def)

lemma run_shell_frames:
  assumes "run_shell sid cols rows s code r = ((frames, sres, reqs), sizes)" "pump_end s = Some e"
  shows "\<exists>tail. frames = to_client s @ tail \<and> (tail = [] \<or> e = Inr Drained \<and> tail = [ExitStatus code])"
  using assms after_pump_frames [of sid e code r]
  by (cases "after_pump sid e code r") (auto simp: run_shell_def)

text \<open>The server's end of a session that has ended: a shell, whose terminal is one stream, or a command.  \<open>out\<close>
  and \<open>err\<close> are what the process writes, \<open>received\<close> is what arrived from the client, \<open>frames\<close> what was sent.\<close>

definition session_served ::
  "bool \<Rightarrow> ChannelMessage list \<Rightarrow> byte list list \<Rightarrow> byte list list \<Rightarrow> PumpState \<Rightarrow> 32 word \<Rightarrow> send_result \<Rightarrow> ChannelMessage list \<Rightarrow> bool" where
  "session_served interactive received out err s code r frames \<longleftrightarrow> pump_end s \<noteq> None
   \<and> (if interactive
      then err = [] \<and> shell_run (pump_start received out []) s
        \<and> (\<exists>sid cols rows sres reqs sizes. run_shell sid cols rows s code r = ((frames, sres, reqs), sizes))
      else exec_run (pump_start received out err) s \<and> (\<exists>sid sres reqs. run_exec sid s code r = (frames, sres, reqs)))"

lemma session_served_sends:
  assumes "session_served interactive received out err s code r frames"
  shows "sends_prefix out err s" "prefix (to_stdin s) (frame_data received)"
    "\<exists>tail. frames = to_client s @ tail \<and> (tail = [] \<or>
       tail = [ExitStatus code] \<and> pump_end s = Some (Inr Drained) \<and> frame_data (to_client s) = out \<and> err_data (to_client s) = err)"
proof -
  obtain e where e: "pump_end s = Some e" using assms by (auto simp: session_served_def)
  have "sends_prefix out err s \<and> prefix (to_stdin s) (frame_data received)
    \<and> (\<exists>tail. frames = to_client s @ tail \<and> (tail = [] \<or>
         tail = [ExitStatus code] \<and> pump_end s = Some (Inr Drained) \<and> frame_data (to_client s) = out \<and> err_data (to_client s) = err))"
  proof (cases interactive)
    case True
    with assms obtain sid cols rows sres reqs sizes where run: "shell_run (pump_start received out []) s" and err: "err = []"
      and sh: "run_shell sid cols rows s code r = ((frames, sres, reqs), sizes)" by (auto simp: session_served_def)
    have inv: "shell_inv received out s" by (rule shell_inv_run [OF run])
    have "prefix (to_stdin s) (frame_data received)" by (rule sh.takes) (use run in blast)
    moreover have "sends_prefix out err s" using inv err by (simp add: shell_inv_def sends_prefix_def)
    ultimately show ?thesis using run_shell_frames [OF sh e] inv e err by (auto simp: shell_inv_def)
  next
    case False
    with assms obtain sid sres reqs where run: "exec_run (pump_start received out err) s"
      and ex: "run_exec sid s code r = (frames, sres, reqs)" by (auto simp: session_served_def)
    have "prefix (to_stdin s) (frame_data received)" by (rule exec.takes) (use run in blast)
    then show ?thesis
      using run_exec_frames [OF ex e] exec_sends_prefix [OF run] exec_inv_run [OF run] e by (auto simp: exec_inv_def)
  qed
  then show "sends_prefix out err s" "prefix (to_stdin s) (frame_data received)"
    "\<exists>tail. frames = to_client s @ tail \<and> (tail = [] \<or>
       tail = [ExitStatus code] \<and> pump_end s = Some (Inr Drained) \<and> frame_data (to_client s) = out \<and> err_data (to_client s) = err)" by blast+
qed

subsection \<open>Properties\<close>

text \<open>C19: a shell or command run over the network behaves as if run locally.  Whatever the order in which
  either side serves its sources, and however much of either stream arrives, a client that ends with the
  status of the process has written all the process has written, to standard output and error in order;
  otherwise the stream broke off, the client ends with the status -1 and has written a beginning of
  both.  The process has read a beginning of the client's standard input.  However the client ends, errors
  included, the terminal, which a shell puts into raw mode, is left as it was.\<close>

theorem command_end_to_end:
  assumes client: "run_channel make_raw interactive (term_start arrived chunks) tty res t tty'"
    and server: "session_served interactive received out err s code r frames"
    and net: "prefix arrived frames" "prefix received (sent t)"
  shows "tty' = tty \<and> prefix (to_stdin s) chunks
    \<and> (\<forall>status. res = Inr status \<longrightarrow>
         status = code \<and> pump_end s = Some (Inr Drained) \<and> shown_out t = out \<and> shown_err t = err
       \<or> status = - 1 \<and> prefix (shown_out t) out \<and> prefix (shown_err t) err)"
proof (intro conjI allI impI)
  show "tty' = tty" by (rule run_channel_restores_tty [OF client])
  have "prefix (frame_data (sent t)) chunks" using run_channel_inv [OF client] by blast
  then show "prefix (to_stdin s) chunks"
    using session_served_sends(2) [OF server] frame_data_prefix(1) [OF net(2)] by (meson prefix_order.trans)
next
  fix status assume "res = Inr status"
  then obtain "done" where d: "seen t done"
    and c: "arrived = done @ ExitStatus status # remote t \<or> status = - 1 \<and> arrived = done"
    using run_channel_inv [OF client] by blast
  obtain tail where f: "frames = to_client s @ tail" and tail: "tail = [] \<or> tail = [ExitStatus code]
      \<and> pump_end s = Some (Inr Drained) \<and> frame_data (to_client s) = out \<and> err_data (to_client s) = err"
    using session_served_sends(3) [OF server] by blast
  have sp: "sends_prefix out err s" by (rule session_served_sends(1) [OF server])
  from c show "status = code \<and> pump_end s = Some (Inr Drained) \<and> shown_out t = out \<and> shown_err t = err
     \<or> status = - 1 \<and> prefix (shown_out t) out \<and> prefix (shown_err t) err"
  proof
    assume a: "arrived = done @ ExitStatus status # remote t"
    have "done = to_client s \<and> tail = [ExitStatus code] \<and> status = code"
      using status_unique [of "to_client s" "done" status "remote t" tail code] net(1) a f tail d sp
      by (auto simp: seen_def sends_prefix_def)
    then show ?thesis using d tail by (auto simp: seen_def)
  next
    assume a: "status = - 1 \<and> arrived = done"
    have data: "frame_data frames = frame_data (to_client s)" "err_data frames = err_data (to_client s)"
      using f tail by auto
    have "prefix (shown_out t) (frame_data frames)" "prefix (shown_err t) (err_data frames)"
      using frame_data_prefix [OF net(1)] a d by (auto simp: seen_def)
    then show ?thesis using sp a data by (auto simp: sends_prefix_def intro: prefix_order.trans)
  qed
qed

definition demo_server_end :: PumpState where
  "demo_server_end = \<lparr>from_client = [], out_left = [], err_left = [], stdin_open = True, out_done = False, err_done = False,
     frames_done = False, to_client = [Data [1]], to_stdin = [[9]], to_signals = [], resizes = [],
     pump_end = Some (Inr Drained)\<rparr>"

definition demo_client_end :: TermState where
  "demo_client_end = \<lparr>remote = [], typed = [], stdin_done = False, send_open = True, send_finished = False,
     sent = [Data [9]], shown_out = [[1]], shown_err = [], ended = Some (Inr 3)\<rparr>"

lemma demo_server_run: "shell_run (pump_start [Data [9]] [[1]] []) demo_server_end"
proof -
  let ?s = "pump_start [Data [9]] [[1]] []"
  note defs = pump_start_def shell_frame_def shell_out_def pump_send_def Let_def
  have "shell_run ?s (shell_frame ?s)" by (rule shell_run.Step [OF shell_run.Start shell_step.Frame]) (simp_all add: defs)
  then have "shell_run ?s (shell_out SentOk (shell_frame ?s))" by (rule shell_run.Step [OF _ shell_step.Out]) (simp add: defs)
  then have "shell_run ?s (shell_out SentOk (shell_out SentOk (shell_frame ?s)))"
    by (rule shell_run.Step [OF _ shell_step.Out]) (simp add: defs)
  moreover have "shell_out SentOk (shell_out SentOk (shell_frame ?s)) = demo_server_end"
    by (simp add: defs demo_server_end_def)
  ultimately show ?thesis by simp
qed

lemma demo_client_run: "term_run True (term_start [Data [1], ExitStatus 3] [[9]]) demo_client_end"
proof -
  let ?s = "term_start [Data [1], ExitStatus 3] [[9]]" and ?r = "on_remote True" and ?i = "on_stdin True"
  note defs = term_start_def on_stdin_def on_remote_def send_frame_def Let_def
  have "term_run True ?s (?i ?s)" by (rule term_run.Step [OF term_run.Start term_step.Stdin]) (simp_all add: defs)
  then have "term_run True ?s (?r (?i ?s))" by (rule term_run.Step [OF _ term_step.Remote]) (simp add: defs)
  then have "term_run True ?s (?r (?r (?i ?s)))" by (rule term_run.Step [OF _ term_step.Remote]) (simp add: defs)
  moreover have "?r (?r (?i ?s)) = demo_client_end" by (simp add: defs demo_client_end_def)
  ultimately show ?thesis by simp
qed

lemma command_end_to_end_witness:
  "run_channel Suc True (term_start [Data [1], ExitStatus 3] [[9]]) \<lparr>tty_attrs = Some 0, tty_settable = True\<rparr>
     (Inr 3) (term_finish demo_client_end) \<lparr>tty_attrs = Some 0, tty_settable = True\<rparr>
   \<and> shown_out (term_finish demo_client_end) = [[1]] \<and> prefix (to_stdin demo_server_end) [[9]]"
proof -
  let ?t = "\<lparr>tty_attrs = Some (0 :: nat), tty_settable = True\<rparr>"
  have run: "run_channel Suc True (term_start [Data [1], ExitStatus 3] [[9]]) ?t (Inr 3) (term_finish demo_client_end) ?t"
    using run_channel.Exits [OF _ demo_client_run, of Suc ?t "Some 0" "?t\<lparr>tty_attrs := Some 1\<rparr>" 3]
    by (simp add: RawMode_enable_def RawMode_drop_def demo_client_end_def)
  have "run_shell 7 80 24 demo_server_end 3 SentOk = (([Data [1], ExitStatus 3], Inr (), [Reap 7]), [(80, 24)])"
    by (simp add: run_shell_def demo_server_end_def after_pump_def send_status_def)
  moreover have "pump_end demo_server_end \<noteq> None" by (simp add: demo_server_end_def)
  ultimately have served: "session_served True [Data [9]] [[1]] [] demo_server_end 3 SentOk [Data [1], ExitStatus 3]"
    using demo_server_run unfolding session_served_def by simp blast
  have net: "prefix [Data [9]] (sent (term_finish demo_client_end))" by (simp add: term_finish_def demo_client_end_def)
  from command_end_to_end [OF run served _ net] run show ?thesis by simp
qed

end
