(* ===== verification/Client_Forward.thy ===== *)
theory Client_Forward
  imports Client_Cp Client_Channel Terminal
begin

text \<open>
  The client's end of TCP forwarding (\<^verbatim>\<open>run_forwarding\<close>, \<^verbatim>\<open>accept_loop\<close>, \<^verbatim>\<open>forward_one\<close>,
  \<^verbatim>\<open>remote_forward_listen\<close>, \<^verbatim>\<open>remote_forward_data\<close> and \<^verbatim>\<open>bridge\<close> of \<^verbatim>\<open>quish-client/src/main.rs\<close>), and what it gives
  together with the server's end (theory Session).
\<close>

subsection \<open>The bridge\<close>

text \<open>From the local socket to the channel: the frames sent and whether the loop has ended.  An empty read
  is the end of the socket, \<open>oks\<close> are the outcomes of the sends (all succeed past its end), and a list
  that runs out is a read still waiting.\<close>

fun bridge_up :: "bool list \<Rightarrow> (unit + byte list) list \<Rightarrow> ChannelMessage list \<times> bool" where
  "bridge_up oks [] = ([], False)"
| "bridge_up oks (Inl _ # _) = ([], True)"
| "bridge_up oks (Inr c # reads) =
     (if c = [] then ([], True)
      else case oks of
          [] \<Rightarrow> (case bridge_up [] reads of (ms, fin) \<Rightarrow> (Data c # ms, fin))
        | True # oks \<Rightarrow> (case bridge_up oks reads of (ms, fin) \<Rightarrow> (Data c # ms, fin))
        | False # _ \<Rightarrow> ([], True))"

text \<open>From the channel to the local socket: the chunks written and whether the loop has ended.\<close>

fun bridge_down :: "bool list \<Rightarrow> frames \<Rightarrow> byte list list \<times> bool" where
  "bridge_down oks [] = ([], False)"
| "bridge_down oks (Inl _ # _) = ([], True)"
| "bridge_down oks (Inr None # _) = ([], True)"
| "bridge_down oks (Inr (Some (Data d)) # fs) = (case oks of
       [] \<Rightarrow> (case bridge_down [] fs of (ds, fin) \<Rightarrow> (d # ds, fin))
     | True # oks \<Rightarrow> (case bridge_down oks fs of (ds, fin) \<Rightarrow> (d # ds, fin))
     | False # _ \<Rightarrow> ([], True))"
| "bridge_down oks (Inr (Some _) # fs) = bridge_down oks fs"

text \<open>Both directions: what was sent and written, and whether the bridge has returned, which it does once
  both have ended.\<close>

definition bridge ::
  "bool list \<Rightarrow> (unit + byte list) list \<Rightarrow> bool list \<Rightarrow> frames \<Rightarrow> ChannelMessage list \<times> byte list list \<times> unit poll" where
  "bridge sends reads writes fs = (case (bridge_up sends reads, bridge_down writes fs) of
       ((ms, up), (ds, down)) \<Rightarrow> (ms, ds, if up \<and> down then Ready () else Pending))"

subsection \<open>Opening the channels\<close>

datatype forward_error = ForwardOpen open_error | ForwardEncode | ForwardSend | ForwardRecv | BadSignal | BindFailed | AcceptError | TaskPanicked

text \<open>The common part: the request, its response, and the opening frame, with \<open>fits\<close> whether it can be
  encoded and \<open>sends\<close> whether it is sent.\<close>

definition open_with ::
  "HttpLib \<Rightarrow> 'w Server \<Rightarrow> Target \<Rightarrow> string \<Rightarrow> (ChannelOpen \<Rightarrow> bool) \<Rightarrow> bool \<Rightarrow> ChannelOpen \<Rightarrow> 'w \<Rightarrow> (forward_error + ChannelOpen) \<times> 'w" where
  "open_with http srv target authorization fits sends op w = (case open_forward_channel http srv target authorization w of
       (Inl e, w) \<Rightarrow> (Inl (ForwardOpen e), w)
     | (Inr _, w) \<Rightarrow> (if \<not> fits op then Inl ForwardEncode else if \<not> sends then Inl ForwardSend else Inr op, w))"

text \<open>One accepted connection: the frame its channel opens with, the bridge being next.\<close>

definition forward_one ::
  "HttpLib \<Rightarrow> 'w Server \<Rightarrow> Target \<Rightarrow> string \<Rightarrow> (ChannelOpen \<Rightarrow> bool) \<Rightarrow> bool \<Rightarrow> string \<Rightarrow> u16 \<Rightarrow> 'w \<Rightarrow> (forward_error + ChannelOpen) \<times> 'w" where
  "forward_one http srv target authorization fits sends rhost rport =
     open_with http srv target authorization fits sends (Forward rhost rport)"

text \<open>One connection the server has accepted for us: no channel is opened when the local dial fails.\<close>

definition remote_forward_data ::
  "(string \<Rightarrow> u16 \<Rightarrow> bool) \<Rightarrow> HttpLib \<Rightarrow> 'w Server \<Rightarrow> Target \<Rightarrow> string \<Rightarrow> (ChannelOpen \<Rightarrow> bool) \<Rightarrow> bool \<Rightarrow> u64 \<Rightarrow> string \<Rightarrow> u16 \<Rightarrow> 'w \<Rightarrow>
     (forward_error + ChannelOpen option) \<times> 'w" where
  "remote_forward_data dial http srv target authorization fits sends cref lhost lport w =
     (if \<not> dial lhost lport then (Inr None, w)
      else case open_with http srv target authorization fits sends (RemoteForwardData cref) w of
          (Inl e, w) \<Rightarrow> (Inl e, w)
        | (Inr op, w) \<Rightarrow> (Inr (Some op), w))"

text \<open>The signals of a control channel, as they arrive: an error of the stream, its end, a frame that does
  not decode, or a reference.  The references a task has been started for, and the result of the loop.\<close>

datatype signal_event = SignalError | SignalEnd | SignalBad | SignalRef u64

fun accepted_loop :: "signal_event list \<Rightarrow> u64 list \<times> (forward_error + unit) poll" where
  "accepted_loop [] = ([], Pending)"
| "accepted_loop (SignalError # _) = ([], Ready (Inl ForwardRecv))"
| "accepted_loop (SignalEnd # _) = ([], Ready (Inr ()))"
| "accepted_loop (SignalBad # _) = ([], Ready (Inl BadSignal))"
| "accepted_loop (SignalRef cref # evs) = (case accepted_loop evs of (refs, res) \<Rightarrow> (cref # refs, res))"

fun show_ip_addr :: "IpAddr \<Rightarrow> string" where
  "show_ip_addr (V4 a) = show_ipv4 a"
| "show_ip_addr (V6 a) = show_ipv6 a"

definition remote_forward_listen ::
  "HttpLib \<Rightarrow> 'w Server \<Rightarrow> Target \<Rightarrow> string \<Rightarrow> (ChannelOpen \<Rightarrow> bool) \<Rightarrow> bool \<Rightarrow> RemoteForwardSpec \<Rightarrow> signal_event list \<Rightarrow> 'w \<Rightarrow>
     u64 list \<times> (forward_error + unit) poll \<times> 'w" where
  "remote_forward_listen http srv target authorization fits sends spec evs w =
     (case open_with http srv target authorization fits sends (RemoteForwardListen (show_ip_addr (rf_bind spec)) (rf_rport spec)) w of
        (Inl e, w) \<Rightarrow> ([], Ready (Inl e), w)
      | (Inr _, w) \<Rightarrow> (case accepted_loop evs of (refs, res) \<Rightarrow> (refs, res, w)))"

text \<open>The sockets a local listener accepts, each given to a task of its own; an error ends the loop, and
  nothing else does.\<close>

fun local_accept_loop :: "'s option list \<Rightarrow> 's list \<times> (forward_error + unit) poll" where
  "local_accept_loop [] = ([], Pending)"
| "local_accept_loop (None # _) = ([], Ready (Inl AcceptError))"
| "local_accept_loop (Some tcp # evs) = (case local_accept_loop evs of (socks, res) \<Rightarrow> (tcp # socks, res))"

text \<open>The tasks are joined in the order they were started; one that panicked is an error too.\<close>

fun join_tasks :: "(forward_error + unit) poll list \<Rightarrow> (forward_error + unit) poll" where
  "join_tasks [] = Ready (Inr ())"
| "join_tasks (Ready (Inr ()) # ts) = join_tasks ts"
| "join_tasks (Ready (Inl e) # _) = Ready (Inl e)"
| "join_tasks (Pending # _) = Pending"

text \<open>All listeners are bound before any task is waited for; the first that cannot be bound is an error.
  \<open>locals\<close> and \<open>remotes\<close> say what becomes of the tasks.\<close>

definition run_forwarding ::
  "(IpAddr \<Rightarrow> u16 \<Rightarrow> bool) \<Rightarrow> (ForwardSpec \<Rightarrow> (forward_error + unit) poll) \<Rightarrow> (RemoteForwardSpec \<Rightarrow> (forward_error + unit) poll) \<Rightarrow>
     ForwardSpec list \<Rightarrow> RemoteForwardSpec list \<Rightarrow> (forward_error + unit) poll" where
  "run_forwarding can_bind locals remotes forwards remote_forwards =
     (if \<not> list_all (\<lambda>f. can_bind (fw_bind f) (fw_lport f)) forwards then Ready (Inl BindFailed)
      else join_tasks (map locals forwards @ map remotes remote_forwards))"

subsection \<open>Lemmas\<close>

text \<open>A task that fails is not reported while one started before it goes on.\<close>

lemma later_failure_not_reported:
  "run_forwarding (\<lambda>_ _. True) (\<lambda>_. snd (local_accept_loop [])) (\<lambda>_. Ready (Inl (ForwardOpen (HttpStatus 403)))) [f] [r] = Pending"
  by (simp add: run_forwarding_def)

text \<open>A listener the server refuses, which it does by ending the channel, is reported as success.\<close>

lemma refused_listen_reports_success:
  assumes "open_forward_channel http srv target authorization w = (Inr (), w')" "\<And>op. fits op"
  shows "remote_forward_listen http srv target authorization fits True spec [SignalEnd] w = ([], Ready (Inr ()), w')"
  using assms by (simp add: remote_forward_listen_def open_with_def)

fun read_chunks :: "(unit + byte list) list \<Rightarrow> byte list list" where
  "read_chunks (Inr c # reads) = (if c = [] then [] else c # read_chunks reads)"
| "read_chunks _ = []"

fun messages :: "frames \<Rightarrow> ChannelMessage list" where
  "messages (Inr (Some m) # fs) = m # messages fs"
| "messages _ = []"

lemma bridge_up_prefix: "prefix (frame_data (fst (bridge_up oks reads))) (read_chunks reads)"
  by (induction oks reads rule: bridge_up.induct) (auto split: list.split bool.split prod.split)

lemma bridge_up_all: "fst (bridge_up [] reads) = map Data (read_chunks reads)"
  by (induction "[] :: bool list" reads rule: bridge_up.induct) (auto split: prod.split)

lemma bridge_down_prefix: "prefix (fst (bridge_down oks fs)) (frame_data (messages fs))"
  by (induction oks fs rule: bridge_down.induct) (auto split: list.split bool.split prod.split)

lemma bridge_down_all: "fst (bridge_down [] fs) = frame_data (messages fs)"
  by (induction "[] :: bool list" fs rule: bridge_down.induct) (auto split: prod.split)

subsection \<open>The server's pump\<close>

inductive forward_run :: "PumpState \<Rightarrow> PumpState \<Rightarrow> bool" for start where
  Start: "forward_run start start"
| Step: "forward_run start s \<Longrightarrow> forward_step s s' \<Longrightarrow> forward_run start s'"

text \<open>Nothing is lost or reordered in either direction; the service's input has been shut down exactly when
  all the client sent has been written.\<close>

definition forward_inv :: "ChannelMessage list \<Rightarrow> byte list list \<Rightarrow> PumpState \<Rightarrow> bool" where
  "forward_inv frames out s \<longleftrightarrow>
     prefix (frame_data (to_client s)) out
     \<and> (pump_end s = None \<or> pump_end s = Some (Inr Drained) \<longrightarrow> frame_data (to_client s) @ out_left s = out)
     \<and> (out_done s \<longrightarrow> out_left s = []) \<and> (pump_end s = Some (Inr Drained) \<longrightarrow> out_done s)
     \<and> prefix (to_stdin s) (frame_data frames)
     \<and> (frames_done s \<or> to_stdin s @ frame_data (from_client s) = frame_data frames)
     \<and> (\<not> stdin_open s \<longrightarrow> frames_done s \<and> to_stdin s = frame_data frames)"

lemma forward_inv_check: "forward_inv frames out s \<Longrightarrow> forward_inv frames out (check_forward s)"
  by (auto simp: forward_inv_def check_forward_def)

lemma forward_inv_step: "forward_step s s' \<Longrightarrow> forward_inv frames out s \<Longrightarrow> forward_inv frames out s'"
proof (induction rule: forward_step.induct)
  case (Out s r)
  then have "forward_inv frames out (on_out r s)"
    by (cases "out_left s"; cases r) (auto simp: forward_inv_def on_out_def pump_send_def prefix_def)
  then show ?case by (rule forward_inv_check)
next
  case (Frame s wrote)
  have "forward_inv frames out (forward_frame wrote s)"
  proof (cases "from_client s")
    case Nil
    with Frame show ?thesis by (auto simp: forward_inv_def forward_frame_def)
  next
    case (Cons msg ms)
    with Frame show ?thesis by (cases msg) (auto simp: forward_inv_def forward_frame_def Let_def prefix_def)
  qed
  then show ?case by (rule forward_inv_check)
qed

lemma forward_inv_run: "forward_run (pump_start frames out err) s \<Longrightarrow> forward_inv frames out s"
proof (induction rule: forward_run.induct)
  case Start
  show ?case by (simp add: forward_inv_def pump_start_def)
qed (rule forward_inv_step)

interpretation fwd: relay "\<lambda>received out s. \<exists>err. forward_run (pump_start received out err) s"
proof
  fix received out s
  assume "\<exists>err. forward_run (pump_start received out err) s"
  then have "forward_inv received out s" using forward_inv_run by blast
  then show "prefix (frame_data (to_client s)) out" "prefix (to_stdin s) (frame_data received)"
    by (auto simp: forward_inv_def)
qed

lemma serve_forward_to:
  assumes "serve_forward allow lookup_host connect host port = ForwardTo addr"
  shows "allow \<and> is_loopback (fst addr) \<and> (\<exists>addrs. lookup_host host port = Some addrs \<and> addr \<in> set addrs) \<and> connect addr"
  using assms
  by (auto simp: serve_forward_def Let_def list_all_iff split: option.splits if_splits intro: nth_mem)

text \<open>What the server binds for a remote forward, and for whom.\<close>

lemma remote_listen_loopback:
  assumes "remote_listen_addr allow lookup_host can_bind bind port = Some addr"
  shows "allow \<and> port \<ge> 1024 \<and> is_loopback (fst addr)"
  using assms
  by (auto simp: remote_listen_addr_def remote_bind_allowed_def list_all_iff split: option.splits if_splits)

subsection \<open>Properties\<close>

text \<open>C22: a local forward connects loopback addresses only, and carries both directions unchanged.  A
  channel that the client opens for a connection to a listener of its own, and that the server accepts,
  joins the client's loopback listener to a loopback address of the server that the host asked for
  resolves to, with forwarding allowed.  However the streams are cut and the sides scheduled, the service
  reads a beginning of what the local program writes and the program a beginning of what the service
  writes; and they read all of it once everything sent has arrived, the server has drained the service
  and seen the end of the client's stream, and no write has failed.\<close>

theorem local_forward_end_to_end:
  assumes client: "parse_forward text = Inr spec"
      "forward_one http srv target authorization fits sends (fw_rhost spec) (fw_rport spec) w = (Inr op, w')"
      "bridge sent_ok reads wrote_ok arrived = (up, down, res)"
    and server: "serve_channel c op = DoForward host port" "serve_forward allow lookup_host connect host port = ForwardTo addr"
      "forward_run (pump_start received out []) s"
    and net: "prefix received up" "prefix (messages arrived) (to_client s)"
  shows "is_loopback (fw_bind spec) \<and> allow \<and> is_loopback (fst addr)
    \<and> (\<exists>addrs. lookup_host (fw_rhost spec) (fw_rport spec) = Some addrs \<and> addr \<in> set addrs)
    \<and> prefix (to_stdin s) (read_chunks reads) \<and> prefix down out
    \<and> (sent_ok = [] \<and> received = up \<and> \<not> stdin_open s \<longrightarrow> to_stdin s = read_chunks reads)
    \<and> (wrote_ok = [] \<and> messages arrived = to_client s \<and> pump_end s = Some (Inr Drained) \<longrightarrow> down = out)"
proof -
  have op: "op = Forward (fw_rhost spec) (fw_rport spec)"
    using client(2) by (auto simp: forward_one_def open_with_def split: prod.splits sum.splits if_splits)
  then have hp: "host = fw_rhost spec" "port = fw_rport spec" using server(1) by (auto split: if_splits)
  have up: "up = fst (bridge_up sent_ok reads)" and down: "down = fst (bridge_down wrote_ok arrived)"
    using client(3) by (auto simp: bridge_def split: prod.splits)
  have inv: "forward_inv received out s" by (rule forward_inv_run [OF server(3)])
  have reached: "\<exists>err. forward_run (pump_start received out err) s" using server(3) by blast
  have to: "prefix (to_stdin s) (read_chunks reads)"
    by (rule fwd.carries_in [OF reached net(1)]) (simp add: up bridge_up_prefix)
  have from_s: "prefix down out"
    unfolding down by (rule prefix_order.trans [OF bridge_down_prefix fwd.carries_out [OF reached net(2)]])
  have all_up: "to_stdin s = read_chunks reads" if "sent_ok = []" "received = up" "\<not> stdin_open s"
    using inv that by (simp add: forward_inv_def up bridge_up_all)
  have all_down: "down = out" if "wrote_ok = []" "messages arrived = to_client s" "pump_end s = Some (Inr Drained)"
    using inv that by (auto simp: forward_inv_def down bridge_down_all)
  show ?thesis
    using parse_forward_loopback [OF client(1)] serve_forward_to [OF server(2)] to from_s all_up all_down by (auto simp: hp)
qed

definition demo_target :: Target where
  "demo_target = \<lparr>tg_user = ''al'', tg_host = ''h'', tg_port = 4433, tg_path = ''/quish''\<rparr>"

definition demo_http :: HttpLib where
  "demo_http = \<lparr>uri_path_of = Some, header_value_ok = (\<lambda>_. True)\<rparr>"

definition demo_srv :: "unit Server" where
  "demo_srv = \<lparr>respond = (\<lambda>w _. (Some \<lparr>status = 200, challenge_header = None\<rparr>, w)), read_answer = (\<lambda>w _. (None, w))\<rparr>"

definition demo_forward_end :: PumpState where
  "demo_forward_end = \<lparr>from_client = [], out_left = [], err_left = [], stdin_open = False, out_done = True, err_done = False,
     frames_done = True, to_client = [Data [5]], to_stdin = [[1], [2]], to_signals = [], resizes = [], pump_end = Some (Inr Drained)\<rparr>"

lemma demo_forward_run: "forward_run (pump_start [Data [1], Data [2]] [[5]] []) demo_forward_end"
proof -
  let ?f = "\<lambda>s. check_forward (forward_frame True s)" and ?o = "\<lambda>s. check_forward (on_out SentOk s)"
  let ?s = "pump_start [Data [1], Data [2]] [[5]] []"
  note defs = pump_start_def forward_frame_def on_out_def check_forward_def pump_send_def Let_def
  have "forward_run ?s (?f ?s)" by (rule forward_run.Step [OF forward_run.Start forward_step.Frame]) (simp_all add: defs)
  then have "forward_run ?s (?o (?f ?s))" by (rule forward_run.Step [OF _ forward_step.Out]) (simp_all add: defs)
  then have "forward_run ?s (?f (?o (?f ?s)))" by (rule forward_run.Step [OF _ forward_step.Frame]) (simp_all add: defs)
  then have "forward_run ?s (?f (?f (?o (?f ?s))))" by (rule forward_run.Step [OF _ forward_step.Frame]) (simp_all add: defs)
  then have "forward_run ?s (?o (?f (?f (?o (?f ?s)))))" by (rule forward_run.Step [OF _ forward_step.Out]) (simp_all add: defs)
  moreover have "?o (?f (?f (?o (?f ?s)))) = demo_forward_end" by (simp add: defs demo_forward_end_def)
  ultimately show ?thesis by simp
qed

lemma local_forward_end_to_end_witness:
  "is_loopback LOCALHOST \<and> to_stdin demo_forward_end = [[1], [2]]
   \<and> bridge [] [Inr [1], Inr [2], Inr []] [] [Inr (Some (Data [5])), Inr None] = ([Data [1], Data [2]], [[5]], Ready ())"
proof -
  let ?l = "\<lambda>h (p :: u16). if h = ''db'' then Some [(V6 1, p)] else None"
  have p: "parse_forward ''8080:db:5432'' = Inr \<lparr>fw_bind = LOCALHOST, fw_lport = 8080, fw_rhost = ''db'', fw_rport = 5432\<rparr>"
    by code_simp
  have o: "forward_one demo_http demo_srv demo_target ''x'' (\<lambda>_. True) True ''db'' 5432 () = (Inr (Forward ''db'' 5432), ())"
    by code_simp
  have b: "bridge [] [Inr [1], Inr [2], Inr []] [] [Inr (Some (Data [5])), Inr None] = ([Data [1], Data [2]], [[5]], Ready ())"
    by code_simp
  have c: "serve_channel 1 (Forward ''db'' 5432) = DoForward ''db'' 5432" by code_simp
  have f: "serve_forward True ?l (\<lambda>_. True) ''db'' 5432 = ForwardTo (V6 1, 5432)" by code_simp
  from local_forward_end_to_end [OF p _ b c f demo_forward_run] o b show ?thesis by (simp add: demo_forward_end_def)
qed

end
