(* ===== verification/Copy.thy ===== *)
theory Copy
  imports Client_Cp Worker_Run Privdrop
begin

text \<open>
  Copying a file end to end: the client of \<^verbatim>\<open>quish-client/src/cp.rs\<close>, the channel of the worker, the
  monitor that spawns the helper, and the helper that reads or writes the file as the user.
\<close>

subsection \<open>Lemmas\<close>

lemma concat_chunks: "n > 0 \<Longrightarrow> concat (chunks n bs) = bs"
proof (induction n bs rule: chunks.induct)
  case (1 n bs)
  show ?case
  proof (cases "bs = []")
    case True
    then show ?thesis by (simp add: chunks.simps [of n "[]"])
  next
    case False
    with 1 show ?thesis by (simp add: chunks.simps [of n bs])
  qed
qed

lemma upload_payload: "concat (frame_data (upload_messages contents)) = contents"
  by (simp add: upload_messages_def concat_chunks UPLOAD_CHUNK_def)

text \<open>What the client makes of the frames of a download.\<close>

definition arrive :: "ChannelMessage list \<Rightarrow> frames" where
  "arrive msgs = map (\<lambda>m. Inr (Some m)) msgs @ [Inr None]"

lemma download_arrive:
  "length got + length (concat cs) \<le> quota \<Longrightarrow>
     download_loop quota (arrive (map Data cs @ [ExitStatus code])) got = Ready (Inr (Some code), got @ concat cs)"
  by (induction cs arbitrary: got) (simp_all add: arrive_def)

text \<open>The helper's modes for the two directions.\<close>

lemma helper_reads:
  assumes "handed_mode (SpawnTransfer c path) e" "run_session_helper unb64 k e stdin cred = (acts, res)"
  shows "(\<exists>cred' contents n. k_open_read k cred' path = Some (Some contents) \<and> acts = [SendFile cred' path (take n contents)]
      \<and> (res = Inr () \<longrightarrow> take n contents = contents))
    \<or> acts = [] \<and> res \<noteq> Inr ()"
proof (cases "as_user k e cred")
  case (Inl err)
  then show ?thesis using assms by (auto simp: run_session_helper_def run_transfer_helper_def)
next
  case (Inr cred')
  show ?thesis
  proof (cases "k_open_read k cred' path")
    case None
    then show ?thesis using assms Inr by (auto simp: run_session_helper_def run_transfer_helper_def)
  next
    case (Some f)
    show ?thesis
    proof (cases f)
      case None
      then show ?thesis using assms Inr Some by (auto simp: run_session_helper_def run_transfer_helper_def)
    next
      case (Some contents)
      note f = Some \<open>k_open_read k cred' path = Some f\<close>
      show ?thesis
      proof (cases "k_copy_fails k contents")
        case None
        then have "acts = [SendFile cred' path (take (length contents) contents)]" "res = Inr ()"
          using assms Inr f by (auto simp: run_session_helper_def run_transfer_helper_def)
        then show ?thesis using f by (intro disjI1 exI [of _ cred'] exI [of _ contents] exI [of _ "length contents"]) simp
      next
        case (Some n)
        then have "acts = [SendFile cred' path (take n contents)]" "res \<noteq> Inr ()"
          using assms Inr f by (auto simp: run_session_helper_def run_transfer_helper_def)
        then show ?thesis using f by (intro disjI1 exI [of _ cred'] exI [of _ contents] exI [of _ n]) simp
      qed
    qed
  qed
qed

lemma helper_writes:
  assumes "handed_mode (SpawnTransferWrite c path mode) e" "run_session_helper unb64 k e stdin cred = (acts, res)"
  shows "(\<exists>cred' bs. acts = [WriteFileAct cred' path mode bs] \<and> prefix bs stdin \<and> (res = Inr () \<longrightarrow> bs = stdin))
    \<or> acts = [] \<and> res \<noteq> Inr ()"
proof -
  have "run_transfer_write_helper k e cred stdin path = (acts, res)"
    using assms by (simp add: run_session_helper_def)
  moreover have "env_u32 e ENV_SESS_TRANSFER_MODE = Inr mode' \<Longrightarrow> mode' = mode" for mode'
    using assms(1) by (auto simp: env_u32_def env_get_def)
  ultimately show ?thesis
    by (auto simp: run_transfer_write_helper_def split: option.splits sum.splits prod.splits if_splits simp: take_is_prefix)
qed

text \<open>A pipe takes a beginning of what is written.\<close>

lemma write_loop_prefix: "prefix (write_loop room cs) (concat cs)"
proof (induction room cs rule: write_loop.induct)
  case (2 room bytes rest)
  then show ?case using take_is_prefix [of room bytes] by (auto intro: prefix_prefix)
qed simp

lemma handed_acts_as:
  assumes "posix_ids k" "handed_user pw e" "run_session_helper unb64 k e stdin cred = (acts, res)" "act \<in> set acts"
  shows "has_ids k (pw_name pw) (pw_gid pw) (pw_uid pw) (act_cred act)"
proof (rule helper_acts_as [OF assms(1)])
  show "act \<in> set (fst (run_session_helper unb64 k e stdin cred))" using assms(3,4) by simp
qed (use assms(2) in \<open>simp_all add: handed_user_def\<close>)

fun sent_bytes :: "helper_act list \<Rightarrow> byte list" where
  "sent_bytes [SendFile _ _ bs] = bs"
| "sent_bytes _ = []"

subsection \<open>Properties\<close>

text \<open>C20: a file copied to the server arrives whole or is reported as failed.  Whatever the helper that the
  monitor started for the upload writes, it writes as the user of the connection, to the path given, a
  beginning of the local contents.  The client ends with status zero exactly when that helper succeeded,
  and then the contents are written to their end; otherwise with status one.  The permission bits of the
  local file are what the helper creates the file with; the process's mask takes bits away, and a file
  that exists keeps its own.  The helper may stop reading early (\<open>room\<close> is what it reads), but one that
  succeeds has read its input to the end; the client stays on the channel until the status is sent.\<close>

theorem upload_end_to_end:
  assumes client: "meta local = Some (RegFile mode contents)" "upload_one meta local remote = Inr (op, msgs)"
    and worker: "serve_channel c op = RunTransferWrite req"
    and monitor: "handle e st req = Ready (st', resp, fds, effs)" "Spawn child \<in> set effs"
    and helper: "\<forall>v \<in> set MODE_VARS. inherited v = None" "posix_ids k" "res = Inr () \<longrightarrow> length contents \<le> room"
      "run_transfer_write sid room msgs (helper_status (acts, res)) SentOk = (stdin, frames, Inr (), reqs)"
      "run_session_helper unb64 k (inherited ++ cmd_env (child_cmd child)) stdin cred = (acts, res)"
  shows "\<exists>u pw. users st c = Some u \<and> getpwnam e u = Some pw
    \<and> (\<forall>act \<in> set acts. \<exists>cred' bs. act = WriteFileAct cred' remote (perm_bits mode) bs \<and> prefix bs contents
         \<and> has_ids k (pw_name pw) (pw_gid pw) (pw_uid pw) cred')
    \<and> (if res = Inr () then await_status (arrive frames) = Ready (Inr (Some 0))
           \<and> (\<exists>cred'. acts = [WriteFileAct cred' remote (perm_bits mode) contents])
       else await_status (arrive frames) = Ready (Inr (Some 1)))"
proof -
  let ?e = "inherited ++ cmd_env (child_cmd child)"
  have op: "op = WriteFile remote (perm_bits mode)" "msgs = upload_messages contents"
    using client by (auto simp: upload_one_def)
  then have req: "req = SpawnTransferWrite c remote (perm_bits mode)"
    using worker by (auto split: if_splits)
  have stdin: "stdin = write_loop room (frame_data msgs)" and frames: "frames = [ExitStatus (helper_status (acts, res))]"
    using helper(4) by (auto simp: run_transfer_write_def send_status_def)
  have part: "prefix stdin contents"
    using write_loop_prefix [of room "frame_data msgs"] by (simp add: stdin op upload_payload)
  have full: "stdin = contents" if "res = Inr ()"
    using that helper(3) write_loop_fits [of "frame_data msgs" room] unfolding stdin by (simp add: op upload_payload)
  from Spawn_only_by_spawn [OF monitor] obtain user pam where sp: "is_spawn e st c user child pam (st', resp, fds, effs)"
    by (auto simp: req)
  then obtain pw where u: "users st c = Some user" and pw: "getpwnam e user = Some pw"
    by (auto simp: is_spawn_def spawned_for_def)
  have handed: "handed_user pw ?e" "handed_mode req ?e"
    using spawn_hands_over [OF monitor helper(1) _ u pw] by (simp_all add: req)
  note wr = helper_writes [OF handed(2) [unfolded req] helper(5)]
  have "\<exists>cred' bs. act = WriteFileAct cred' remote (perm_bits mode) bs \<and> prefix bs contents \<and> has_ids k (pw_name pw) (pw_gid pw) (pw_uid pw) cred'"
    if "act \<in> set acts" for act
  proof -
    from wr that obtain cred' bs where "act = WriteFileAct cred' remote (perm_bits mode) bs" "prefix bs stdin" by auto
    with handed_acts_as [OF helper(2) handed(1) helper(5) that] part show ?thesis using prefix_order.trans by fastforce
  qed
  moreover have "\<exists>cred'. acts = [WriteFileAct cred' remote (perm_bits mode) contents]" if "res = Inr ()"
    using wr that full [OF that] by auto
  moreover have "await_status (arrive frames) = Ready (Inr (Some (if res = Inr () then 0 else 1)))"
    by (cases res) (simp_all add: frames arrive_def helper_status_def)
  ultimately show ?thesis using u pw by (intro exI [of _ user] exI [of _ pw]) simp
qed

text \<open>The user of the monitor's example run, on a kernel that opens every file.\<close>

definition copy_kernel :: Kernel where
  "copy_kernel = demo_kernel\<lparr>k_open_write := (\<lambda>c p m. Some True), k_open_read := (\<lambda>c p. Some (Some [1, 2, 3]))\<rparr>"

definition copy_pw :: PwUser where
  "copy_pw = \<lparr>pw_name = ''al'', pw_uid = 1000, pw_gid = 100, pw_dir = ''/h'', pw_shell = []\<rparr>"

definition upload_child :: Child where
  "upload_child = \<lparr>pid = 7, child_cmd = set_stdio Piped Piped Inherit (set_env ENV_SESS_TRANSFER_MODE (show_nat (unat (0x1A4 :: u32)))
     (set_env ENV_SESS_TRANSFER_WRITE_PATH ''f'' (session_command demo_env copy_pw)))\<rparr>"

definition download_child :: Child where
  "download_child = \<lparr>pid = 7, child_cmd = set_stdio Null Piped Inherit
     (set_env ENV_SESS_TRANSFER_PATH ''f'' (session_command demo_env copy_pw))\<rparr>"

definition copy_cred :: Cred where
  "copy_cred = root_cred\<lparr>cr_uid := 1000, cr_gid := 100, cr_groups := [100, 4], cr_cwd := ''/h''\<rparr>"

lemma copy_kernel_posix: "posix_ids copy_kernel"
  using demo_kernel_posix by (simp add: posix_ids_def copy_kernel_def)

lemma demo_spawns:
  "\<exists>st' fds. handle demo_env demo_authed (SpawnTransferWrite 1 ''f'' 0x1A4) = Ready (st', Spawned 1, fds, [Spawn upload_child])"
  "\<exists>st' fds. handle demo_env demo_authed (SpawnTransfer 1 ''f'') = Ready (st', Spawned 1, fds, [Spawn download_child])"
  by (simp_all add: spawn_plain_def demo_authed_def State_default_def spawn_transfer_write_def spawn_transfer_def lookup_user_def
      ok_or_def spawn_def demo_env_def Let_def take_pipe_def alloc_def upload_child_def download_child_def copy_pw_def
      set_env_def set_stdio_def session_command_def)

lemma upload_end_to_end_witness:
  "await_status (arrive [ExitStatus 0]) = Ready (Inr (Some 0))
   \<and> (\<exists>u pw. users demo_authed 1 = Some u \<and> getpwnam demo_env u = Some pw
      \<and> (\<exists>cred'. [WriteFileAct copy_cred ''f'' 0x1A4 [5, 6]] = [WriteFileAct cred' ''f'' (perm_bits 0x81A4) [5, 6]]))"
proof -
  let ?meta = "\<lambda>p. Some (RegFile 0x81A4 [5, 6])"
  have up: "upload_one ?meta ''l'' ''f'' = Inr (WriteFile ''f'' 0x1A4, [Data [5, 6]])" by code_simp
  have sc: "serve_channel 1 (WriteFile ''f'' 0x1A4) = RunTransferWrite (SpawnTransferWrite 1 ''f'' 0x1A4)" by code_simp
  have tw: "run_transfer_write 1 9 [Data [5, 6]] (helper_status ([WriteFileAct copy_cred ''f'' 0x1A4 [5, 6]], Inr ())) SentOk
      = ([5, 6], [ExitStatus 0], Inr (), [Reap 1])" by code_simp
  have h: "run_session_helper (\<lambda>s. Inr (as_bytes s) :: unit + byte list) copy_kernel (Map.empty ++ cmd_env (child_cmd upload_child)) [5, 6] root_cred
      = ([WriteFileAct copy_cred ''f'' 0x1A4 [5, 6]], Inr ())" by code_simp
  from demo_spawns(1) obtain st' fds where
    m: "handle demo_env demo_authed (SpawnTransferWrite 1 ''f'' 0x1A4) = Ready (st', Spawned 1, fds, [Spawn upload_child])" by blast
  from upload_end_to_end [OF refl up sc m _ _ copy_kernel_posix _ tw h] show ?thesis by auto
qed

text \<open>C21: a file copied from the server arrives exactly as the user of the connection can read it
  there, or the local destination stays as it was and the status says so, however the contents are cut
  into chunks on the way.\<close>

theorem download_end_to_end:
  assumes worker: "serve_channel c (ReadFile remote) = RunTransfer req"
    and monitor: "handle e st req = Ready (st', resp, fds, effs)" "Spawn child \<in> set effs"
    and helper: "\<forall>v \<in> set MODE_VARS. inherited v = None" "posix_ids k"
      "run_session_helper unb64 k (inherited ++ cmd_env (child_cmd child)) [] cred = (acts, res)"
    and pipe: "concat cs = sent_bytes acts" "list_all (\<lambda>x. x \<noteq> []) cs"
      "run_transfer sid (map Inr cs) [] (helper_status (acts, res)) = (frames, Inr (), reqs)"
    and client: "length (sent_bytes acts) \<le> quota" "files (part_path final) = None"
  shows "\<exists>u pw. users st c = Some u \<and> getpwnam e u = Some pw
    \<and> (if res = Inr () then \<exists>cred' contents. has_ids k (pw_name pw) (pw_gid pw) (pw_uid pw) cred'
           \<and> k_open_read k cred' remote = Some (Some contents)
           \<and> download_one True quota True (arrive frames) final files = Ready (Inr 0, files(final \<mapsto> contents))
       else download_one True quota True (arrive frames) final files = Ready (Inr 1, files))"
proof -
  let ?e = "inherited ++ cmd_env (child_cmd child)"
  have req: "req = SpawnTransfer c remote" using worker by (auto split: if_splits)
  from Spawn_only_by_spawn [OF monitor] obtain user pam where sp: "is_spawn e st c user child pam (st', resp, fds, effs)"
    by (auto simp: req)
  then obtain pw where u: "users st c = Some user" and pw: "getpwnam e user = Some pw"
    by (auto simp: is_spawn_def spawned_for_def)
  have handed: "handed_user pw ?e" "handed_mode req ?e"
    using spawn_hands_over [OF monitor helper(1) _ u pw] by (simp_all add: req)
  have frames: "frames = map Data cs @ [ExitStatus (helper_status (acts, res))]"
    using pipe(3) run_transfer_ok [OF pipe(2)] by simp
  have loop: "download_loop quota (arrive frames) [] = Ready (Inr (Some (helper_status (acts, res))), sent_bytes acts)"
    using download_arrive [of "[]" cs quota] client(1) by (simp add: frames pipe(1))
  have clean: "files(part_path final := None) = files" using client(2) by (simp add: fun_upd_idem)
  show ?thesis
  proof (cases "res = Inr ()")
    case True
    with helper_reads [OF handed(2) [unfolded req] helper(3)] obtain cred' contents where
      acts: "acts = [SendFile cred' remote contents]" and read: "k_open_read k cred' remote = Some (Some contents)"
      by auto
    have "has_ids k (pw_name pw) (pw_gid pw) (pw_uid pw) (act_cred (SendFile cred' remote contents))"
      by (rule handed_acts_as [OF helper(2) handed(1) helper(3)]) (simp add: acts)
    moreover have "files(final \<mapsto> contents, part_path final := None) = files(final \<mapsto> contents)"
      using clean part_path_differs [of final] by (metis fun_upd_twist)
    then have "download_one True quota True (arrive frames) final files = Ready (Inr 0, files(final \<mapsto> contents))"
      using loop True clean by (simp add: download_one_def helper_status_def acts)
    ultimately show ?thesis using u pw read True by auto
  next
    case False
    then have "helper_status (acts, res) = 1" by (cases res) (auto simp: helper_status_def)
    then have "download_one True quota True (arrive frames) final files = Ready (Inr 1, files)"
      using loop clean by (simp add: download_one_def)
    then show ?thesis using u pw False by simp
  qed
qed

lemma download_end_to_end_witness:
  "\<exists>u pw. users demo_authed 1 = Some u \<and> getpwnam demo_env u = Some pw
    \<and> (\<exists>cred' contents. has_ids copy_kernel (pw_name pw) (pw_gid pw) (pw_uid pw) cred'
       \<and> k_open_read copy_kernel cred' ''f'' = Some (Some contents)
       \<and> download_one True 9 True (arrive [Data [1], Data [2, 3], ExitStatus 0]) ''/tmp/x'' Map.empty = Ready (Inr 0, [''/tmp/x'' \<mapsto> contents]))"
proof -
  have sc: "serve_channel 1 (ReadFile ''f'') = RunTransfer (SpawnTransfer 1 ''f'')" by code_simp
  have h: "run_session_helper (\<lambda>s. Inr (as_bytes s) :: unit + byte list) copy_kernel (Map.empty ++ cmd_env (child_cmd download_child)) [] root_cred
      = ([SendFile copy_cred ''f'' [1, 2, 3]], Inr ())" by code_simp
  have p: "run_transfer 1 (map Inr [[1], [2, 3]]) [] (helper_status ([SendFile copy_cred ''f'' [1, 2, 3]], Inr ()))
      = ([Data [1], Data [2, 3], ExitStatus 0], Inr (), [Reap 1])" by code_simp
  from demo_spawns(2) obtain st' fds where
    m: "handle demo_env demo_authed (SpawnTransfer 1 ''f'') = Ready (st', Spawned 1, fds, [Spawn download_child])" by blast
  from download_end_to_end [OF sc m _ _ copy_kernel_posix h _ _ p, of 9 Map.empty "''/tmp/x''"] show ?thesis by simp
qed

end
