(* ===== verification/Known_Hosts.thy ===== *)
theory Known_Hosts
  imports Proto Rust_Utf8
begin

text \<open>
  Server identity on the client, \<^verbatim>\<open>quish-client/src/connect.rs\<close>: the \<^verbatim>\<open>known_hosts\<close> file, the
  trust-on-first-use verifier, the confirmation dialogue and the \<^verbatim>\<open>known-hosts\<close> subcommands.

  The file is its bytes and whether it may be read.  The web PKI verifier's answer, the lines typed
  at the terminal and how much of a write succeeded are arguments.
\<close>

subsection \<open>The file\<close>

record KnownHosts =
  kh_contents :: "string option"
  kh_readable :: bool

datatype read_error = NotFound | OtherError

definition read_to_string :: "KnownHosts \<Rightarrow> read_error + string" where
  "read_to_string k = (case kh_contents k of
       None \<Rightarrow> Inl NotFound
     | Some s \<Rightarrow> if kh_readable k \<and> utf8_valid (as_bytes s) then Inr s else Inl OtherError)"

fun find_map :: "('a \<Rightarrow> 'b option) \<Rightarrow> 'a list \<Rightarrow> 'b option" where
  "find_map f [] = None"
| "find_map f (x # xs) = (case f x of Some y \<Rightarrow> Some y | None \<Rightarrow> find_map f xs)"

definition pin_of_line :: "string \<Rightarrow> string \<Rightarrow> string option" where
  "pin_of_line host line =
     Option.bind (split_once (CHR '' '') line) (\<lambda>(h, fp). if h = host then Some (trim fp) else None)"

definition lookup :: "KnownHosts \<Rightarrow> string \<Rightarrow> string option" where
  "lookup k host = Option.bind (res_ok (read_to_string k)) (\<lambda>contents. find_map (pin_of_line host) (lines contents))"

text \<open>\<open>wrote\<close>: \<^const>\<open>None\<close> when the file cannot be opened, else how many bytes get written before
  an error; a full line is written without one.\<close>

definition pin_line :: "string \<Rightarrow> string \<Rightarrow> string" where
  "pin_line host fp = host @ '' '' @ fp @ [CHR 0x0A]"

definition pin :: "nat option \<Rightarrow> KnownHosts \<Rightarrow> string \<Rightarrow> string \<Rightarrow> bool \<times> KnownHosts" where
  "pin wrote k host fp = (case wrote of
       None \<Rightarrow> (False, k)
     | Some n \<Rightarrow>
         (length (pin_line host fp) \<le> n,
          k\<lparr>kh_contents := Some ((case kh_contents k of Some s \<Rightarrow> s | None \<Rightarrow> []) @ take n (pin_line host fp))\<rparr>))"

subsection \<open>The dialogue\<close>

definition to_ascii_lowercase :: "string \<Rightarrow> string" where
  "to_ascii_lowercase = map (\<lambda>c. let n = (of_char c :: nat) in if 65 \<le> n \<and> n \<le> 90 then char_of (n + 32) else c)"

text \<open>The lines typed; \<^const>\<open>None\<close> is a read error and the empty line the end of the input.\<close>

fun decide :: "string option list \<Rightarrow> bool" where
  "decide [] = False"
| "decide (None # _) = False"
| "decide (Some line # rest) =
     (if line = [] then False
      else let answer = to_ascii_lowercase (trim line) in
        if answer = ''yes'' \<or> answer = ''y'' then True
        else if answer = ''no'' \<or> answer = ''n'' then False
        else decide rest)"

text \<open>\<^const>\<open>None\<close>: there is no terminal.\<close>

definition prompt_accept :: "string option list option \<Rightarrow> bool" where
  "prompt_accept tty = (case tty of None \<Rightarrow> False | Some typed \<Rightarrow> decide typed)"

subsection \<open>The verifier\<close>

datatype cert_error = HostKeyMismatch | NotAccepted | PinFailed

definition verify_server_cert ::
  "(byte list \<Rightarrow> byte list) \<Rightarrow> bool \<Rightarrow> string option list option \<Rightarrow> nat option \<Rightarrow> string \<Rightarrow> byte list \<Rightarrow> KnownHosts \<Rightarrow>
     (cert_error + unit) \<times> KnownHosts" where
  "verify_server_cert sha256 webpki_ok tty wrote host_key end_entity k =
     (if webpki_ok then (Inr (), k)
      else let fp = cert_fingerprint sha256 end_entity in
        case lookup k host_key of
          Some pinned \<Rightarrow> if pinned = fp then (Inr (), k) else (Inl HostKeyMismatch, k)
        | None \<Rightarrow>
            if \<not> prompt_accept tty then (Inl NotAccepted, k)
            else (case pin wrote k host_key fp of (ok, k') \<Rightarrow>
                    (if ok then Inr () else Inl PinFailed, k')))"

subsection \<open>The subcommands\<close>

definition is_match :: "string \<Rightarrow> string \<Rightarrow> bool" where
  "is_match host line = (case split_once (CHR '' '') line of Some (h, _) \<Rightarrow> h = host | None \<Rightarrow> False)"

definition remove_host_lines :: "string \<Rightarrow> string \<Rightarrow> string \<times> nat" where
  "remove_host_lines contents host =
     (let kept = filter (\<lambda>l. \<not> is_match host l) (lines contents);
          removed = length (filter (is_match host) (lines contents));
          body = intercalate [CHR 0x0A] kept
      in (if body \<noteq> [] then body @ [CHR 0x0A] else body, removed))"

text \<open>\<open>replaced\<close>: writing the temporary file and renaming it succeed.\<close>

definition remove_known_host :: "bool \<Rightarrow> KnownHosts \<Rightarrow> string \<Rightarrow> bool \<times> KnownHosts" where
  "remove_known_host replaced k host = (case read_to_string k of
       Inl NotFound \<Rightarrow> (True, k)
     | Inl OtherError \<Rightarrow> (False, k)
     | Inr contents \<Rightarrow>
         (case remove_host_lines contents host of (body, removed) \<Rightarrow>
            if removed = 0 then (True, k)
            else if replaced then (True, k\<lparr>kh_contents := Some body\<rparr>)
            else (False, k)))"

definition list_known_hosts :: "KnownHosts \<Rightarrow> read_error + string list" where
  "list_known_hosts k = (case read_to_string k of
       Inr contents \<Rightarrow> Inr (filter (\<lambda>l. trim l \<noteq> []) (lines contents))
     | Inl NotFound \<Rightarrow> Inr []
     | Inl OtherError \<Rightarrow> Inl OtherError)"

subsection \<open>Runs of the client\<close>

text \<open>A connection attempt with all it depends on, or a removal.\<close>

datatype kh_event =
    Connect bool "string option list option" "nat option" string "byte list"
  | Remove bool string

fun kh_step :: "(byte list \<Rightarrow> byte list) \<Rightarrow> kh_event \<Rightarrow> KnownHosts \<Rightarrow> KnownHosts" where
  "kh_step sha256 (Connect webpki_ok tty wrote host_key cert) k =
     snd (verify_server_cert sha256 webpki_ok tty wrote host_key cert k)"
| "kh_step sha256 (Remove replaced host) k = snd (remove_known_host replaced k host)"

text \<open>Events on printable host keys that do not remove \<open>host\<close>.\<close>

fun spares :: "string \<Rightarrow> kh_event \<Rightarrow> bool" where
  "spares host (Connect _ _ _ host_key _) \<longleftrightarrow> list_all graphic host_key"
| "spares host (Remove _ host') \<longleftrightarrow> host' \<noteq> host"

subsection \<open>The contract of a store of pins\<close>

locale pin_store =
  fixes pinned :: "'s \<Rightarrow> string \<Rightarrow> string option"
    and run_event :: "'e \<Rightarrow> 's \<Rightarrow> 's"
    and leaves :: "string \<Rightarrow> 'e \<Rightarrow> bool"
    and durable :: "'s \<Rightarrow> string \<Rightarrow> string \<Rightarrow> bool"
  assumes durable_pinned: "durable s h fp \<Longrightarrow> pinned s h = Some fp"
    and durable_event: "durable s h fp \<Longrightarrow> leaves h e \<Longrightarrow> durable (run_event e s) h fp"
begin

lemma durable_run: "durable s h fp \<Longrightarrow> list_all (leaves h) es \<Longrightarrow> durable (fold run_event es s) h fp"
  by (induction es arbitrary: s) (simp_all add: durable_event)

lemma pinned_run: "durable s h fp \<Longrightarrow> list_all (leaves h) es \<Longrightarrow> pinned (fold run_event es s) h = Some fp"
  by (rule durable_pinned [OF durable_run])

end

subsection \<open>Lemmas\<close>

lemma find_map_append:
  "find_map f (xs @ ys) = (case find_map f xs of Some y \<Rightarrow> Some y | None \<Rightarrow> find_map f ys)"
  by (induction xs) (simp_all split: option.splits)

lemma find_map_cong_map: "(\<And>x. x \<in> set xs \<Longrightarrow> f (g x) = f x) \<Longrightarrow> find_map f (map g xs) = find_map f xs"
  by (induction xs) (auto split: option.splits)

lemma find_map_filter: "(\<And>x. x \<in> set xs \<Longrightarrow> \<not> P x \<Longrightarrow> f x = None) \<Longrightarrow> find_map f (filter P xs) = find_map f xs"
  by (induction xs) (auto split: option.splits)

lemma find_map_Some: "find_map f xs = Some y \<Longrightarrow> \<exists>x \<in> set xs. f x = Some y"
  by (induction xs) (auto split: option.splits)

lemma hex_byte_graphic: "list_all graphic (hex_byte b)"
proof -
  have "unat b < 256" using unsigned_less [of b] by simp
  moreover have "graphic (hex_digit n)" if "n < 16" for n
    using that by (auto simp: graphic_def hex_digit_def)
  ultimately show ?thesis by (simp add: hex_byte_def less_mult_imp_div_less)
qed

lemma cert_fingerprint_graphic: "list_all graphic (cert_fingerprint sha256 cert)"
proof -
  have "list_all graphic s \<Longrightarrow> list_all graphic (foldl (\<lambda>s b. s @ hex_byte b) s bs)" for s bs
    by (induction bs arbitrary: s) (simp_all add: hex_byte_graphic)
  then show ?thesis by (simp add: cert_fingerprint_def)
qed

lemma graphic_ascii: "graphic c \<or> c = CHR '' '' \<or> c = CHR 0x0A \<Longrightarrow> char_byte c < 0x80"
  by (auto simp: graphic_def char_byte_def word_less_nat_alt unsigned_of_nat take_bit_nat_eq_self)

lemma graphic_simps [simp]: "\<not> graphic (CHR '' '')" "\<not> graphic (CHR 0x0A)" "\<not> graphic (CHR 0x0D)"
  by (simp_all add: graphic_def)

lemma pin_line_utf8: "list_all graphic host \<Longrightarrow> list_all graphic fp \<Longrightarrow> utf8_valid (as_bytes (take n (pin_line host fp)))"
proof (rule utf8_valid_ascii)
  assume "list_all graphic host" "list_all graphic fp"
  then have "\<forall>c \<in> set (pin_line host fp). graphic c \<or> c = CHR '' '' \<or> c = CHR 0x0A"
    by (auto simp: pin_line_def list_all_iff)
  then show "list_all (\<lambda>b. b < 0x80) (as_bytes (take n (pin_line host fp)))"
    using graphic_ascii by (fastforce simp: list_all_iff as_bytes_def dest: in_set_takeD)
qed

lemma lines_pin_line:
  assumes "list_all graphic host" "list_all graphic fp"
  shows "lines (pin_line host fp) = [host @ '' '' @ fp]"
proof -
  have "CHR 0x0A \<notin> set (host @ '' '' @ fp)" using assms by (auto simp: list_all_iff)
  moreover have "last (host @ '' '' @ fp) \<noteq> CHR 0x0D" using assms(2) by (cases fp rule: rev_cases) auto
  ultimately show ?thesis
    using lines_Cons [of "host @ '' '' @ fp" "[]"] by (simp add: pin_line_def strip_cr_def)
qed

lemma pin_of_line_own: "list_all graphic host \<Longrightarrow> list_all graphic fp \<Longrightarrow> pin_of_line host (host @ '' '' @ fp) = Some fp"
  using split_once_append [of "CHR '' ''" host fp] trim_graphic [of fp] by (force simp: pin_of_line_def list_all_iff)

lemma pin_of_line_match: "is_match host' l \<Longrightarrow> host' \<noteq> host \<Longrightarrow> pin_of_line host l = None"
  by (auto simp: is_match_def pin_of_line_def split: option.splits)

lemma pin_of_line_strip_cr: "pin_of_line host (strip_cr l) = pin_of_line host l"
proof (cases "l \<noteq> [] \<and> last l = CHR 0x0D")
  case True
  then obtain l' where l: "l = l' @ [CHR 0x0D]" by (metis append_butlast_last_id)
  show ?thesis
  proof (cases "split_once (CHR '' '') l'")
    case None
    then have "split_once (CHR '' '') (l' @ [CHR 0x0D]) = None" by (simp add: split_once_None)
    with None show ?thesis by (simp add: l strip_cr_def pin_of_line_def)
  next
    case (Some p)
    obtain h fp where p: "p = (h, fp)" by (cases p)
    with Some have "l' = h @ CHR '' '' # fp" "CHR '' '' \<notin> set h" by (simp_all add: split_once_SomeD)
    then show ?thesis
      using split_once_append [of "CHR '' ''" h fp] split_once_append [of "CHR '' ''" h "fp @ [CHR 0x0D]"]
      by (simp add: l strip_cr_def pin_of_line_def trim_snoc_cr butlast_append)
  qed
qed (auto simp: strip_cr_def)

text \<open>A pin on a complete line of a readable file.\<close>

definition durable_pin :: "KnownHosts \<Rightarrow> string \<Rightarrow> string \<Rightarrow> bool" where
  "durable_pin k h fp \<longleftrightarrow> kh_readable k \<and> (\<exists>a post. kh_contents k = Some (a @ post)
     \<and> utf8_valid (as_bytes (a @ post)) \<and> ends_line a \<and> find_map (pin_of_line h) (lines a) = Some fp)"

lemma durable_pin_lookup: "durable_pin k h fp \<Longrightarrow> lookup k h = Some fp"
  by (auto simp: durable_pin_def lookup_def read_to_string_def res_ok_def lines_append find_map_append)

lemma durable_pin_pin:
  assumes d: "durable_pin k h fp" and g: "list_all graphic h'" "list_all graphic fp'"
  shows "durable_pin (snd (pin wrote k h' fp')) h fp"
proof (cases wrote)
  case (Some n)
  from d obtain a post where k: "kh_contents k = Some (a @ post)" "utf8_valid (as_bytes (a @ post))"
    "ends_line a" "find_map (pin_of_line h) (lines a) = Some fp" "kh_readable k" by (auto simp: durable_pin_def)
  have "utf8_valid (as_bytes (a @ post @ take n (pin_line h' fp')))"
    using k(2) pin_line_utf8 [OF g] utf8_valid_append [OF k(2)] by (simp only: as_bytes_append append_assoc)
  then show ?thesis
    unfolding durable_pin_def using k Some
    by (intro conjI exI [of _ a] exI [of _ "post @ take n (pin_line h' fp')"]) (simp_all add: pin_def)
qed (use d in \<open>simp add: pin_def\<close>)

lemma intercalate_Nil: "intercalate [c] ls = [] \<Longrightarrow> ls = [] \<or> ls = [[]]"
  by (induction ls rule: induct_list012) auto

lemma lines_remove_host_lines:
  "\<exists>ls. lines (fst (remove_host_lines s host)) = map strip_cr ls
     \<and> (\<forall>f. f [] = None \<longrightarrow> find_map f ls = find_map f (filter (\<lambda>l. \<not> is_match host l) (lines s)))"
proof -
  let ?kept = "filter (\<lambda>l. \<not> is_match host l) (lines s)"
  show ?thesis
  proof (cases "intercalate [CHR 0x0A] ?kept = []")
    case True
    then have "?kept = [] \<or> ?kept = [[]]" by (rule intercalate_Nil)
    then show ?thesis using True by (intro exI [of _ "[]"]) (auto simp: remove_host_lines_def Let_def)
  next
    case False
    then have "lines (fst (remove_host_lines s host)) = map strip_cr ?kept"
      using lines_join [of ?kept] lines_no_lf [of _ s] by (fastforce simp: remove_host_lines_def Let_def)
    then show ?thesis by blast
  qed
qed

lemma remove_host_lines_shape:
  assumes "utf8_valid (as_bytes s)"
  shows "ends_line (fst (remove_host_lines s host))" "utf8_valid (as_bytes (fst (remove_host_lines s host)))"
proof -
  let ?kept = "filter (\<lambda>l. \<not> is_match host l) (lines s)"
  show "ends_line (fst (remove_host_lines s host))"
    by (simp add: remove_host_lines_def Let_def ends_line_def)
  have "utf8_valid (as_bytes (intercalate [CHR 0x0A] ?kept))"
    by (rule intercalate_utf8) (use lines_utf8 [OF assms] in auto)
  moreover have "utf8_valid (as_bytes [CHR 0x0A])" "utf8_valid (as_bytes [])" by code_simp+
  ultimately show "utf8_valid (as_bytes (fst (remove_host_lines s host)))"
    by (simp add: remove_host_lines_def Let_def utf8_valid_append)
qed

text \<open>Removing one host forgets it and leaves the others.\<close>

lemma find_map_remove_host_lines:
  "find_map (pin_of_line h) (lines (fst (remove_host_lines s host)))
     = (if h = host then None else find_map (pin_of_line h) (lines s))"
proof -
  obtain ls where ls: "lines (fst (remove_host_lines s host)) = map strip_cr ls"
    "find_map (pin_of_line h) ls = find_map (pin_of_line h) (filter (\<lambda>l. \<not> is_match host l) (lines s))"
  proof -
    have "pin_of_line h [] = None" by (simp add: pin_of_line_def split_once_def)
    then show thesis using that lines_remove_host_lines [of s host] by blast
  qed
  have "find_map (pin_of_line h) (filter (\<lambda>l. \<not> is_match host l) (lines s)) = None" if "h = host"
  proof (rule ccontr)
    assume "find_map (pin_of_line h) (filter (\<lambda>l. \<not> is_match host l) (lines s)) \<noteq> None"
    then obtain l fp where "pin_of_line h l = Some fp" "\<not> is_match host l" by (auto dest!: find_map_Some)
    then show False using that by (auto simp: pin_of_line_def is_match_def split: option.splits if_splits prod.splits Option.bind_splits)
  qed
  moreover have "find_map (pin_of_line h) (filter (\<lambda>l. \<not> is_match host l) (lines s)) = find_map (pin_of_line h) (lines s)"
    if "h \<noteq> host"
    by (rule find_map_filter) (use that pin_of_line_match in auto)
  ultimately show ?thesis
    by (simp add: ls find_map_cong_map pin_of_line_strip_cr)
qed

lemma durable_pin_remove:
  assumes d: "durable_pin k h fp" and h: "h' \<noteq> h"
  shows "durable_pin (snd (remove_known_host r k h')) h fp"
proof -
  from d obtain s where k: "kh_contents k = Some s" "utf8_valid (as_bytes s)" "kh_readable k"
    by (auto simp: durable_pin_def)
  have "find_map (pin_of_line h) (lines s) = Some fp"
    using durable_pin_lookup [OF d] k by (simp add: lookup_def read_to_string_def res_ok_def)
  then have "find_map (pin_of_line h) (lines (fst (remove_host_lines s h'))) = Some fp"
    using h by (simp add: find_map_remove_host_lines)
  then have "durable_pin (k\<lparr>kh_contents := Some (fst (remove_host_lines s h'))\<rparr>) h fp"
    unfolding durable_pin_def using k remove_host_lines_shape [OF k(2)]
    by (intro conjI exI [of _ "fst (remove_host_lines s h')"] exI [of _ "[]"]) simp_all
  then show ?thesis
    using d k by (auto simp: remove_known_host_def read_to_string_def split: prod.splits)
qed

lemma durable_pin_verify:
  assumes "durable_pin k h fp" "list_all graphic h'"
  shows "durable_pin (snd (verify_server_cert sha256 w tty wrote h' cert k)) h fp"
  using assms durable_pin_pin [OF assms cert_fingerprint_graphic, of wrote sha256 cert]
  by (auto simp: verify_server_cert_def Let_def split: option.splits prod.splits)

interpretation kh: pin_store lookup "kh_step sha256" spares durable_pin
proof
  fix s h fp e
  assume "durable_pin s h fp" "spares h e"
  then show "durable_pin (kh_step sha256 e s) h fp"
    by (cases e) (auto simp: durable_pin_verify durable_pin_remove)
qed (rule durable_pin_lookup)

lemma accepted_pin_durable:
  assumes v: "verify_server_cert sha256 False tty wrote h cert k = (Inr (), k')"
    and k: "kh_readable k" "\<And>s. kh_contents k = Some s \<Longrightarrow> utf8_valid (as_bytes s) \<and> ends_line s"
    and h: "list_all graphic h"
  shows "durable_pin k' h (cert_fingerprint sha256 cert)"
proof -
  let ?fp = "cert_fingerprint sha256 cert"
  define s where "s = (case kh_contents k of Some s \<Rightarrow> s | None \<Rightarrow> [])"
  have s: "utf8_valid (as_bytes s)" "ends_line s" using k(2) by (auto simp: s_def ends_line_def as_bytes_def split: option.splits)
  have l: "lookup k h = find_map (pin_of_line h) (lines s)"
    using k by (auto simp: lookup_def read_to_string_def res_ok_def s_def split: option.splits)
  show ?thesis
  proof (cases "lookup k h")
    case (Some fp)
    then have "kh_contents k = Some s" using l by (auto simp: s_def split: option.splits)
    with Some v k s l show ?thesis
      unfolding durable_pin_def by (intro conjI exI [of _ s] exI [of _ "[]"])
        (auto simp: verify_server_cert_def Let_def split: if_splits)
  next
    case None
    with v obtain n where w: "wrote = Some n" "length (pin_line h ?fp) \<le> n" and k': "k' = k\<lparr>kh_contents := Some (s @ pin_line h ?fp)\<rparr>"
      by (auto simp: verify_server_cert_def Let_def pin_def s_def split: if_splits option.splits prod.splits)
    have "utf8_valid (as_bytes (s @ pin_line h ?fp))"
      using pin_line_utf8 [OF h cert_fingerprint_graphic [of sha256 cert], of "length (pin_line h ?fp)"]
        utf8_valid_append [OF s(1)] by simp
    moreover have "find_map (pin_of_line h) (lines (s @ pin_line h ?fp)) = Some ?fp"
      using None l pin_of_line_own [OF h cert_fingerprint_graphic]
      by (simp add: lines_append [OF s(2)] lines_pin_line [OF h cert_fingerprint_graphic] find_map_append)
    moreover have "ends_line (s @ pin_line h ?fp)" by (simp add: ends_line_def pin_line_def)
    ultimately show ?thesis
      unfolding durable_pin_def k' using k(1)
      by (intro conjI exI [of _ "s @ pin_line h ?fp"] exI [of _ "[]"]) simp_all
  qed
qed

subsection \<open>Properties\<close>

text \<open>C11: once a server's key has been accepted without the web PKI, every later connection to that
  host whose certificate the web PKI does not vouch for is accepted exactly when it presents the same
  fingerprint, whatever the user types, as long as the host is not removed; connections to other
  hosts, removals of other hosts and writes cut short in between make no difference.  The file is
  readable and ends with a line feed at the first connection.\<close>

theorem pinned_key_enforced:
  assumes "verify_server_cert sha256 False tty wrote h cert k = (Inr (), k')"
    and "kh_readable k" "\<And>s. kh_contents k = Some s \<Longrightarrow> utf8_valid (as_bytes s) \<and> ends_line s"
    and "list_all graphic h" "list_all (spares h) events"
    and "k'' = fold (kh_step sha256) events k'"
  shows "verify_server_cert sha256 False tty' wrote' h cert' k''
    = (if cert_fingerprint sha256 cert' = cert_fingerprint sha256 cert then Inr () else Inl HostKeyMismatch, k'')"
proof -
  have "durable_pin k' h (cert_fingerprint sha256 cert)" by (rule accepted_pin_durable) (use assms in auto)
  from kh.pinned_run [OF this assms(5), of sha256] show ?thesis
    by (auto simp: verify_server_cert_def Let_def assms(6))
qed

definition demo_hosts :: KnownHosts where
  "demo_hosts = \<lparr>kh_contents = Some (''a:1 00'' @ [CHR 0x0A]), kh_readable = True\<rparr>"

lemma pinned_key_enforced_witness:
  "fst (verify_server_cert id False (Some [Some ''yes'']) (Some 99) ''b:2'' [7]
     (kh_step id (Remove True ''a:1'')
        (snd (verify_server_cert id False (Some [Some ''Y'']) (Some 99) ''b:2'' [9] demo_hosts)))) = Inl HostKeyMismatch"
proof -
  let ?k = "snd (verify_server_cert id False (Some [Some ''Y'']) (Some 99) ''b:2'' [9] demo_hosts)"
  have "fst (verify_server_cert id False (Some [Some ''Y'']) (Some 99) ''b:2'' [9] demo_hosts) = Inr ()" by code_simp
  then have v: "verify_server_cert id False (Some [Some ''Y'']) (Some 99) ''b:2'' [9] demo_hosts = (Inr (), ?k)"
    by (simp add: prod_eq_iff)
  have u: "utf8_valid (as_bytes s) \<and> ends_line s" if "kh_contents demo_hosts = Some s" for s
  proof -
    have "utf8_valid (as_bytes (the (kh_contents demo_hosts))) \<and> ends_line (the (kh_contents demo_hosts))" by code_simp
    with that show ?thesis by simp
  qed
  have "list_all graphic ''b:2''" "cert_fingerprint id [7] \<noteq> cert_fingerprint id [9]" by code_simp+
  then show ?thesis
    using pinned_key_enforced [OF v _ u, of "[Remove True ''a:1'']" _ "Some [Some ''yes'']" "Some 99" "[7]"]
    by (simp add: demo_hosts_def)
qed

text \<open>Removing a host forgets every pin of it and no pin of any other host, whatever else the
  file holds; a failed replacement changes nothing.\<close>

lemma removal_forgets_one_host:
  "lookup (snd (remove_known_host replaced k host)) h
     = (if h = host \<and> replaced then None else lookup k h)"
proof (cases "read_to_string k")
  case (Inl e)
  then show ?thesis
    by (cases e) (auto simp: remove_known_host_def lookup_def res_ok_def)
next
  case (Inr s)
  then have k: "kh_contents k = Some s" "utf8_valid (as_bytes s)" "kh_readable k"
    by (auto simp: read_to_string_def split: option.splits if_splits)
  have same: "find_map (pin_of_line h) (lines s) = None"
    if "snd (remove_host_lines s host) = 0" "h = host"
  proof (rule ccontr)
    assume "find_map (pin_of_line h) (lines s) \<noteq> None"
    then obtain l fp where "l \<in> set (lines s)" "pin_of_line h l = Some fp" by (auto dest!: find_map_Some)
    then have "l \<in> set (filter (is_match host) (lines s))" using that(2)
      by (auto simp: pin_of_line_def is_match_def split: option.splits if_splits prod.splits Option.bind_splits)
    then show False using that(1) by (auto simp: remove_host_lines_def Let_def filter_empty_conv)
  qed
  show ?thesis
    using Inr k same find_map_remove_host_lines [of h s host] remove_host_lines_shape(2) [OF k(2), of host]
    by (auto simp: remove_known_host_def lookup_def read_to_string_def res_ok_def split: prod.splits)
qed

subsection \<open>Where a pin is lost\<close>

text \<open>A file whose last line has no line feed: the next pin is glued to it, which spoils the pin of
  the last line and does not record the new one.\<close>

lemma pin_glued_to_unterminated_line:
  "let k = snd (pin (Some 99) \<lparr>kh_contents = Some ''a:1 00'', kh_readable = True\<rparr> ''b:2'' ''11'') in
     lookup k ''a:1'' = Some ''00b:2 11'' \<and> lookup k ''b:2'' = None"
  by code_simp

text \<open>A file that cannot be read counts as one without pins: a changed key is put to the user as a
  new one.\<close>

lemma unreadable_file_forgets_pins:
  "read_to_string k = Inl e \<Longrightarrow> prompt_accept tty \<Longrightarrow> wrote = Some n \<Longrightarrow> length (pin_line h (cert_fingerprint sha256 cert)) \<le> n \<Longrightarrow>
     fst (verify_server_cert sha256 False tty wrote h cert k) = Inr ()"
  by (simp add: verify_server_cert_def lookup_def res_ok_def pin_def)

end
