(* ===== verification/Client_Endpoint.thy ===== *)
theory Client_Endpoint
  imports Known_Hosts Endpoints Rust_Path
begin

text \<open>
  The client's endpoint with its certificate verifier: \<^verbatim>\<open>endpoint\<close>, \<^verbatim>\<open>known_hosts_path\<close> and \<^verbatim>\<open>TofuVerifier\<close> of
  \<^verbatim>\<open>quish-client/src/connect.rs\<close>.  What rustls and quinn do are fields of records.
\<close>

subsection \<open>The verifier\<close>

text \<open>A signature of a handshake, with its scheme.\<close>

record DigitallySignedStruct =
  dss_scheme :: u16
  dss_sig :: "byte list"

text \<open>The signature checks of rustls for the algorithms of a provider: message, certificate, signature.\<close>

record CryptoProvider =
  cp_verify12 :: "byte list \<Rightarrow> byte list \<Rightarrow> DigitallySignedStruct \<Rightarrow> bool"
  cp_verify13 :: "byte list \<Rightarrow> byte list \<Rightarrow> DigitallySignedStruct \<Rightarrow> bool"
  cp_schemes :: "u16 list"

text \<open>\<open>tv_webpki\<close> is the verifier for the public roots: end entity, intermediates, server name.\<close>

record TofuVerifier =
  tv_webpki :: "byte list \<Rightarrow> byte list list \<Rightarrow> string \<Rightarrow> bool"
  tv_provider :: CryptoProvider
  tv_host_key :: string
  tv_known_hosts :: string

definition tofu_verify_server_cert ::
  "(byte list \<Rightarrow> byte list) \<Rightarrow> TofuVerifier \<Rightarrow> byte list \<Rightarrow> byte list list \<Rightarrow> string \<Rightarrow> string option list option \<Rightarrow> nat option \<Rightarrow>
     KnownHosts \<Rightarrow> (cert_error + unit) \<times> KnownHosts" where
  "tofu_verify_server_cert sha256 v end_entity intermediates server_name tty wrote k =
     verify_server_cert sha256 (tv_webpki v end_entity intermediates server_name) tty wrote (tv_host_key v) end_entity k"

definition verify_tls12_signature :: "TofuVerifier \<Rightarrow> byte list \<Rightarrow> byte list \<Rightarrow> DigitallySignedStruct \<Rightarrow> bool" where
  "verify_tls12_signature v msg cert dss = cp_verify12 (tv_provider v) msg cert dss"

definition verify_tls13_signature :: "TofuVerifier \<Rightarrow> byte list \<Rightarrow> byte list \<Rightarrow> DigitallySignedStruct \<Rightarrow> bool" where
  "verify_tls13_signature v msg cert dss = cp_verify13 (tv_provider v) msg cert dss"

definition supported_verify_schemes :: "TofuVerifier \<Rightarrow> u16 list" where
  "supported_verify_schemes v = cp_schemes (tv_provider v)"

subsection \<open>The endpoint\<close>

record ClientEndpoint =
  ce_verifier :: TofuVerifier
  ce_client_auth :: bool
  ce_alpn :: "byte list list"
  ce_transport :: TransportConfig

text \<open>\<open>cl_webpki\<close> is the verifier for the public roots if it can be built, \<open>cl_quic\<close> whether QUIC can use
  a client with these protocols, \<open>cl_bind\<close> whether a local socket can be bound.\<close>

record ClientLib =
  cl_webpki :: "(byte list \<Rightarrow> byte list list \<Rightarrow> string \<Rightarrow> bool) option"
  cl_provider :: CryptoProvider
  cl_quic :: "byte list list \<Rightarrow> bool"
  cl_transport :: TransportConfig
  cl_bind :: bool

datatype client_endpoint_error = BuildWebPki | HomeNotSet | ClientQuicConfig | BindClient

definition known_hosts_path :: "environ \<Rightarrow> client_endpoint_error + string" where
  "known_hosts_path e = rbind (ok_or HomeNotSet (e ''HOME'')) (\<lambda>home. Inr (path_join home ''.config/quish/known_hosts''))"

definition KEEP_ALIVE :: nanos where
  "KEEP_ALIVE = secs 15"

definition endpoint :: "ClientLib \<Rightarrow> environ \<Rightarrow> string \<Rightarrow> client_endpoint_error + ClientEndpoint" where
  "endpoint lib e host_key =
     rbind (ok_or BuildWebPki (cl_webpki lib)) (\<lambda>webpki.
     rbind (known_hosts_path e) (\<lambda>known_hosts.
       let verifier = \<lparr>tv_webpki = webpki, tv_provider = cl_provider lib, tv_host_key = host_key, tv_known_hosts = known_hosts\<rparr>;
           alpn = [ALPN];
           transport = (cl_transport lib)\<lparr>keep_alive_interval := Some KEEP_ALIVE\<rparr>
       in if \<not> cl_quic lib alpn then Inl ClientQuicConfig
          else if \<not> cl_bind lib then Inl BindClient
          else Inr \<lparr>ce_verifier = verifier, ce_client_auth = False, ce_alpn = alpn, ce_transport = transport\<rparr>))"

subsection \<open>Lemmas\<close>

lemma endpoint_made:
  assumes "endpoint lib e host_key = Inr ce"
  shows "tv_host_key (ce_verifier ce) = host_key" "tv_provider (ce_verifier ce) = cl_provider lib" "ce_alpn ce = [ALPN]"
    "\<not> ce_client_auth ce" "keep_alive_interval (ce_transport ce) = Some KEEP_ALIVE"
    "max_idle_timeout (ce_transport ce) = max_idle_timeout (cl_transport lib)"
    "\<exists>home. e ''HOME'' = Some home \<and> tv_known_hosts (ce_verifier ce) = path_join home ''.config/quish/known_hosts''"
  using assms
  by (cases "cl_webpki lib"; cases "e ''HOME''"; auto simp: endpoint_def ok_or_def known_hosts_path_def Let_def split: if_splits)+

text \<open>The idle timeout of a connection is the shorter one of those the two sides give (RFC 9000, 10.1).
  An idle client is not reaped: it sends something in less than that, if the default of the QUIC
  library is longer than the client's interval too.\<close>

definition idle_timeout :: "TransportConfig \<Rightarrow> TransportConfig \<Rightarrow> nanos option" where
  "idle_timeout a b = (case (max_idle_timeout a, max_idle_timeout b) of
       (Some x, Some y) \<Rightarrow> Some (min x y)
     | (Some x, None) \<Rightarrow> Some x
     | (None, y) \<Rightarrow> y)"

lemma idle_client_kept:
  assumes "endpoint lib e host_key = Inr ce" "server_limits slib se" "quic_idle slib IDLE_TIMEOUT = Some IDLE_TIMEOUT"
    and "\<And>t. max_idle_timeout (cl_transport lib) = Some t \<Longrightarrow> KEEP_ALIVE < t"
  shows "\<exists>t a. idle_timeout (ce_transport ce) (se_transport se) = Some t \<and> keep_alive_interval (ce_transport ce) = Some a \<and> a < t"
  using endpoint_made(5,6) [OF assms(1)] assms(2-)
  by (auto simp: idle_timeout_def server_limits_def IDLE_TIMEOUT_def KEEP_ALIVE_def secs_def split: option.split)

definition demo_client :: ClientLib where
  "demo_client = \<lparr>cl_webpki = Some (\<lambda>_ _ _. False),
     cl_provider = \<lparr>cp_verify12 = (\<lambda>_ _ _. False), cp_verify13 = (\<lambda>msg cert dss. cert = [7] \<and> dss_sig dss = msg), cp_schemes = [0x0403]\<rparr>,
     cl_quic = (\<lambda>_. True), cl_transport = \<lparr>max_idle_timeout = Some (secs 30), max_concurrent_bidi_streams = 100, keep_alive_interval = None\<rparr>, cl_bind = True\<rparr>"

definition demo_ce :: ClientEndpoint where
  "demo_ce = projr (endpoint demo_client [''HOME'' \<mapsto> ''/h''] ''b:2'')"

end
