(* ===== verification/Client_Main.thy ===== *)
theory Client_Main
  imports Client_Forward Copy Totp Client_Endpoint
begin

text \<open>
  The client program: the dispatch of \<^verbatim>\<open>main\<close>, \<^verbatim>\<open>establish\<close>, \<^verbatim>\<open>run\<close> and \<^verbatim>\<open>run_totp\<close> of
  \<^verbatim>\<open>quish-client/src/main.rs\<close>, and a command from the words typed to the program the server runs.
\<close>

subsection \<open>The command line\<close>

record ConnectArgs =
  ca_target :: "string option"
  ca_identity :: "string option"
  ca_local_forward :: "string list"
  ca_remote_forward :: "string list"
  ca_command :: "string list"

datatype ClientCommand =
    KnownHostsList
  | KnownHostsRemove string
  | Cp CpArgs
  | Keygen "string option" "string option"
  | TotpGenerate string string

datatype client_error = NoTarget | ConfigFailed config_error | BadTarget spec_error

text \<open>What \<^verbatim>\<open>main\<close> goes on to do: a subcommand, or \<^verbatim>\<open>run\<close> with its arguments.\<close>

record RunArgs =
  run_target :: Target
  run_identity :: "string option"
  run_command :: "string list"
  run_locals :: "string list"
  run_remotes :: "string list"

datatype client_action = Subcommand ClientCommand | Run RunArgs

definition client_main ::
  "environ \<Rightarrow> (config_error + ClientConfig) \<Rightarrow> ClientCommand option \<Rightarrow> ConnectArgs \<Rightarrow> client_error + client_action" where
  "client_main e loaded action args = (case action of
       Some cmd \<Rightarrow> Inr (Subcommand cmd)
     | None \<Rightarrow>
         rbind (ok_or NoTarget (ca_target args)) (\<lambda>target_str.
         rbind (map_sum ConfigFailed id loaded) (\<lambda>cfg.
         rbind (map_sum BadTarget id (parse_target target_str)) (\<lambda>raw.
           let resolved = resolve_target e raw cfg in
           rbind (map_sum ConfigFailed id (choose_identity e (ca_identity args) (res_identity resolved))) (\<lambda>identity.
             Inr (Run \<lparr>run_target = res_target resolved, run_identity = identity, run_command = ca_command args,
               run_locals = res_local_forward resolved @ ca_local_forward args,
               run_remotes = res_remote_forward resolved @ ca_remote_forward args\<rparr>))))))"

subsection \<open>The connection\<close>

text \<open>The network: name resolution, the libraries of the endpoint, the QUIC connection from an endpoint to an
  address and server name, the keying material it exports, and the HTTP/3 handshake.\<close>

record ('c, 'w) Net =
  net_lookup_host :: "'w \<Rightarrow> string \<Rightarrow> SocketAddr list option \<times> 'w"
  net_client :: ClientLib
  net_connect :: "'w \<Rightarrow> ClientEndpoint \<Rightarrow> SocketAddr \<Rightarrow> string \<Rightarrow> 'c option \<times> 'w"
  net_export :: "'c \<Rightarrow> string \<Rightarrow> nat \<Rightarrow> byte list option"
  net_h3 :: "'w \<Rightarrow> 'c \<Rightarrow> bool \<times> 'w"

definition CHANNEL_BINDING_LABEL :: string where
  "CHANNEL_BINDING_LABEL = ''quish channel binding''"

datatype establish_error = ResolveFailed | NoAddress | EndpointFailed client_endpoint_error | ConnectFailed | ExportFailed | AuthFailed auth_error | AuthPanicked
  | HandshakeFailed

text \<open>\<open>auth\<close> is \<^const>\<open>build_authorization\<close> with what it reads.\<close>

definition establish ::
  "('c, 'w) Net \<Rightarrow> (string \<Rightarrow> string option \<Rightarrow> byte list \<Rightarrow> (auth_error + string) option) \<Rightarrow> environ \<Rightarrow> Target \<Rightarrow> string option \<Rightarrow> 'w \<Rightarrow>
     (establish_error + 'c \<times> string) \<times> 'w" where
  "establish net auth e target identity w =
     (let host_key = socket_target (tg_host target) (tg_port target) in
      case net_lookup_host net w host_key of
        (None, w) \<Rightarrow> (Inl ResolveFailed, w)
      | (Some [], w) \<Rightarrow> (Inl NoAddress, w)
      | (Some (addr # _), w) \<Rightarrow>
          (case endpoint (net_client net) e host_key of
             Inl err \<Rightarrow> (Inl (EndpointFailed err), w)
           | Inr ep \<Rightarrow> (case net_connect net w ep addr (tg_host target) of
              (None, w) \<Rightarrow> (Inl ConnectFailed, w)
            | (Some conn, w) \<Rightarrow> (case net_export net conn CHANNEL_BINDING_LABEL CHANNEL_BINDING_LEN of
                None \<Rightarrow> (Inl ExportFailed, w)
              | Some binding \<Rightarrow> (case auth (tg_user target) identity binding of
                  None \<Rightarrow> (Inl AuthPanicked, w)
                | Some (Inl err) \<Rightarrow> (Inl (AuthFailed err), w)
                | Some (Inr authorization) \<Rightarrow> (case net_h3 net w conn of
                    (True, w) \<Rightarrow> (Inr (conn, authorization), w)
                  | (False, w) \<Rightarrow> (Inl HandshakeFailed, w)))))))"

subsection \<open>Running\<close>

datatype run_error = BadSpec spec_error | EstablishFailed establish_error | ChannelFailed open_error

text \<open>What \<^verbatim>\<open>run\<close> does with an established connection: forward, or pump one channel from its opening
  frame (\<^const>\<open>run_channel\<close>).\<close>

datatype run_mode =
    ForwardMode "ForwardSpec list" "RemoteForwardSpec list"
  | ChannelMode ChannelOpen bool

definition channel_open :: "environ \<Rightarrow> (u16 \<times> u16) option \<Rightarrow> string list \<Rightarrow> ChannelOpen" where
  "channel_open e ws command = (case winsize ws of (cols, rows) \<Rightarrow>
     if command = [] then Shell (unwrap_or (e ''TERM'') ''xterm'') cols rows else Exec (intercalate '' '' command))"

definition client_run ::
  "HttpLib \<Rightarrow> (string \<Rightarrow> Challenge option) \<Rightarrow> (ChallengeAnswer \<Rightarrow> string option) \<Rightarrow> ('c, 'w) Net \<Rightarrow> ('c \<Rightarrow> 'w Server) \<Rightarrow>
     (string \<Rightarrow> string option \<Rightarrow> byte list \<Rightarrow> (auth_error + string) option) \<Rightarrow> environ \<Rightarrow> (u16 \<times> u16) option \<Rightarrow> RunArgs \<Rightarrow> 'w \<Rightarrow>
     (run_error + 'c \<times> string \<times> run_mode) \<times> 'w" where
  "client_run http dec enc net srv auth e ws r w =
     (case rbind (try_map parse_forward (run_locals r)) (\<lambda>ls. rbind (try_map parse_remote_forward (run_remotes r)) (\<lambda>rs. Inr (ls, rs))) of
        Inl err \<Rightarrow> (Inl (BadSpec err), w)
      | Inr (ls, rs) \<Rightarrow> (case establish net auth e (run_target r) (run_identity r) w of
          (Inl err, w) \<Rightarrow> (Inl (EstablishFailed err), w)
        | (Inr (conn, authorization), w) \<Rightarrow>
            if ls \<noteq> [] \<or> rs \<noteq> [] then (Inr (conn, authorization, ForwardMode ls rs), w)
            else case open_channel http dec enc (srv conn) (run_target r) authorization w of
                (Inl err, w) \<Rightarrow> (Inl (ChannelFailed err), w)
              | (Inr _, w) \<Rightarrow>
                  (Inr (conn, authorization, ChannelMode (channel_open e ws (run_command r)) (run_command r = [])), w)))"

subsection \<open>Enrolling a second factor\<close>

text \<open>\<^verbatim>\<open>{:06}\<close>.\<close>

definition show_06 :: "nat \<Rightarrow> string" where
  "show_06 n = (let s = show_nat n in replicate (6 - length s) (CHR ''0'') @ s)"

text \<open>What is printed, and whether the QR code could be made; \<open>code\<close> is the current code of a secret.\<close>

definition run_totp ::
  "(byte list \<Rightarrow> string) \<Rightarrow> (string \<Rightarrow> string option) \<Rightarrow> (byte list \<Rightarrow> u32) \<Rightarrow> byte list \<Rightarrow> string \<Rightarrow> string \<Rightarrow> string list \<times> bool" where
  "run_totp base32 qr code secret user host =
     (let b32 = encode_base32_secret base32 secret; uri = otpauth_uri user host b32 in
      case qr uri of
        None \<Rightarrow> ([''secret: '' @ b32, uri], False)
      | Some q \<Rightarrow>
          ([''secret: '' @ b32, uri, q, ''current code: '' @ show_06 (unat (code secret)), [],
            ''Install server-side: write the base32 secret above to'',
            ''  ~'' @ user @ ''/.config/quish/totp   (mode 0600)'',
            ''then enable TOTP on the server (--totp, or `totp = true` in its config).''], True))"

subsection \<open>Lemmas\<close>

text \<open>A malformed forward is reported before anything goes over the network.\<close>

lemma try_map_isl: "x \<in> set xs \<Longrightarrow> isl (f x) \<Longrightarrow> isl (try_map f xs)"
proof (induction xs)
  case (Cons y ys)
  then show ?case by (cases "f y"; cases "try_map f ys") auto
qed simp

lemma bad_spec_before_network:
  assumes "s \<in> set (run_locals r) \<and> isl (parse_forward s) \<or> s \<in> set (run_remotes r) \<and> isl (parse_remote_forward s)"
  shows "\<exists>err. client_run http dec enc net srv auth e ws r w = (Inl (BadSpec err), w)"
proof -
  have "isl (rbind (try_map parse_forward (run_locals r)) (\<lambda>ls. rbind (try_map parse_remote_forward (run_remotes r)) (\<lambda>rs. Inr (ls, rs))))"
    using assms try_map_isl [of s "run_locals r" parse_forward] try_map_isl [of s "run_remotes r" parse_remote_forward]
    by (cases "try_map parse_forward (run_locals r)"; cases "try_map parse_remote_forward (run_remotes r)") auto
  then show ?thesis by (auto simp: client_run_def isl_def)
qed

lemma try_map_Nil: "try_map f xs = Inr [] \<Longrightarrow> xs = []"
  by (cases xs) auto

text \<open>The connection is made by an endpoint that checks certificates for the target, and the credentials
  are made for the connection they are sent on.\<close>

lemma establish_bound:
  assumes "establish net auth e target identity w = (Inr (conn, authorization), w')"
  shows "\<exists>binding. net_export net conn CHANNEL_BINDING_LABEL CHANNEL_BINDING_LEN = Some binding
      \<and> auth (tg_user target) identity binding = Some (Inr authorization)"
    "\<exists>ep addr w1 w2. endpoint (net_client net) e (socket_target (tg_host target) (tg_port target)) = Inr ep
      \<and> net_connect net w1 ep addr (tg_host target) = (Some conn, w2)"
  using assms
  by (auto simp: establish_def Let_def split: prod.splits option.splits list.splits if_splits sum.splits bool.splits)

lemma client_run_channel:
  assumes "client_run http dec enc net srv auth e ws r w = (Inr (conn, authorization, ChannelMode op interactive), w')"
  shows "run_locals r = [] \<and> run_remotes r = [] \<and> op = channel_open e ws (run_command r) \<and> (interactive \<longleftrightarrow> run_command r = [])
    \<and> (\<exists>w0. establish net auth e (run_target r) (run_identity r) w = (Inr (conn, authorization), w0))"
  using assms by (auto simp: client_run_def try_map_Nil split: sum.splits prod.splits if_splits)

text \<open>A second factor enrolled as printed works: the secret installed as printed, with whatever white
  space an editor adds around it, is the one generated, and the code printed is accepted with it half a
  minute before and after.\<close>

lemma enrolment_works:
  assumes "\<And>s. unbase32 (base32 s) = Some s" "trim text = base32 secret"
    and "unat now \<le> unat t + 30" "unat t \<le> unat now + 30"
  shows "decode_base32_secret unbase32 text = Some secret
    \<and> ''secret: '' @ base32 secret \<in> set (fst (run_totp base32 qr code secret user host))
    \<and> verify_at hmac secret (current_code hmac t secret) now"
  using assms verify_at_near [OF assms(3,4)]
  by (simp add: decode_base32_secret_def run_totp_def encode_base32_secret_def Let_def split: option.split)

subsection \<open>Properties\<close>

text \<open>C2: what the user types is what the server runs.  When the client opens a channel for the words of
  its command line and the monitor spawns a session for it, the one thing the session helper executes is
  the login shell of the user authenticated on that connection, with that user's ids, groups and login
  environment: given the words joined by spaces, or as a login shell when there are none.  The client has
  authenticated with credentials made for the keying material of that connection, which its endpoint
  opened with the certificate verifier for the host and port typed.\<close>

theorem typed_command_is_run:
  assumes client: "client_run http dec enc net srv auth e ws r w = (Inr (conn, authorization, ChannelMode op interactive), w')"
    and worker: "action_request (serve_channel c op) = Some req"
    and monitor: "handle me st req = Ready (st', resp, fds, effs)" "Spawn child \<in> set effs"
    and helper: "\<forall>v \<in> set MODE_VARS. inherited v = None" "posix_ids k"
      "act \<in> set (fst (run_session_helper unb64 k (inherited ++ cmd_env (child_cmd child)) stdin cred))"
  shows "(\<exists>u pw img cred'. users st c = Some u \<and> getpwnam me u = Some pw \<and> act = ExecImage cred' img
        \<and> has_ids k (pw_name pw) (pw_gid pw) (pw_uid pw) cred' \<and> login_image pw img \<and> img_path img = login_shell pw
        \<and> (if run_command r = [] then session_argv (login_shell pw) None = Inr (img_argv img)
           else img_argv img = [login_shell pw, ''-c'', intercalate '' '' (run_command r)]))
    \<and> (\<exists>binding. net_export net conn CHANNEL_BINDING_LABEL CHANNEL_BINDING_LEN = Some binding
        \<and> auth (tg_user (run_target r)) (run_identity r) binding = Some (Inr authorization))
    \<and> (\<exists>ep addr w1 w2. net_connect net w1 ep addr (tg_host (run_target r)) = (Some conn, w2)
        \<and> tv_host_key (ce_verifier ep) = socket_target (tg_host (run_target r)) (tg_port (run_target r)))"
proof -
  let ?e = "inherited ++ cmd_env (child_cmd child)"
  note ch = client_run_channel [OF client]
  have req: "(run_command r = [] \<and> (\<exists>tm. req = SpawnShell c tm)) \<or> (run_command r \<noteq> [] \<and> req = SpawnExec c (intercalate '' '' (run_command r)))"
    using worker ch by (auto simp: channel_open_def split: prod.splits if_splits)
  then have sc: "spawn_conn req = Some c" by auto
  from Spawn_only_by_spawn [OF monitor] sc obtain user pam where sp: "is_spawn me st c user child pam (st', resp, fds, effs)" by auto
  then obtain pw where u: "users st c = Some user" and pw: "getpwnam me user = Some pw" by (auto simp: is_spawn_def spawned_for_def)
  have handed: "handed_user pw ?e" "handed_mode req ?e" using spawn_hands_over [OF monitor helper(1) sc u pw] by simp_all
  obtain res where run: "run_session_helper unb64 k ?e stdin cred = (fst (run_session_helper unb64 k ?e stdin cred), res)"
    by (cases "run_session_helper unb64 k ?e stdin cred") simp
  have ids: "has_ids k (pw_name pw) (pw_gid pw) (pw_uid pw) (act_cred act)"
    by (rule handed_acts_as [OF helper(2) handed(1) run helper(3)])
  have "fulfils pw req act" by (rule helper_fulfils [OF helper(3) handed])
  then obtain cred' img where "act = ExecImage cred' img" "login_image pw img" "img_path img = login_shell pw"
    "if run_command r = [] then session_argv (login_shell pw) None = Inr (img_argv img)
     else img_argv img = [login_shell pw, ''-c'', intercalate '' '' (run_command r)]"
    using req by (cases act) auto
  moreover from ch obtain w0 where est: "establish net auth e (run_target r) (run_identity r) w = (Inr (conn, authorization), w0)" by blast
  moreover from establish_bound(2) [OF est] have "\<exists>ep addr w1 w2. net_connect net w1 ep addr (tg_host (run_target r)) = (Some conn, w2)
      \<and> tv_host_key (ce_verifier ep) = socket_target (tg_host (run_target r)) (tg_port (run_target r))"
    using endpoint_made(1) by blast
  ultimately show ?thesis using u pw ids establish_bound(1) [OF est] by fastforce
qed

definition demo_net :: "(nat, unit) Net" where
  "demo_net = \<lparr>net_lookup_host = (\<lambda>w _. (Some [(V6 1, 4433)], w)), net_client = demo_client, net_connect = (\<lambda>w _ _ _. (Some 1, w)),
     net_export = (\<lambda>_ _ n. Some (replicate n 0)), net_h3 = (\<lambda>w _. (True, w))\<rparr>"

definition demo_run_args :: RunArgs where
  "demo_run_args = \<lparr>run_target = demo_target, run_identity = None, run_command = [''id''], run_locals = [], run_remotes = []\<rparr>"

lemma typed_command_is_run_witness:
  "client_main Map.empty (Inr ClientConfig_default) None
      \<lparr>ca_target = Some ''al@h'', ca_identity = None, ca_local_forward = [], ca_remote_forward = [], ca_command = [''id'']\<rparr> = Inr (Run demo_run_args)
   \<and> img_argv demo_image = [''/bin/sh'', ''-c'', ''id''] \<and> users demo_authed 1 = Some ''al''"
proof -
  let ?auth = "\<lambda>u i b. Some (Inr ''x'') :: (auth_error + string) option"
  have m: "client_main Map.empty (Inr ClientConfig_default) None
      \<lparr>ca_target = Some ''al@h'', ca_identity = None, ca_local_forward = [], ca_remote_forward = [], ca_command = [''id'']\<rparr> = Inr (Run demo_run_args)"
    by code_simp
  have c: "client_run demo_http (\<lambda>_. None) (\<lambda>_. None) demo_net (\<lambda>_. demo_srv) ?auth [''HOME'' \<mapsto> ''/h''] None demo_run_args ()
      = (Inr (1, ''x'', ChannelMode (Exec ''id'') False), ())" by code_simp
  have w: "action_request (serve_channel 1 (Exec ''id'')) = Some (SpawnExec 1 ''id'')" by code_simp
  have h: "handle demo_env demo_authed (SpawnExec 1 ''id'')
      = Ready (demo_live, Spawned 1, [StdinOf 7, StdoutOf 7, StderrOf 7], [PamOpen ''al'', Spawn demo_child])"
    by (rule demo_spawn)
  from typed_command_is_run [OF c w h, of demo_child Map.empty demo_kernel "ExecImage demo_cred demo_image"
      "\<lambda>s. Inr (as_bytes s) :: unit + byte list" "[]" root_cred] demo_helper demo_kernel_posix
  have "\<exists>u pw. users demo_authed 1 = Some u \<and> getpwnam demo_env u = Some pw \<and> img_argv demo_image = [login_shell pw, ''-c'', ''id'']"
    by (auto simp: demo_run_args_def)
  then show ?thesis using m by (auto simp: demo_authed_def demo_env_def login_shell_def split: if_splits)
qed



end
