(* ===== verification/Access_Spec.thy ===== *)
theory Access_Spec
  imports Monitor
begin

text \<open>
  What the monitor is for, as a specification of a page, and a simulation that its handlers
  (\<^verbatim>\<open>quish-server/src/monitor.rs\<close>) implement it.  The specification knows connections, users and running
  processes; it has no index, no PAM, no challenges and no descriptors.
\<close>

subsection \<open>The specification\<close>

text \<open>Who is logged in on a connection, and the running sessions, each with its connection, the user it
  runs as and its process.\<close>

record Access =
  who :: "conn_id \<Rightarrow> string option"
  running :: "session_id \<Rightarrow> (conn_id \<times> string \<times> u32) option"

datatype access_event =
    Quiet
  | LogsIn conn_id string
  | Begins session_id conn_id string u32
  | Signals session_id
  | Ends session_id
  | Leaves conn_id

definition sessions_of :: "Access \<Rightarrow> conn_id \<Rightarrow> session_id set" where
  "sessions_of a c = {sid. \<exists>u p. running a sid = Some (c, u, p)}"

inductive access_step :: "Access \<Rightarrow> access_event \<Rightarrow> Access \<Rightarrow> bool" where
  Quiet: "access_step a Quiet a"
| LogsIn: "access_step a (LogsIn c u) (a\<lparr>who := (who a)(c \<mapsto> u)\<rparr>)"
| Begins: "who a c = Some u \<Longrightarrow> running a sid = None \<Longrightarrow>
    access_step a (Begins sid c u p) (a\<lparr>running := (running a)(sid \<mapsto> (c, u, p))\<rparr>)"
| Signals: "running a sid \<noteq> None \<Longrightarrow> access_step a (Signals sid) a"
| Ends: "running a sid \<noteq> None \<Longrightarrow> access_step a (Ends sid) (a\<lparr>running := (running a)(sid := None)\<rparr>)"
| Leaves: "access_step a (Leaves c)
    (a\<lparr>who := (who a)(c := None), running := (\<lambda>sid. if sid \<in> sessions_of a c then None else running a sid)\<rparr>)"

inductive_cases access_step_cases: "access_step a ev a'"

text \<open>Runs, with the state each event happened in, the latest first.\<close>

inductive access_run :: "Access \<Rightarrow> (Access \<times> access_event) list \<Rightarrow> bool" where
  Start: "access_run \<lparr>who = Map.empty, running = Map.empty\<rparr> []"
| Step: "access_run a h \<Longrightarrow> access_step a ev a' \<Longrightarrow> access_run a' ((a, ev) # h)"

subsection \<open>What the specification guarantees\<close>

definition logged_in :: "(Access \<times> access_event) list \<Rightarrow> conn_id \<Rightarrow> string \<Rightarrow> bool" where
  "logged_in h c u \<longleftrightarrow> (\<exists>later a earlier. h = later @ (a, LogsIn c u) # earlier
     \<and> (\<forall>(b, ev) \<in> set later. ev \<noteq> Leaves c \<and> (\<forall>u'. ev \<noteq> LogsIn c u')))"

lemma logged_in_Cons:
  assumes "logged_in h c u" "ev \<noteq> Leaves c" "\<And>u'. ev \<noteq> LogsIn c u'"
  shows "logged_in ((a, ev) # h) c u"
proof -
  from assms(1) obtain later b earlier where "h = later @ (b, LogsIn c u) # earlier"
    "\<forall>(b, ev) \<in> set later. ev \<noteq> Leaves c \<and> (\<forall>u'. ev \<noteq> LogsIn c u')" by (auto simp: logged_in_def)
  then show ?thesis using assms(2,3) unfolding logged_in_def
    by (intro exI [of _ "(a, ev) # later"] exI [of _ b] exI [of _ earlier]) auto
qed

lemma logged_in_now: "logged_in ((a, LogsIn c u) # h) c u"
  unfolding logged_in_def by (intro exI [of _ "[]"]) simp

text \<open>The user of a connection is the last one who logged in on it, since it was last left.\<close>

lemma access_run_who: "access_run a h \<Longrightarrow> who a c = Some u \<Longrightarrow> logged_in h c u"
proof (induction arbitrary: u rule: access_run.induct)
  case (Step a h ev a')
  show ?case
  proof (cases "ev = LogsIn c u")
    case False
    with Step.hyps(2) Step.prems have "who a c = Some u" "ev \<noteq> Leaves c" "ev \<noteq> LogsIn c u'" for u'
      by (auto elim: access_step_cases split: if_splits)
    then show ?thesis using logged_in_Cons Step.IH by blast
  qed (simp add: logged_in_now)
qed simp

text \<open>Every running session was begun on its connection by the user logged in there at the time, and the
  connection has not been left since.\<close>

lemma access_run_running:
  assumes "access_run a h" "running a sid = Some (c, u, p)"
  shows "\<exists>later b earlier. h = later @ (b, Begins sid c u p) # earlier \<and> logged_in earlier c u
    \<and> (\<forall>(x, ev) \<in> set later. ev \<noteq> Leaves c \<and> ev \<noteq> Ends sid)"
  using assms
proof (induction rule: access_run.induct)
  case (Step a h ev a')
  show ?case
  proof (cases "ev = Begins sid c u p")
    case True
    then have "who a c = Some u" using Step.hyps(2) by (auto elim: access_step_cases)
    then have "logged_in h c u" by (rule access_run_who [OF Step.hyps(1)])
    then show ?thesis using True by (intro exI [of _ "[]"] exI [of _ a] exI [of _ h]) simp
  next
    case False
    with Step.hyps(2) Step.prems have r: "running a sid = Some (c, u, p)" and ev: "ev \<noteq> Leaves c" "ev \<noteq> Ends sid"
      by (auto elim!: access_step_cases simp: sessions_of_def split: if_splits)
    from Step.IH [OF r] obtain later b earlier where "h = later @ (b, Begins sid c u p) # earlier" "logged_in earlier c u"
      "\<forall>(x, ev) \<in> set later. ev \<noteq> Leaves c \<and> ev \<noteq> Ends sid" by blast
    then show ?thesis using ev by (intro exI [of _ "(a, ev) # later"] exI [of _ b] exI [of _ earlier]) auto
  qed
qed simp

subsection \<open>The monitor against the specification\<close>

text \<open>A state of the monitor stands for a state of the specification.\<close>

definition agrees :: "State \<Rightarrow> Access \<Rightarrow> bool" where
  "agrees st a \<longleftrightarrow> who a = users st \<and> (\<forall>sid. running a sid = None \<longleftrightarrow> sessions st sid = None)
     \<and> (\<forall>sid c u p. running a sid = Some (c, u, p) \<longrightarrow>
          sid \<in> idx_owned (conn_sessions st) c \<and> map_option pid (sessions st sid) = Some p)"

fun target :: "effect \<Rightarrow> u32 option" where
  "target (Killpg p _) = Some p"
| "target (Kill p _) = Some p"
| "target (Wait p) = Some p"
| "target _ = None"

text \<open>What a turn of the monitor shows of an event: the request and the reply it goes with, the process
  spawned, and the processes that are signalled or waited for.\<close>

definition targets_only :: "u32 set \<Rightarrow> served \<Rightarrow> bool" where
  "targets_only P s \<longleftrightarrow> (\<forall>eff \<in> set (sv_eff s). \<forall>p. target eff = Some p \<longrightarrow> p \<in> P)"

definition spawns_none :: "served \<Rightarrow> bool" where
  "spawns_none s \<longleftrightarrow> (\<forall>child. Spawn child \<notin> set (sv_eff s))"

definition process_of :: "Access \<Rightarrow> session_id set \<Rightarrow> u32 set" where
  "process_of a S = {p. \<exists>sid \<in> S. \<exists>c u. running a sid = Some (c, u, p)}"

fun observed :: "Access \<Rightarrow> access_event \<Rightarrow> served \<Rightarrow> bool" where
  "observed a Quiet s \<longleftrightarrow> spawns_none s \<and> targets_only {} s"
| "observed a (LogsIn c u) s \<longleftrightarrow> grants s c u \<and> spawns_none s \<and> targets_only {} s"
| "observed a (Begins sid c u p) s \<longleftrightarrow> spawn_conn (sv_req s) = Some c \<and> sv_resp s = Spawned sid \<and> targets_only {} s
     \<and> (\<exists>child. pid child = p \<and> spawned_for (sv_env s) u child \<and> (\<forall>ch. Spawn ch \<in> set (sv_eff s) \<longleftrightarrow> ch = child))"
| "observed a (Signals sid) s \<longleftrightarrow> (\<exists>sig. sv_req s = SignalReq sid sig) \<and> spawns_none s \<and> targets_only (process_of a {sid}) s"
| "observed a (Ends sid) s \<longleftrightarrow> sv_req s = Reap sid \<and> (\<exists>code. sv_resp s = Exited code) \<and> spawns_none s
     \<and> targets_only (process_of a {sid}) s \<and> (\<forall>p \<in> process_of a {sid}. Wait p \<in> set (sv_eff s))"
| "observed a (Leaves c) s \<longleftrightarrow> sv_req s = Close c \<and> spawns_none s
     \<and> targets_only (process_of a (sessions_of a c)) s \<and> (\<forall>p \<in> process_of a (sessions_of a c). Wait p \<in> set (sv_eff s))"

lemma reap_child_effects:
  "Wait (pid ch) \<in> set (snd (reap_child e ch))" "Spawn x \<notin> set (snd (reap_child e ch))"
  "eff \<in> set (snd (reap_child e ch)) \<Longrightarrow> target eff = Some p \<Longrightarrow> p = pid ch"
  by (auto simp: reap_child_def Let_def split: option.splits)

lemma close_sessions_effects:
  "eff \<in> set (snd (close_sessions e sids st)) \<Longrightarrow>
     (\<exists>u. eff = PamClose u) \<or> (\<exists>sid \<in> set sids. \<exists>ch. sessions st sid = Some ch \<and> eff \<in> set (snd (reap_child e ch)))"
proof (induction sids arbitrary: st)
  case (Cons sid sids)
  from Cons.prems have "eff \<in> set (snd (close_one e sid st)) \<or> eff \<in> set (snd (close_sessions e sids (fst (close_one e sid st))))"
    unfolding close_sessions_Cons by simp
  then show ?case
  proof
    assume "eff \<in> set (snd (close_one e sid st))"
    then show ?thesis by (auto simp: close_one_def split: option.splits)
  next
    assume "eff \<in> set (snd (close_sessions e sids (fst (close_one e sid st))))"
    from Cons.IH [OF this] show ?thesis by (auto simp: close_one_def split: if_splits)
  qed
qed simp

lemma close_sessions_waits:
  "sid \<in> set sids \<Longrightarrow> sessions st sid = Some ch \<Longrightarrow> Wait (pid ch) \<in> set (snd (close_sessions e sids st))"
proof (induction sids arbitrary: st)
  case (Cons s sids)
  show ?case
  proof (cases "s = sid")
    case True
    then show ?thesis using Cons.prems reap_child_effects(1) [of ch e] unfolding close_sessions_Cons by (simp add: close_one_def)
  next
    case False
    then have "Wait (pid ch) \<in> set (snd (close_sessions e sids (fst (close_one e s st))))"
      using Cons.prems by (intro Cons.IH) (auto simp: close_one_def)
    then show ?thesis unfolding close_sessions_Cons by simp
  qed
qed simp

lemma agrees_process:
  assumes "agrees st a" "sid \<in> S" "sessions st sid = Some ch"
  shows "pid ch \<in> process_of a S"
proof -
  obtain c u p where r: "running a sid = Some (c, u, p)" using assms(1,3) by (metis agrees_def not_Some_eq prod_cases3)
  then have "map_option pid (sessions st sid) = Some p" using assms(1) unfolding agrees_def by blast
  then show ?thesis using r assms(2,3) by (auto simp: process_of_def)
qed

lemma process_of_agrees:
  assumes "agrees st a" "p \<in> process_of a S"
  shows "\<exists>sid \<in> S. \<exists>ch. sessions st sid = Some ch \<and> pid ch = p"
  using assms unfolding process_of_def agrees_def by fastforce

text \<open>The sessions the index holds for a connection are the specification's.\<close>

lemma agrees_owned:
  assumes "agrees st a" "mon_inv st"
  shows "idx_owned (conn_sessions st) c = sessions_of a c"
proof
  show "sessions_of a c \<subseteq> idx_owned (conn_sessions st) c" using assms(1) unfolding agrees_def sessions_of_def by blast
next
  show "idx_owned (conn_sessions st) c \<subseteq> sessions_of a c"
  proof
    fix sid assume own: "sid \<in> idx_owned (conn_sessions st) c"
    have cov: "ix.covers (conn_sessions st) (dom (sessions st))" using assms(2) by (simp add: mon_inv_def)
    then have "sid \<in> dom (sessions st)" using own ix.covers_owned by blast
    then have "running a sid \<noteq> None" using assms(1) by (auto simp: agrees_def)
    then obtain c' u p where r: "running a sid = Some (c', u, p)" by auto
    then have "sid \<in> idx_owned (conn_sessions st) c'" using assms(1) unfolding agrees_def by blast
    then have "c' = c" using cov own unfolding ix.covers_def by blast
    then show "sid \<in> sessions_of a c" using r by (auto simp: sessions_of_def)
  qed
qed

text \<open>Each kind of turn is an event of the specification.\<close>

definition simulates :: "Access \<Rightarrow> State \<Rightarrow> served \<Rightarrow> bool" where
  "simulates a st' s \<longleftrightarrow> (\<exists>ev a'. access_step a ev a' \<and> agrees st' a' \<and> observed a ev s)"

lemma quiet_simulates: "agrees st' a \<Longrightarrow> spawns_none s \<Longrightarrow> targets_only {} s \<Longrightarrow> simulates a st' s"
  unfolding simulates_def by (intro exI [of _ Quiet] exI [of _ a]) (simp add: access_step.Quiet)

lemma authenticate_simulates:
  assumes "agrees st a" "handle_authenticate e st c auth peer b ans = Ready (st', resp, fds, effs)"
  shows "simulates a st' \<lparr>sv_env = e, sv_req = Authenticate c auth peer b ans, sv_resp = resp, sv_fds = fds, sv_eff = effs\<rparr>"
    (is "simulates _ _ ?s")
proof -
  note h = handle_authenticate_state [OF assms(2)]
  have none: "spawns_none ?s" "targets_only {} ?s" using h(5) by (simp_all add: spawns_none_def targets_only_def)
  from h(7) show ?thesis
  proof (elim disjE exE conjE)
    assume "users st' = users st"
    then have "agrees st' a" using assms(1) h(1,2) by (simp add: agrees_def)
    then show ?thesis using none by (rule quiet_simulates)
  next
    fix user conn
    assume u: "users st' = (users st)(c \<mapsto> user)" "resp = VerdictR True" "turn_conn peer b ans conn"
      "mon_verdict e auth conn = Ready (Allow user)"
    then have "grants ?s c user" unfolding grants_def by auto
    moreover have "agrees st' (a\<lparr>who := (who a)(c \<mapsto> user)\<rparr>)" using assms(1) h(1,2) u(1) by (simp add: agrees_def)
    ultimately show ?thesis unfolding simulates_def using none
      by (intro exI [of _ "LogsIn c user"] exI [of _ "a\<lparr>who := (who a)(c \<mapsto> user)\<rparr>"]) (simp add: access_step.LogsIn)
  qed
qed

lemma spawn_simulates:
  assumes "agrees st a" "mon_inv st" "unat (next_session st) + 1 < 2 ^ 64" "spawn_conn req = Some c"
    and sp: "is_spawn e st c user child pam (st', resp, fds, effs)"
  shows "simulates a st' \<lparr>sv_env = e, sv_req = req, sv_resp = resp, sv_fds = fds, sv_eff = effs\<rparr>" (is "simulates _ _ ?s")
proof -
  let ?sid = "next_session st + 1" and ?p = "pid child"
  let ?a = "a\<lparr>running := (running a)(?sid \<mapsto> (c, user, ?p))\<rparr>"
  have "unat ?sid = unat (next_session st) + 1" using assms(3) by (rule unat_Suc)
  then have "?sid \<notin> dom (sessions st)" using assms(2) by (force simp: mon_inv_def)
  then have fresh: "running a ?sid = None" using assms(1) by (auto simp: agrees_def)
  have u: "users st c = Some user" "spawned_for e user child" "resp = Spawned ?sid"
    and st': "users st' = users st" "sessions st' = (sessions st)(?sid \<mapsto> child)"
      "conn_sessions st' = idx_insert c ?sid (conn_sessions st)"
    and effs: "effs = (case pam of Some s \<Rightarrow> [PamOpen (ps_user s)] | None \<Rightarrow> []) @ [Spawn child]"
    using sp by (auto simp: is_spawn_def)
  have "access_step a (Begins ?sid c user ?p) ?a" using assms(1) u(1) fresh by (intro access_step.Begins) (auto simp: agrees_def)
  moreover have "agrees st' ?a"
    using assms(1) unfolding agrees_def st' ix.owned_ins by (auto split: if_splits)
  moreover have "observed a (Begins ?sid c user ?p) ?s"
    using assms(4) u effs by (auto simp: targets_only_def split: option.splits intro!: exI [of _ child])
  ultimately show ?thesis unfolding simulates_def by blast
qed

lemma reap_simulates:
  assumes "agrees st a" "handle_reap e st sid = (st', resp, fds, effs)"
  shows "simulates a st' \<lparr>sv_env = e, sv_req = Reap sid, sv_resp = resp, sv_fds = fds, sv_eff = effs\<rparr>" (is "simulates _ _ ?s")
proof (cases "sessions st sid")
  case None
  then show ?thesis using assms by (intro quiet_simulates) (auto simp: handle_reap_def spawns_none_def targets_only_def)
next
  case (Some ch)
  let ?a = "a\<lparr>running := (running a)(sid := None)\<rparr>"
  have r: "\<exists>code. resp = Exited code" and effs: "\<exists>pams. effs = snd (reap_child e ch) @ pams \<and> (\<forall>x \<in> set pams. \<exists>u. x = PamClose u)"
    using Some assms(2) by (auto simp: handle_reap_def Let_def case_prod_unfold close_pam_def split: option.splits)
  from effs obtain pams where pams: "effs = snd (reap_child e ch) @ pams" "\<forall>x \<in> set pams. \<exists>u. x = PamClose u" by blast
  have st': "st' = fst (handle_reap e st sid)" using assms(2) by simp
  have "running a sid \<noteq> None" using assms(1) Some by (simp add: agrees_def)
  then have "access_step a (Ends sid) ?a" by (rule access_step.Ends)
  moreover have "agrees st' ?a"
    using assms(1) unfolding agrees_def st' handle_reap_state [OF Some] by (auto simp: ix.owned_forget split: if_splits)
  moreover have "p = pid ch" if "p \<in> process_of a {sid}" for p using process_of_agrees [OF assms(1) that] Some by auto
  then have waits: "\<forall>p \<in> process_of a {sid}. Wait p \<in> set effs"
    unfolding pams(1) using reap_child_effects(1) [of ch e] by auto
  have mine: "pid ch \<in> process_of a {sid}" using agrees_process [OF assms(1) _ Some] by simp
  have "p \<in> process_of a {sid}" if "eff \<in> set effs" "target eff = Some p" for eff p
  proof -
    have "eff \<notin> set pams" using pams(2) that(2) by auto
    then have "eff \<in> set (snd (reap_child e ch))" using that(1) pams(1) by simp
    then have "p = pid ch" by (rule reap_child_effects(3) [OF _ that(2)])
    then show ?thesis using mine by simp
  qed
  then have targets: "targets_only (process_of a {sid}) ?s" by (simp add: targets_only_def)
  have "spawns_none ?s" using pams reap_child_effects(2) [of _ e ch] by (auto simp: spawns_none_def)
  then have "observed a (Ends sid) ?s" using r waits targets by simp
  ultimately show ?thesis unfolding simulates_def by blast
qed

lemma close_simulates:
  assumes "agrees st a" "mon_inv st" "handle_close e st c = (st', resp, fds, effs)"
  shows "simulates a st' \<lparr>sv_env = e, sv_req = Close c, sv_resp = resp, sv_fds = fds, sv_eff = effs\<rparr>" (is "simulates _ _ ?s")
proof -
  let ?S = "sessions_of a c"
  let ?a = "a\<lparr>who := (who a)(c := None), running := (\<lambda>sid. if sid \<in> ?S then None else running a sid)\<rparr>"
  have own: "idx_owned (conn_sessions st) c = ?S" by (rule agrees_owned [OF assms(1,2)])
  obtain sids st0 where effs: "effs = snd (close_sessions e sids st0)" and sids: "set sids = ?S" and st0: "sessions st0 = sessions st"
    using assms(3) own by (auto simp: handle_close_def Let_def case_prod_unfold idx_take_conn_def idx_owned_def split: option.splits)
  have st': "st' = fst (handle_close e st c)" using assms(3) by simp
  have "agrees st' ?a"
    using assms(1) unfolding agrees_def st' handle_close_state own
    by (auto simp: sessions_of_def idx_owned_def split: if_splits)
  moreover have "targets_only (process_of a ?S) ?s"
    unfolding targets_only_def
  proof (intro ballI allI impI)
    fix eff p assume "eff \<in> set (sv_eff ?s)" "target eff = Some p"
    then obtain sid ch where "sid \<in> ?S" "sessions st sid = Some ch" "p = pid ch"
      using close_sessions_effects [of eff e sids st0] reap_child_effects(3) effs sids st0 by fastforce
    then show "p \<in> process_of a ?S" using agrees_process [OF assms(1)] by blast
  qed
  moreover have "spawns_none ?s"
    using close_sessions_effects [of _ e sids st0] reap_child_effects(2) effs by (fastforce simp: spawns_none_def)
  moreover have "Wait p \<in> set effs" if "p \<in> process_of a ?S" for p
    using process_of_agrees [OF assms(1) that] close_sessions_waits [of _ sids st0 _ e] effs sids st0 by fastforce
  ultimately show ?thesis unfolding simulates_def
    by (intro exI [of _ "Leaves c"] exI [of _ ?a]) (simp add: access_step.Leaves)
qed

lemma signal_simulates:
  assumes "agrees st a" "handle_signal st sid sig = (st', resp, fds, effs)"
  shows "simulates a st' \<lparr>sv_env = e, sv_req = SignalReq sid sig, sv_resp = resp, sv_fds = fds, sv_eff = effs\<rparr>" (is "simulates _ _ ?s")
proof (cases "sessions st sid")
  case None
  then show ?thesis using assms by (intro quiet_simulates) (auto simp: handle_signal_def spawns_none_def targets_only_def)
next
  case (Some ch)
  then have "running a sid \<noteq> None" using assms(1) by (simp add: agrees_def)
  then have "access_step a (Signals sid) a" by (rule access_step.Signals)
  moreover have "observed a (Signals sid) ?s"
    using Some assms(2) agrees_process [OF assms(1) _ Some, of "{sid}"] by (auto simp: handle_signal_def spawns_none_def targets_only_def)
  moreover have "agrees st' a" using assms by (auto simp: handle_signal_def)
  ultimately show ?thesis unfolding simulates_def by blast
qed

lemma handle_simulates:
  assumes "agrees st a" "mon_inv st" "unat (next_session st) + 1 < 2 ^ 64" "handle e st req = Ready (st', resp, fds, effs)"
  shows "simulates a st' \<lparr>sv_env = e, sv_req = req, sv_resp = resp, sv_fds = fds, sv_eff = effs\<rparr>" (is "simulates _ _ ?s")
proof (cases "spawn_conn req")
  case (Some c)
  from handle_spawn_cases [OF Some assms(4)] show ?thesis
  proof (elim disjE exE)
    assume "is_spawn_failure st (st', resp, fds, effs)"
    then show ?thesis using assms(1) by (intro quiet_simulates) (auto simp: is_spawn_failure_def spawns_none_def targets_only_def)
  qed (rule spawn_simulates [OF assms(1-3) Some])
next
  case None
  show ?thesis
  proof (cases req)
    case (Authenticate c auth peer b ans)
    then show ?thesis using authenticate_simulates [OF assms(1)] assms(4) by simp
  next
    case (Reap sid)
    then show ?thesis using reap_simulates [OF assms(1), of e sid st' resp fds effs] assms(4) by simp
  next
    case (Close c)
    then show ?thesis using close_simulates [OF assms(1,2), of e c st' resp fds effs] assms(4) by simp
  next
    case (SignalReq sid sig)
    then show ?thesis using signal_simulates [OF assms(1), of sid sig st' resp fds effs] assms(4) by simp
  qed (use None in simp_all)
qed

subsection \<open>Properties\<close>

text \<open>C5: the monitor implements the specification.  Every run of it, for fewer than 2^64 turns, is a run
  of the specification, turn by turn: the states agree on who is logged in and on the running sessions
  with their connections and processes; a session begins only for a spawn request on a connection with a
  user, as that user; processes are signalled and waited for only when they are those of a session
  that is being signalled, reaped or closed with its connection, and then they are waited for.\<close>

theorem monitor_implements_access:
  assumes "mon_run st tr" "length tr < 2 ^ 64"
  shows "\<exists>a h. access_run a h \<and> agrees st a \<and> list_all2 (\<lambda>(b, ev) s. observed b ev s) h tr"
  using assms
proof (induction rule: mon_run.induct)
  case Start
  have "agrees State_default \<lparr>who = Map.empty, running = Map.empty\<rparr>" by (simp add: agrees_def State_default_def)
  then show ?case using access_run.Start by fastforce
next
  case (Serve st tr e req st' resp fds effs)
  let ?s = "\<lparr>sv_env = e, sv_req = req, sv_resp = resp, sv_fds = fds, sv_eff = effs\<rparr>"
  from Serve obtain a h where run: "access_run a h" and ag: "agrees st a" and obs: "list_all2 (\<lambda>(b, ev) s. observed b ev s) h tr" by auto
  from mon_inv_run [OF Serve.hyps(1)] Serve.prems have inv: "mon_inv st" and n: "unat (next_session st) + 1 < 2 ^ 64" by auto
  from handle_simulates [OF ag inv n Serve.hyps(2)] obtain ev a' where "access_step a ev a'" "agrees st' a'" "observed a ev ?s"
    by (auto simp: simulates_def)
  then show ?case using access_run.Step [OF run] obs by (intro exI [of _ a'] exI [of _ "(a, ev) # h"]) simp
qed

lemma monitor_implements_access_witness:
  "\<exists>a h. access_run a h \<and> agrees demo_live a \<and> list_all2 (\<lambda>(b, ev) s. observed b ev s) h demo_trace \<and> running a 1 \<noteq> None"
proof -
  have "length demo_trace < 2 ^ 64" by (simp add: demo_trace_def)
  from monitor_implements_access [OF demo_run this] obtain a h where
    *: "access_run a h" "agrees demo_live a" "list_all2 (\<lambda>(b, ev) s. observed b ev s) h demo_trace" by blast
  moreover have "running a 1 \<noteq> None" using *(2) by (auto simp: agrees_def demo_live_def)
  ultimately show ?thesis by blast
qed

end
