(* ===== verification/System.thy ===== *)
theory System
  imports Transport Session
begin

text \<open>
  The server as a whole: the endpoint of \<^verbatim>\<open>transport.rs\<close> that numbers the connections, the monitor that keeps
  users, challenges and sessions by those numbers (\<^verbatim>\<open>monitor.rs\<close>), and the worker's table of parked
  connections (\<^verbatim>\<open>session.rs\<close>), with their steps interleaved in any order.
\<close>

subsection \<open>Steps\<close>

record System =
  sy_ep :: Endpoint
  sy_mon :: State
  sy_trace :: "served list"
  sy_park :: Parking

definition System_init :: System where
  "System_init = \<lparr>sy_ep = Endpoint_init, sy_mon = State_default, sy_trace = [], sy_park = Parking_new\<rparr>"

definition known :: "System \<Rightarrow> conn_id set" where
  "known s = set (map fst (live (sy_ep s)) @ closed (sy_ep s))"

text \<open>The connection a request is made for.\<close>

fun req_conn :: "Request \<Rightarrow> conn_id option" where
  "req_conn (Authenticate c _ _ _ _) = Some c"
| "req_conn (Close c) = Some c"
| "req_conn req = spawn_conn req"

text \<open>The task of a connection makes requests for it, and so do request tasks that outlive it; it is over
  once the monitor has been told to close it (\<^verbatim>\<open>run\<close> of \<^verbatim>\<open>transport.rs\<close>; a close that cannot be
  delivered means there is no monitor any more).  Its listeners park sockets for it.\<close>

inductive sys_step :: "System \<Rightarrow> System \<Rightarrow> bool" where
  Accept: "sys_step s (s\<lparr>sy_ep := accept_incoming now ip (sy_ep s)\<rparr>)"
| Answer: "c \<in> set (live (sy_ep s)) \<Longrightarrow> after_auth enc now (snd c) outcome (limiter (sy_ep s)) n = (r, rl, n') \<Longrightarrow>
    sys_step s (s\<lparr>sy_ep := (sy_ep s)\<lparr>limiter := rl\<rparr>\<rparr>)"
| Request: "(\<And>c. req_conn req = Some c \<Longrightarrow> c \<in> known s) \<Longrightarrow> handle e (sy_mon s) req = Ready (st', resp, fds, effs) \<Longrightarrow>
    sys_step s (s\<lparr>sy_mon := st',
      sy_trace := \<lparr>sv_env = e, sv_req = req, sv_resp = resp, sv_fds = fds, sv_eff = effs\<rparr> # sy_trace s\<rparr>)"
| Over: "c \<in> set (live (sy_ep s)) \<Longrightarrow> Close (fst c) \<in> sv_req ` set (sy_trace s) \<Longrightarrow>
    sys_step s (s\<lparr>sy_ep := connection_ended now c (sy_ep s)\<rparr>)"
| Park: "c \<in> known s \<Longrightarrow> sys_step s (s\<lparr>sy_park := snd (park_conn c tcp (sy_park s))\<rparr>)"
| Claim: "c \<in> known s \<Longrightarrow> sys_step s (s\<lparr>sy_park := snd (serve_remote_forward_data c cref (sy_park s))\<rparr>)"
| Expire: "sys_step s (s\<lparr>sy_park := expire_conn cref (sy_park s)\<rparr>)"

inductive sys_run :: "System \<Rightarrow> bool" where
  Start: "sys_run System_init"
| Step: "sys_run s \<Longrightarrow> sys_step s s' \<Longrightarrow> sys_run s'"

subsection \<open>Its parts\<close>

text \<open>Each part of the system runs as it does alone.\<close>

lemma sys_run_endpoint: "sys_run s \<Longrightarrow> endpoint_reach (sy_ep s)"
proof (induction rule: sys_run.induct)
  case Start
  show ?case by (simp add: System_init_def endpoint_reach.Start)
next
  case (Step s s')
  note reach = endpoint_reach.Step [OF Step.IH]
  from Step.hyps(2) show ?case
  proof (cases rule: sys_step.cases)
    case (Accept now ip)
    then show ?thesis using reach [OF endpoint_step.Accept, of now ip] by simp
  next
    case (Answer c enc now outcome n r rl n')
    then show ?thesis using reach [OF endpoint_step.Answered [OF Answer(2,3)]] by simp
  next
    case (Over c now)
    then show ?thesis using reach [OF endpoint_step.Ended [OF Over(2)], of now] by simp
  qed (use Step.IH in simp_all)
qed

lemma sys_run_monitor: "sys_run s \<Longrightarrow> mon_run (sy_mon s) (sy_trace s)"
proof (induction rule: sys_run.induct)
  case Start
  show ?case by (simp add: System_init_def mon_run.Start)
next
  case (Step s s')
  from Step.hyps(2) show ?case
  proof (cases rule: sys_step.cases)
    case (Request req e st' resp fds effs)
    then show ?thesis using mon_run.Serve [OF Step.IH Request(3)] by simp
  qed (use Step.IH in simp_all)
qed

text \<open>No connection is ever forgotten by the endpoint.\<close>

definition ep_known :: "Endpoint \<Rightarrow> conn_id set" where
  "ep_known ep = fst ` set (live ep) \<union> set (closed ep)"

lemma known_eq: "known s = ep_known (sy_ep s)"
  by (simp add: known_def ep_known_def)

lemma ep_known_mono:
  "ep_known ep \<subseteq> ep_known (accept_incoming now ip ep)" "ep_known ep \<subseteq> ep_known (connection_ended now c ep)"
  "ep_known (ep\<lparr>limiter := rl\<rparr>) = ep_known ep"
proof -
  show "ep_known ep \<subseteq> ep_known (accept_incoming now ip ep)"
    by (cases "admit now ip (limiter ep)"; cases "fst (admit now ip (limiter ep))") (auto simp: ep_known_def accept_incoming_def)
  have "x \<in> insert c (set (remove1 c (live ep)))" if "x \<in> set (live ep)" for x
    using that by (cases "x = c") simp_all
  then show "ep_known ep \<subseteq> ep_known (connection_ended now c ep)" by (fastforce simp: ep_known_def connection_ended_def)
qed (simp add: ep_known_def)

lemma known_mono: "sys_step s s' \<Longrightarrow> known s \<subseteq> known s'"
  by (induction rule: sys_step.induct) (simp_all add: known_eq ep_known_mono)

subsection \<open>Everything belongs to a connection that was accepted\<close>

lemma requests_known: "sys_run s \<Longrightarrow> x \<in> set (sy_trace s) \<Longrightarrow> req_conn (sv_req x) = Some c \<Longrightarrow> c \<in> known s"
proof (induction rule: sys_run.induct)
  case (Step s s')
  have "c \<in> known s \<or> x \<notin> set (sy_trace s)" using Step.IH Step.prems by blast
  moreover have "c \<in> known s" if "x \<notin> set (sy_trace s)"
    using Step.hyps(2) that Step.prems by (cases rule: sys_step.cases) auto
  ultimately show ?case using known_mono [OF Step.hyps(2)] by blast
qed (simp add: System_init_def)

lemma closed_told: "sys_run s \<Longrightarrow> c \<in> set (closed (sy_ep s)) \<Longrightarrow> Close c \<in> sv_req ` set (sy_trace s)"
proof (induction rule: sys_run.induct)
  case (Step s s')
  from Step.hyps(2) show ?case
  proof (cases rule: sys_step.cases)
    case (Accept now ip)
    have "closed (accept_incoming now ip (sy_ep s)) = closed (sy_ep s)"
      by (simp add: accept_incoming_def split: prod.split bool.split)
    then show ?thesis using Accept Step by simp
  next
    case (Over d now)
    then show ?thesis using Step by (auto simp: connection_ended_def)
  qed (use Step in simp_all)
qed (simp add: System_init_def Endpoint_init_def)

lemma handle_owned:
  assumes "handle e st req = Ready (st', resp, fds, effs)" "req_conn req \<noteq> Some c"
  shows "idx_owned (conn_sessions st') c \<subseteq> idx_owned (conn_sessions st) c"
proof (cases "spawn_conn req")
  case (Some d)
  then have "d \<noteq> c" using assms(2) by (cases req) auto
  then show ?thesis using handle_spawn_cases [OF Some assms(1)] by (auto simp: is_spawn_failure_def is_spawn_def ix.owned_ins)
next
  case None
  show ?thesis
  proof (cases req)
    case (Authenticate d auth peer b ans)
    then show ?thesis using assms(1) handle_authenticate_state(2) [of e st d auth peer b ans st' resp fds effs] by simp
  next
    case (Reap sid)
    have st': "st' = fst (handle_reap e st sid)" using assms(1) Reap by simp
    show ?thesis
    proof (cases "sessions st sid")
      case (Some ch)
      then show ?thesis by (simp add: st' handle_reap_state ix.owned_forget Diff_subset)
    qed (simp add: st' handle_reap_def)
  next
    case (Close d)
    have "st' = fst (handle_close e st d)" using assms(1) Close by simp
    then show ?thesis unfolding handle_close_state by (auto simp: idx_owned_def)
  next
    case (SignalReq sid sig)
    then show ?thesis using assms(1) by (auto simp: handle_signal_def)
  qed (use None in simp_all)
qed

lemma owned_requested: "mon_run st tr \<Longrightarrow> idx_owned (conn_sessions st) c \<noteq> {} \<Longrightarrow> \<exists>x \<in> set tr. req_conn (sv_req x) = Some c"
proof (induction rule: mon_run.induct)
  case Start
  then show ?case by (simp add: State_default_def idx_owned_def)
next
  case (Serve st tr e req st' resp fds effs)
  show ?case
  proof (cases "req_conn req = Some c")
    case False
    from handle_owned [OF Serve.hyps(2) False] Serve show ?thesis by auto
  qed simp
qed

lemma park_conn_for: "parked_for (snd (park_conn c tcp s)) d cref t \<Longrightarrow> d = c \<or> parked_for s d cref t"
  by (auto simp: park_conn_def parked_for_def Let_def update_conv' split: if_splits)

lemma parked_known: "sys_run s \<Longrightarrow> parked_for (sy_park s) c cref tcp \<Longrightarrow> c \<in> known s"
proof (induction rule: sys_run.induct)
  case (Step s s')
  have "c \<in> known s"
    using Step.hyps(2)
  proof (cases rule: sys_step.cases)
    case (Park d t)
    then show ?thesis using Step park_conn_for [of d t "sy_park s" c cref tcp] by auto
  next
    case (Claim d r)
    then have "parked_for (sy_park s) c cref tcp"
      using Step.prems by (auto simp: serve_remote_forward_data_def parked_for_def take_conn_map split: if_splits)
    then show ?thesis by (rule Step.IH)
  next
    case (Expire r)
    then have "parked_for (sy_park s) c cref tcp"
      using Step.prems by (auto simp: expire_conn_def parked_for_def AList.delete_conv split: if_splits)
    then show ?thesis by (rule Step.IH)
  qed (use Step in simp_all)
  then show ?case using known_mono [OF Step.hyps(2)] by blast
qed (simp add: System_init_def Parking_new_def parked_for_def)

subsection \<open>Properties\<close>

text \<open>C6: connections do not inherit from each other.  With fewer than 2^64 connections, whatever the
  order of the steps of endpoint, monitor and worker, the number the next connection gets has no user,
  no pending challenge, no session and no parked socket, and no request was ever made for it.  Whoever
  is bound to a number authenticated on the connection that had it; and if that connection is over, did
  so in a turn after the monitor had closed it.\<close>

theorem connections_isolated:
  assumes run: "sys_run s" and room: "length (live (sy_ep s)) + length (closed (sy_ep s)) + 1 < 2 ^ 64"
  shows "(let c = next_conn (sy_ep s) in
        users (sy_mon s) c = None \<and> challenges (sy_mon s) c = None \<and> idx_owned (conn_sessions (sy_mon s)) c = {}
      \<and> (\<forall>cref tcp. \<not> parked_for (sy_park s) c cref tcp) \<and> (\<forall>x \<in> set (sy_trace s). req_conn (sv_req x) \<noteq> Some c))
    \<and> (\<forall>d u. users (sy_mon s) d = Some u \<longrightarrow> d \<in> known s \<and> (\<exists>later x earlier. sy_trace s = later @ x # earlier \<and> grants x d u
        \<and> (\<forall>y \<in> set later. sv_req y \<noteq> Close d) \<and> (d \<in> set (closed (sy_ep s)) \<longrightarrow> Close d \<in> sv_req ` set earlier)))"
proof -
  define c and st where c_def: "c = next_conn (sy_ep s)" and st_def: "st = sy_mon s"
  have mon: "mon_run st (sy_trace s)" unfolding st_def by (rule sys_run_monitor [OF run])
  have fresh: "c \<notin> known s"
    using endpoint_reach_inv [OF sys_run_endpoint [OF run] room] unfolding c_def known_def endpoint_inv_def by (metis order_less_irrefl)
  have none: "req_conn (sv_req x) \<noteq> Some c" if "x \<in> set (sy_trace s)" for x
    using requests_known [OF run that] fresh by blast
  have bound: "d \<in> known s \<and> (\<exists>later x earlier. sy_trace s = later @ x # earlier \<and> grants x d u
      \<and> (\<forall>y \<in> set later. sv_req y \<noteq> Close d) \<and> (d \<in> set (closed (sy_ep s)) \<longrightarrow> Close d \<in> sv_req ` set earlier))"
    if u: "users st d = Some u" for d u
  proof -
    from users_authenticated [OF mon u] obtain later x earlier where tr: "sy_trace s = later @ x # earlier"
      and x: "grants x d u" and l: "\<forall>y \<in> set later. sv_req y \<noteq> Close d" by (auto simp: authenticated_def)
    have req: "\<exists>auth peer b ans. sv_req x = Authenticate d auth peer b ans" using x by (auto simp: grants_def)
    then have "d \<in> known s" using requests_known [OF run, of x d] tr by auto
    moreover have "Close d \<in> sv_req ` set earlier" if "d \<in> set (closed (sy_ep s))"
      using closed_told [OF run that] tr req l by auto
    ultimately show ?thesis using tr x l by blast
  qed
  have "users st c = None" using bound [of c] fresh by (cases "users st c") auto
  moreover have "challenges st c = None"
  proof (cases "challenges st c")
    case (Some p)
    then obtain cst t where "challenges st c = Some (cst, t)" by (cases p) auto
    from challenges_issued [OF mon this] none show ?thesis by (fastforce simp: issued_def parks_def)
  qed
  moreover have "idx_owned (conn_sessions st) c = {}" using owned_requested [OF mon, of c] none by blast
  moreover have "\<not> parked_for (sy_park s) c cref tcp" for cref tcp using parked_known [OF run] fresh by blast
  ultimately show ?thesis using none bound unfolding Let_def c_def st_def by blast
qed

definition demo_system :: System where
  "demo_system = System_init
     \<lparr>sy_ep := accept_incoming 5 (V4 1) Endpoint_init, sy_mon := demo_authed, sy_trace := tl demo_trace\<rparr>"

lemma demo_system_run: "sys_run demo_system"
proof -
  let ?s = "System_init\<lparr>sy_ep := accept_incoming 5 (V4 1) (sy_ep System_init)\<rparr>"
  have s: "sys_run ?s" by (rule sys_run.Step [OF sys_run.Start sys_step.Accept])
  have k: "ep_known (accept_incoming 5 (V4 1) Endpoint_init) = {1}" unfolding ep_known_def by code_simp
  have "handle demo_env (sy_mon ?s) (Authenticate 1 None [] [] None) = Ready (demo_authed, VerdictR True, [], [])"
    by (simp add: handle_authenticate_def auth_conn_info_def demo_env_def demo_authed_def State_default_def System_init_def)
  moreover have "c \<in> known ?s" if "req_conn (Authenticate 1 None [] [] None) = Some c" for c
    using that k by (simp add: known_eq System_init_def)
  ultimately have "sys_step ?s demo_system"
    using sys_step.Request [of "Authenticate 1 None [] [] None" ?s demo_env demo_authed "VerdictR True" "[]" "[]"]
    by (simp add: demo_system_def demo_trace_def System_init_def)
  with s show ?thesis by (rule sys_run.Step)
qed

lemma connections_isolated_witness:
  "users (sy_mon demo_system) 1 = Some ''al'' \<and> next_conn (sy_ep demo_system) = 2 \<and> users (sy_mon demo_system) 2 = None
   \<and> 1 \<in> known demo_system"
proof -
  have e: "sy_ep demo_system = accept_incoming 5 (V4 1) Endpoint_init" by (simp add: demo_system_def)
  have l: "map fst (live (sy_ep demo_system)) = [1]" "closed (sy_ep demo_system) = []" "next_conn (sy_ep demo_system) = 2"
    unfolding e by code_simp+
  then have "length (live (sy_ep demo_system)) = 1" by (metis length_map length_Cons list.size(3) One_nat_def)
  with l have "length (live (sy_ep demo_system)) + length (closed (sy_ep demo_system)) + 1 < 2 ^ 64" by simp
  moreover have "users (sy_mon demo_system) 1 = Some ''al''" by (simp add: demo_system_def demo_authed_def)
  ultimately show ?thesis using connections_isolated [OF demo_system_run] l by (auto simp: Let_def)
qed

end
