(* ===== verification/Handshake.thy ===== *)
theory Handshake
  imports Server_Config Client_Endpoint
begin

text \<open>
  What client and server bring to a TLS handshake, from the files of both: the identity the monitor
  loads, the certificate the worker shows, the signature the monitor makes for it, and the client's checks.
\<close>

subsection \<open>Lemmas\<close>

text \<open>One signature of the worker's endpoint, made by the monitor's signing thread.\<close>

definition monitor_signs ::
  "(SignRequest \<Rightarrow> 'pe + byte list) \<Rightarrow> (byte list \<Rightarrow> 'pe + SignRequest) \<Rightarrow> (SignResponse \<Rightarrow> 'pe + byte list) \<Rightarrow> (byte list \<Rightarrow> 'pe + SignResponse) \<Rightarrow>
     SigningKey \<Rightarrow> nanos \<Rightarrow> SignThread \<Rightarrow> ProxyThread \<Rightarrow> byte list \<Rightarrow> byte list option" where
  "monitor_signs enc_req dec_req enc_resp dec_resp key now th p msg =
     Option.bind (res_ok (sign_write enc_req \<lparr>sign_message = msg\<rparr>)) (\<lambda>bytes.
     case sign_conn dec_req enc_resp key SCHEME False [now] bytes th of (out, _, left, th) \<Rightarrow>
       res_ok (fst (proxy_sign (fst (sign_once enc_req dec_resp True left msg out)) True p)))"

lemma monitor_signs_signature:
  assumes codec: "\<And>r b. enc_req r = Inr b \<Longrightarrow> dec_req b = Inr r" "\<And>r b. enc_resp r = Inr b \<Longrightarrow> dec_resp b = Inr r"
    and fits: "sign_write enc_req \<lparr>sign_message = msg\<rparr> = Inr bytes" "sign_write enc_resp (Signature sig) = Inr out"
    and "sign_with key SCHEME msg = Some sig" "fst (allow now (throttle th))" "alive p"
  shows "monitor_signs enc_req dec_req enc_resp dec_resp key now th p msg = Some sig"
proof -
  obtain th' where t: "sign_turn key SCHEME now \<lparr>sign_message = msg\<rparr> th = (Signature sig, th')"
    using assms(5,6) by (cases "allow now (throttle th)") (auto simp: sign_turn_def Let_def)
  note rt = proxy_roundtrip [OF codec fits t \<open>alive p\<close>]
  show ?thesis unfolding monitor_signs_def using rt by (simp add: fits del: sign_conn.simps)
qed

text \<open>A server started again with the key file of an earlier one has the same identity.\<close>

lemma identity_kept:
  assumes first: "monitor_run mos b64 a inherited cfg fs = (Inr m, fs')" and p: "mc_host_key cfg = Some p" "with_extension p ''crt'' \<noteq> p"
    and second: "monitor_run mos' b64' a' inherited' cfg' fs'' = (Inr m', fs''')" and p': "mc_host_key cfg' = Some p"
    and kept: "fs'' p = fs' p" "fs'' (with_extension p ''crt'') = fs' (with_extension p ''crt'')"
  shows "mr_cert m' = mr_cert m \<and> mr_key m' = mr_key m"
proof -
  from monitor_run_serving [OF first] p host_identity_stored obtain n n'
    where f: "fs'' p = Some (n, mr_key m)" "fs'' (with_extension p ''crt'') = Some (n', mr_cert m)" by (metis kept)
  from monitor_run_serving [OF second] p' have "host_identity (os_identity mos') (Some p) fs'' = (Inr (mr_cert m', mr_key m'), fs''')" by simp
  then show ?thesis using f by (auto simp: host_identity_def Let_def split: if_splits)
qed

lemma worker_run_endpoint:
  assumes "monitor_run mos b64 a inherited cfg fs = (Inr m, fs')" "worker_run unb64 os k (mr_worker_env m) c = Inr w"
    and "\<And>bs. unb64 (b64 bs) = Some bs" "parse_socket_addr (show_socket_addr (mc_listen cfg)) = Some (mc_listen cfg)"
  shows "worker_endpoint (sys_quic os) (sys_sign os) SCHEME (mr_cert m) (mc_listen cfg) = Inr (sv_endpoint w)"
proof -
  have "worker_run unb64 os k (inherited ++ worker_env b64 cfg (mr_sock_dir m) (mr_cert m)) c = Inr w"
    using monitor_run_serving [OF assms(1)] assms(2) by simp
  from worker_run_handed [OF assms(3,4) this] show ?thesis by auto
qed

subsection \<open>Properties\<close>

text \<open>C7: a client that has accepted and pinned a server's certificate recognises the server after a
  restart.  The monitor loads the persisted key, hands the worker its certificate, and signs for it;
  the client, whatever it connected to in between, accepts the certificate the new worker shows without
  asking, finds a scheme of its own in the worker's key, and its check accepts the signature of the
  handshake; both sides speak the same protocol.  The signing thread has a token left; the codec fits the
  signing stream; a signature made with the key of the host passes the check for the host's certificate.\<close>

theorem server_recognised_after_restart:
  assumes first: "monitor_run mos b64 a inherited cfg fs = (Inr m, fs')" "worker_run unb64 os k (mr_worker_env m) c = Inr w"
    and again: "monitor_run mos' b64 a' inherited' cfg' fs'' = (Inr m', fs''')" "worker_run unb64 os' k' (mr_worker_env m') c' = Inr w'"
    and key: "mc_host_key cfg = Some p" "mc_host_key cfg' = Some p" "with_extension p ''crt'' \<noteq> p"
      "fs'' p = fs' p" "fs'' (with_extension p ''crt'') = fs' (with_extension p ''crt'')"
    and b64: "\<And>bs. unb64 (b64 bs) = Some bs"
    and listen: "parse_socket_addr (show_socket_addr (mc_listen cfg)) = Some (mc_listen cfg)"
      "parse_socket_addr (show_socket_addr (mc_listen cfg')) = Some (mc_listen cfg')"
    and client: "endpoint lib e h = Inr ce" "list_all graphic h"
    and accepted: "ts_resolver (se_tls (sv_endpoint w)) hello = Some ck" "\<not> tv_webpki (ce_verifier ce) (hd (ck_chain ck)) [] name"
      "tofu_verify_server_cert sha256 (ce_verifier ce) (hd (ck_chain ck)) [] name tty wrote kh = (Inr (), kh')"
      "kh_readable kh" "\<And>s. kh_contents kh = Some s \<Longrightarrow> utf8_valid (as_bytes s) \<and> ends_line s"
    and since: "list_all (spares h) events" "kh'' = fold (kh_step sha256) events kh'"
    and codec: "\<And>r b. enc_req r = Inr b \<Longrightarrow> dec_req b = Inr r" "\<And>r b. enc_resp r = Inr b \<Longrightarrow> dec_resp b = Inr r"
      "sign_write enc_req \<lparr>sign_message = msg\<rparr> = Inr bytes" "sign_write enc_resp (Signature sig) = Inr out"
    and signs: "sys_sign os' = monitor_signs enc_req dec_req enc_resp dec_resp (mr_signing_key m') now th pt"
      "fst (allow now (throttle th))" "alive pt" "sign_with (mr_signing_key m') SCHEME msg = Some sig"
    and crypto: "SCHEME \<in> set (cp_schemes (cl_provider lib))"
      "\<And>signer s. os_load_key mos' (mr_key m) = Some signer \<Longrightarrow> sign_with signer SCHEME msg = Some s \<Longrightarrow>
         cp_verify13 (cl_provider lib) msg (mr_cert m) \<lparr>dss_scheme = SCHEME, dss_sig = s\<rparr>"
  shows "\<exists>ck' sign. ts_resolver (se_tls (sv_endpoint w')) hello' = Some ck' \<and> ck_chain ck' = [mr_cert m]
    \<and> tofu_verify_server_cert sha256 (ce_verifier ce) (hd (ck_chain ck')) [] name' tty' wrote' kh'' = (Inr (), kh'')
    \<and> choose_scheme (ck_key ck') (supported_verify_schemes (ce_verifier ce)) = Some sign
    \<and> sign msg = Some sig
    \<and> verify_tls13_signature (ce_verifier ce) msg (hd (ck_chain ck')) \<lparr>dss_scheme = SCHEME, dss_sig = sig\<rparr>
    \<and> ts_alpn (se_tls (sv_endpoint w')) = ce_alpn ce"
proof -
  note made = endpoint_made [OF client(1)]
  from identity_kept [OF first(1) key(1,3) again(1) key(2,4,5)] have id: "mr_cert m' = mr_cert m" "mr_key m' = mr_key m" by simp_all
  have ep: "worker_endpoint (sys_quic os) (sys_sign os) SCHEME (mr_cert m) (mc_listen cfg) = Inr (sv_endpoint w)"
    by (rule worker_run_endpoint [OF first b64 listen(1)])
  have ep': "worker_endpoint (sys_quic os') (sys_sign os') SCHEME (mr_cert m) (mc_listen cfg') = Inr (sv_endpoint w')"
    using worker_run_endpoint [OF again b64 listen(2)] id by simp
  from worker_endpoint_key [OF ep, of hello] accepted(1) have ck: "hd (ck_chain ck) = mr_cert m" by auto
  from worker_endpoint_key [OF ep', of hello' "supported_verify_schemes (ce_verifier ce)"] crypto(1) obtain ck'
    where ck': "ts_resolver (se_tls (sv_endpoint w')) hello' = Some ck'" "ck_chain ck' = [mr_cert m]"
      "choose_scheme (ck_key ck') (supported_verify_schemes (ce_verifier ce)) = Some (sys_sign os')"
    by (auto simp: supported_verify_schemes_def made)
  have "verify_server_cert sha256 False tty wrote h (mr_cert m) kh = (Inr (), kh')"
    using accepted(2,3) by (simp add: tofu_verify_server_cert_def ck made)
  then have "durable_pin kh' h (cert_fingerprint sha256 (mr_cert m))"
    by (rule accepted_pin_durable) (use accepted(4,5) client(2) in auto)
  from kh.pinned_run [OF this since(1), of sha256]
  have pinned: "tofu_verify_server_cert sha256 (ce_verifier ce) (mr_cert m) [] name' tty' wrote' kh'' = (Inr (), kh'')"
    by (simp add: tofu_verify_server_cert_def verify_server_cert_def Let_def made since(2))
  have signed: "sys_sign os' msg = Some sig"
    unfolding signs(1) by (rule monitor_signs_signature [OF codec signs(4,2,3)])
  have "os_load_key mos' (mr_key m) = Some (mr_signing_key m')" using monitor_run_serving [OF again(1)] id by simp
  then have "verify_tls13_signature (ce_verifier ce) msg (mr_cert m) \<lparr>dss_scheme = SCHEME, dss_sig = sig\<rparr>"
    unfolding verify_tls13_signature_def made by (rule crypto(2)) (rule signs(4))
  moreover have "ts_alpn (se_tls (sv_endpoint w')) = ce_alpn ce"
    using worker_endpoint_limits [OF ep'] by (simp add: server_limits_def made)
  ultimately show ?thesis using ck' pinned signed by auto
qed

definition demo_request :: "SignRequest \<Rightarrow> unit + byte list" where
  "demo_request r = Inr (sign_message r)"

definition demo_response :: "SignResponse \<Rightarrow> unit + byte list" where
  "demo_response r = Inr (case r of Signature s \<Rightarrow> 1 # s | SignFailed \<Rightarrow> [])"

definition demo_signing :: WorkerSys where
  "demo_signing = demo_sys\<lparr>sys_sign := monitor_signs demo_request (\<lambda>b. Inr \<lparr>sign_message = b\<rparr>) demo_response
     (\<lambda>b. Inr (if b = [] then SignFailed else Signature (tl b))) \<lparr>choose_scheme = (\<lambda>_. Some Some)\<rparr> 0 (SignThread_new 0) \<lparr>alive = True\<rparr>\<rparr>"

definition demo_start :: "mode_files \<Rightarrow> (monitor_error + Monitoring) \<times> mode_files" where
  "demo_start = monitor_run demo_mon_sys (map byte_char) demo_auth Map.empty (merge_config demo_args FileConfig_default)"

definition demo_worker :: "Monitoring \<Rightarrow> worker_error + WorkerServing" where
  "demo_worker m = worker_run (\<lambda>s. Some (as_bytes s)) demo_signing demo_kernel (mr_worker_env m) root_cred"

lemma demo_started:
  obtains m fs w m' fs' w' where "demo_start Map.empty = (Inr m, fs)" "demo_worker m = Inr w"
    "demo_start fs = (Inr m', fs')" "demo_worker m' = Inr w'" "mr_cert m = [7]"
    "mr_signing_key m' = \<lparr>choose_scheme = (\<lambda>_. Some Some)\<rparr>"
proof -
  let ?m = "demo_start Map.empty"
  let ?m' = "demo_start (snd ?m)"
  have "\<not> isl (fst ?m)" "\<not> isl (demo_worker (projr (fst ?m)))" "\<not> isl (fst ?m')" "\<not> isl (demo_worker (projr (fst ?m')))"
    "mr_cert (projr (fst ?m)) = [7]" by code_simp+
  moreover have "os_load_key demo_mon_sys key = Some \<lparr>choose_scheme = (\<lambda>_. Some Some)\<rparr>" for key by (simp add: demo_mon_sys_def)
  ultimately show ?thesis
    using that [of "projr (fst ?m)" "snd ?m" "projr (demo_worker (projr (fst ?m)))" "projr (fst ?m')" "snd ?m'" "projr (demo_worker (projr (fst ?m')))"]
      monitor_run_serving [of demo_mon_sys "map byte_char" demo_auth Map.empty "merge_config demo_args FileConfig_default" "snd ?m" "projr (fst ?m')" "snd ?m'"]
    by (simp add: prod_eq_iff demo_start_def sum.expand)
qed

lemma server_recognised_after_restart_witness:
  "\<exists>m fs w m' fs' w' ck' sign. demo_start Map.empty = (Inr m, fs) \<and> demo_worker m = Inr w
    \<and> demo_start fs = (Inr m', fs') \<and> demo_worker m' = Inr w' \<and> ts_resolver (se_tls (sv_endpoint w')) None = Some ck' \<and> ck_chain ck' = [[7]]
    \<and> choose_scheme (ck_key ck') (supported_verify_schemes (ce_verifier demo_ce)) = Some sign \<and> sign [1, 2] = Some [1, 2]
    \<and> verify_tls13_signature (ce_verifier demo_ce) [1, 2] [7] \<lparr>dss_scheme = SCHEME, dss_sig = [1, 2]\<rparr>"
proof -
  obtain m fs w m' fs' w' where start: "demo_start Map.empty = (Inr m, fs)" "demo_worker m = Inr w"
      "demo_start fs = (Inr m', fs')" "demo_worker m' = Inr w'" "mr_cert m = [7]"
      and signer: "mr_signing_key m' = \<lparr>choose_scheme = (\<lambda>_. Some Some)\<rparr>" by (rule demo_started)
  note run = start(1,3) [unfolded demo_start_def] start(2,4) [unfolded demo_worker_def]
  let ?cfg = "merge_config demo_args FileConfig_default"
  have cfg: "mc_host_key ?cfg = Some ''/k.der''" "with_extension ''/k.der'' ''crt'' \<noteq> ''/k.der''"
    "parse_socket_addr (show_socket_addr (mc_listen ?cfg)) = Some (mc_listen ?cfg)" by code_simp+
  have b: "Some (as_bytes (map byte_char bs)) = Some bs" for bs by (simp add: as_bytes_def comp_def)
  have ce: "endpoint demo_client [''HOME'' \<mapsto> ''/h''] ''b:2'' = Inr demo_ce"
    by (simp add: demo_ce_def endpoint_def demo_client_def known_hosts_path_def ok_or_def Let_def)
  note made = endpoint_made [OF ce]
  have webpki: "\<not> tv_webpki (ce_verifier demo_ce) x y z" for x y z
    by (simp add: demo_ce_def endpoint_def demo_client_def known_hosts_path_def ok_or_def Let_def)
  have ep: "worker_endpoint (sys_quic demo_signing) (sys_sign demo_signing) SCHEME (mr_cert m) (mc_listen ?cfg) = Inr (sv_endpoint w)"
    by (rule worker_run_endpoint [OF run(1,3) b cfg(3)])
  from worker_endpoint_key [OF ep, of None] start(5) obtain ck
    where ck: "ts_resolver (se_tls (sv_endpoint w)) None = Some ck" "ck_chain ck = [[7]]" by auto
  let ?v = "verify_server_cert id False (Some [Some ''yes'']) (Some 99) ''b:2'' [7] demo_hosts"
  have "fst ?v = Inr ()" by code_simp
  then have v: "tofu_verify_server_cert id (ce_verifier demo_ce) (hd (ck_chain ck)) [] [] (Some [Some ''yes'']) (Some 99) demo_hosts = (Inr (), snd ?v)"
    by (simp add: tofu_verify_server_cert_def webpki made ck(2) prod_eq_iff)
  have kh: "kh_readable demo_hosts" "list_all graphic ''b:2''" "utf8_valid (as_bytes (the (kh_contents demo_hosts)))"
    "ends_line (the (kh_contents demo_hosts))" by code_simp+
  have crypto: "SCHEME \<in> set (cp_schemes (cl_provider demo_client))" by (simp add: demo_client_def SCHEME_def)
  have fits: "sign_write demo_request \<lparr>sign_message = [1, 2]\<rparr> = Inr (projr (sign_write demo_request \<lparr>sign_message = [1, 2]\<rparr>))"
    "sign_write demo_response (Signature [1, 2]) = Inr (projr (sign_write demo_response (Signature [1, 2])))"
    "fst (allow 0 (throttle (SignThread_new 0)))" by code_simp+
  have u: "utf8_valid (as_bytes s) \<and> ends_line s" if "kh_contents demo_hosts = Some s" for s using kh(3,4) that by simp
  have codec: "Inr \<lparr>sign_message = y\<rparr> = (Inr r :: unit + SignRequest)" if "demo_request r = Inr y" for r y
    using that by (auto simp: demo_request_def)
  have codec': "Inr (if y = [] then SignFailed else Signature (tl y)) = (Inr r :: unit + SignResponse)" if "demo_response r = Inr y" for r y
    using that by (cases r) (auto simp: demo_response_def)
  have sign: "sign_with (mr_signing_key m') SCHEME [1, 2] = Some [1, 2]" by (simp add: signer sign_with_def)
  have checked: "cp_verify13 (cl_provider demo_client) [1, 2] (mr_cert m) \<lparr>dss_scheme = SCHEME, dss_sig = s\<rparr>"
    if "os_load_key demo_mon_sys (mr_key m) = Some sg" "sign_with sg SCHEME [1, 2] = Some s" for sg s
    using that by (auto simp: demo_client_def start(5) demo_mon_sys_def sign_with_def)
  have demo: "sys_sign demo_signing = monitor_signs demo_request (\<lambda>b. Inr \<lparr>sign_message = b\<rparr>) demo_response
     (\<lambda>b. Inr (if b = [] then SignFailed else Signature (tl b))) (mr_signing_key m') 0 (SignThread_new 0) \<lparr>alive = True\<rparr>"
    by (simp add: demo_signing_def signer)
  have "\<exists>ck' sign. ts_resolver (se_tls (sv_endpoint w')) None = Some ck' \<and> ck_chain ck' = [mr_cert m]
      \<and> tofu_verify_server_cert id (ce_verifier demo_ce) (hd (ck_chain ck')) [] [] None None (snd ?v) = (Inr (), snd ?v)
      \<and> choose_scheme (ck_key ck') (supported_verify_schemes (ce_verifier demo_ce)) = Some sign \<and> sign [1, 2] = Some [1, 2]
      \<and> verify_tls13_signature (ce_verifier demo_ce) [1, 2] (hd (ck_chain ck')) \<lparr>dss_scheme = SCHEME, dss_sig = [1, 2]\<rparr>
      \<and> ts_alpn (se_tls (sv_endpoint w')) = ce_alpn demo_ce"
    by (rule server_recognised_after_restart [where events = "[]", OF run(1,3,2,4) cfg(1,1,2) refl refl b cfg(3,3) ce kh(2) ck(1) webpki
          v kh(1) u _ _ codec codec' fits(1,2) demo fits(3) _ sign crypto])
      (simp_all add: checked)
  then show ?thesis using start by fastforce
qed

end
