(* ===== verification/Keygen.thy ===== *)
theory Keygen
  imports Client_Target Rust_Utf8
begin

text \<open>
  A key from \<^verbatim>\<open>quish keygen\<close> to the login with it: \<^verbatim>\<open>generate_keypair\<close> of \<^verbatim>\<open>quish-auth/src/pubkey.rs\<close>, the files
  of \<^verbatim>\<open>run_keygen\<close>, the token of \<^verbatim>\<open>build_authorization\<close> (\<^verbatim>\<open>quish-client/src/main.rs\<close>) and the server's check of it.
\<close>

subsection \<open>Lines\<close>

lemma trim_end_keeps: "graphic (hd s) \<Longrightarrow> s \<noteq> [] \<Longrightarrow> trim_end s \<noteq> [] \<and> hd (trim_end s) = hd s"
proof (induction s rule: trim_end.induct)
  case (1 s)
  show ?case
  proof (cases "ws_last s")
    case (Some w)
    then have w: "w \<in> set ws_seqs" "suffix w s" "0 < length w" using ws_last_shrinks by blast+
    have "length w < length s"
    proof (rule ccontr)
      assume "\<not> length w < length s"
      then have "w = s" using w(2) by (auto simp: suffix_def)
      then show False using w(1) 1(2,3) ws_seqs_not_graphic [of w "hd s"] by simp
    qed
    then have t: "take (length s - length w) s \<noteq> []" "hd (take (length s - length w) s) = hd s" using 1(3) by (auto simp: hd_take)
    with 1 Some show ?thesis by (simp add: trim_end.simps [of s])
  qed (use 1 in \<open>simp add: trim_end.simps [of s]\<close>)
qed

lemma trim_keeps: "graphic (hd s) \<Longrightarrow> s \<noteq> [] \<Longrightarrow> trim s \<noteq> [] \<and> hd (trim s) = hd s"
  by (simp add: trim_def trim_start_graphic trim_end_keeps)

lemma trim_strip_cr: "trim (strip_cr l) = trim l"
proof (cases "l \<noteq> [] \<and> last l = CHR 0x0D")
  case True
  then have "trim l = trim (butlast l @ [CHR 0x0D])" by (metis append_butlast_last_id)
  then show ?thesis using True by (simp add: strip_cr_def trim_snoc_cr)
qed (auto simp: strip_cr_def)

lemma lines_appended:
  assumes "ends_line before" "CHR 0x0A \<notin> set l"
  shows "strip_cr l \<in> set (lines (before @ l @ [CHR 0x0A]))"
proof -
  have "lines (l @ [CHR 0x0A]) = [strip_cr l]"
    using split_on_append [of "CHR 0x0A" l "[]"] assms(2) by (simp add: lines_def Let_def split_on_id)
  then show ?thesis by (simp add: lines_append [OF assms(1)])
qed

subsection \<open>The generated files\<close>

text \<open>The private key is a new file that only its owner can read; nothing but the two files changes.\<close>

lemma run_keygen_files:
  assumes "run_keygen io lib e output comment fs = (Inr pub_line, fs')"
  shows "\<exists>path sk pem. keygen_output e output = Inr path \<and> fs path = None \<and> ssh_random lib = Some sk
    \<and> ssh_private_openssh lib (sk, keygen_comment e comment) = Some pem \<and> ssh_public_openssh lib (sk, keygen_comment e comment) = Some pub_line
    \<and> fs' path = Some (0x180, pem) \<and> (\<exists>m. fs' (path @ ''.pub'') = Some (m, pub_line @ [CHR 0x0A]))
    \<and> (\<forall>p. p \<noteq> path \<longrightarrow> p \<noteq> path @ ''.pub'' \<longrightarrow> fs' p = fs p)"
proof -
  obtain path where p: "keygen_output e output = Inr path" using assms by (cases "keygen_output e output") (auto simp: run_keygen_def)
  obtain pem l where g: "generate_keypair lib (keygen_comment e comment) = Inr (pem, l)"
    using assms p by (cases "generate_keypair lib (keygen_comment e comment)") (auto simp: run_keygen_def)
  then obtain sk where k: "ssh_random lib = Some sk" "ssh_private_openssh lib (sk, keygen_comment e comment) = Some pem"
      "ssh_public_openssh lib (sk, keygen_comment e comment) = Some l"
    by (cases "ssh_random lib"; cases "ssh_private_openssh lib (the (ssh_random lib), keygen_comment e comment)";
        cases "ssh_public_openssh lib (the (ssh_random lib), keygen_comment e comment)")
      (auto simp: generate_keypair_def ok_or_def Let_def)
  from assms p g have "fs path = None" "pub_line = l"
    "fs' = fs(path \<mapsto> (0x180, pem), path @ ''.pub'' \<mapsto> (case (fs(path \<mapsto> (0x180, pem))) (path @ ''.pub'') of Some (m, _) \<Rightarrow> m | None \<Rightarrow> 0x1A4, l @ [CHR 0x0A]))"
    by (cases "fs path", auto simp: run_keygen_def Let_def split: if_splits option.splits)+
  then show ?thesis using p k by (intro exI [of _ path] exI [of _ sk] exI [of _ pem]) (simp split: option.splits prod.splits)
qed

subsection \<open>Properties\<close>

text \<open>C13: a key made by \<^verbatim>\<open>quish keygen\<close> logs its owner in.  Once the printed line has been appended to the user's
  \<^verbatim>\<open>authorized_keys\<close>, whatever complete lines the file had before, the credentials the client makes from the
  private key file for a connection are let in on that connection by every registry whose policy permits the
  user and in which no earlier backend takes tokens.  The comment is one line; the key formats parse back, the token can be encoded,
  and the clocks agree within the window.\<close>

theorem generated_key_logs_in:
  fixes to_vec :: "Token \<Rightarrow> 'pe + byte list"
  assumes gen: "run_keygen io lib ke output comment files = (Inr pub_line, files')" "keygen_output ke output = Inr path"
      "CHR 0x0A \<notin> set (keygen_comment ke comment)"
    and ssh: "\<And>sk c pem. ssh_private_openssh lib (sk, c) = Some pem \<Longrightarrow> parse_private (as_bytes pem) = Some (Some sk)"
      "\<And>sk c l. ssh_public_openssh lib (sk, c) = Some l \<Longrightarrow> ssh_from_openssh env (trim l) = Inr (Some (vk sk))"
      "\<And>sk c l. ssh_public_openssh lib (sk, c) = Some l \<Longrightarrow> prefix ''ssh-ed25519 '' l"
      "\<And>sk c l. ssh_public_openssh lib (sk, c) = Some l \<Longrightarrow> CHR 0x0A \<notin> set c \<Longrightarrow> CHR 0x0A \<notin> set l"
    and base64: "base64_law enc dec"
    and postcard: "\<And>sk. ssh_random lib = Some sk \<Longrightarrow> \<exists>bs. to_vec \<lparr>tok_username = u, pubkey = vk sk, timestamp = now,
        signature = sign sk (signing_payload (channel_binding conn) u now)\<rparr> = Inr bs" "\<And>t bs. to_vec t = Inr bs \<Longrightarrow> from_bytes bs = Inr t"
    and ed25519: "\<And>sk m. ed_verify env (vk sk) m (sign sk m)" "\<And>sk m. length (sign sk m) = 64" "\<And>sk. vk_from_bytes env (vk sk)"
    and installed: "resolver env u = Some keys" "pk_fs env keys = Some (Regular (as_bytes (before @ pub_line @ [CHR 0x0A])))" "ends_line before"
      "length (before @ pub_line @ [CHR 0x0A]) \<le> MAX_AUTHORIZED_KEYS_BYTES" "utf8_valid (as_bytes (before @ pub_line @ [CHR 0x0A]))"
    and client: "e ''QUISH_OIDC_TOKEN'' = None" "read path = map_option (as_bytes \<circ> snd) (files' path)"
    and clock: "abs_diff64 now (now_secs env) \<le> TIMESTAMP_WINDOW_SECS"
    and registry: "backends reg = pre @ PubkeyBackend env # post" "\<And>b t. b \<in> set pre \<Longrightarrow> \<not> supports b (SignedToken t)" "permits (policy reg) u"
  shows "\<exists>header. build_authorization enc (build_token enc to_vec sign vk parse_private now) e read prompt u (Some path) (channel_binding conn)
      = Some (Inr header) \<and> verdict (parse_authorization dec from_bytes) reg (Some header) conn = Ready (Allow u)"
proof -
  from run_keygen_files [OF gen(1)] gen(2) obtain sk pem where k: "files' path = Some (0x180, pem)"
      "ssh_private_openssh lib (sk, keygen_comment ke comment) = Some pem"
      "ssh_public_openssh lib (sk, keygen_comment ke comment) = Some pub_line" "ssh_random lib = Some sk" by auto
  from postcard(1) [OF k(4)] obtain blob where mint: "sign_token enc to_vec sign vk sk u (channel_binding conn) now = Some blob"
    by (fastforce simp: sign_token_def Let_def)
  have header: "build_authorization enc (build_token enc to_vec sign vk parse_private now) e read prompt u (Some path) (channel_binding conn)
      = Some (Inr (bearer_header blob))"
    using mint by (simp add: build_authorization_def build_token_def client k ssh(1) [OF k(2)])
  obtain rest where l: "pub_line = ''ssh-ed25519 '' @ rest" using ssh(3) [OF k(3)] by (auto simp: prefix_def)
  have "trim pub_line \<noteq> [] \<and> hd (trim pub_line) = CHR ''s''"
    using trim_keeps [of pub_line] by (simp add: l graphic_def)
  then have listed: "key_line_matches (ssh_from_openssh env) (strip_cr pub_line) (vk sk)"
    using ssh(2) [OF k(3)] by (auto simp: key_line_matches_Some trim_strip_cr prefix_def)
  have "verdict (parse_authorization dec from_bytes) reg (Some (bearer_header blob)) conn = Ready (Allow u)"
    by (rule pubkey_login_succeeds [where to_vec = to_vec, OF base64 postcard(2) ed25519 mint clock installed(1,2,4,5)
          lines_appended [OF installed(3) ssh(4) [OF k(3) gen(3)]] listed registry])
  then show ?thesis using header by blast
qed

lemma generated_key_logs_in_witness:
  "\<exists>header. verdict (parse_authorization nibble_decode (\<lambda>_. Inr \<lparr>tok_username = ''al'', pubkey = [1],
       timestamp = 9, signature = replicate 64 1\<rparr> :: unit + Token))
     (Registry_new [PubkeyBackend \<lparr>now_secs = 9,
        pk_fs = (\<lambda>_. Some (Regular (as_bytes (''#'' @ [CHR 0x0A] @ ''ssh-ed25519 k'' @ [CHR 0x0A])))),
        resolver = (\<lambda>_. Some ''f''), ssh_from_openssh = (\<lambda>_. Inr (Some [1])), vk_from_bytes = (\<lambda>_. True),
        ed_verify = (\<lambda>_ _ sg. sg = replicate 64 1)\<rparr>] 0 \<lparr>allow_users = [], deny_users = []\<rparr>)
     (Some header) \<lparr>peer_addr = (V4 0, 0), channel_binding = replicate 32 7, challenge = None\<rparr> = Ready (Allow ''al'')"
  (is "\<exists>header. verdict (parse_authorization _ (\<lambda>_. Inr ?tok)) (Registry_new [PubkeyBackend ?env] _ _) _ ?conn = _")
proof -
  let ?lib = "\<lparr>ssh_random = Some (), ssh_private_openssh = (\<lambda>_. Some ''P''), ssh_public_openssh = (\<lambda>_. Some ''ssh-ed25519 k'')\<rparr>"
  let ?g = "run_keygen \<lparr>kg_dirs = (\<lambda>_. True), kg_opens = (\<lambda>_. True), kg_fails = Map.empty\<rparr> ?lib Map.empty (Some ''id'') (Some ''c'') Map.empty"
  have g: "?g = (Inr ''ssh-ed25519 k'', snd ?g)" by (simp add: run_keygen_def keygen_output_def generate_keypair_def ok_or_def Let_def)
  have u: "utf8_valid (as_bytes ((''#'' @ [CHR 0x0A]) @ ''ssh-ed25519 k'' @ [CHR 0x0A]))" by code_simp
  have "\<exists>header. build_authorization nibble_encode (build_token nibble_encode (\<lambda>t. if t = ?tok then Inr [5] else Inl ()) (\<lambda>_ _. replicate 64 1)
          (\<lambda>_. [1]) (\<lambda>_. Some (Some ())) 9) Map.empty (\<lambda>p. map_option (as_bytes \<circ> snd) (snd ?g p)) None ''al'' (Some ''id'') (channel_binding ?conn)
        = Some (Inr header)
      \<and> verdict (parse_authorization nibble_decode (\<lambda>_. Inr ?tok))
          (Registry_new [PubkeyBackend ?env] 0 \<lparr>allow_users = [], deny_users = []\<rparr>) (Some header) ?conn = Ready (Allow ''al'')"
    by (rule generated_key_logs_in [where env = ?env and before = "''#'' @ [CHR 0x0A]" and pre = "[]" and post = "[]", OF g _ _ _ _ _ _ nibble_base64_law])
      (use u in \<open>auto simp: keygen_output_def keygen_comment_def unwrap_or_def ends_line_def MAX_AUTHORIZED_KEYS_BYTES_def abs_diff64_def
        TIMESTAMP_WINDOW_SECS_def Registry_new_def permits_def split: if_splits\<close>)
  then show ?thesis by blast
qed

end
