(* ===== verification/Spec2Isabelle.thy ===== *)
theory Spec2Isabelle
  imports Rpc Login Dev_Session Client_Main Access_Spec System Handshake Keygen
begin

text \<open>
  Verification of \<^verbatim>\<open>quish\<close>, a remote shell over HTTP/3.

  \<^bold>\<open>The program.\<close>  A client (\<^verbatim>\<open>quish-client\<close>) opens a QUIC connection to a server (\<^verbatim>\<open>quish-server\<close>), checks the
  server's certificate against the web PKI or a pinned fingerprint, and opens channels by Extended
  CONNECT requests that carry credentials.  A channel is a shell, a command, a file transfer or a TCP
  forward, and consists of length-prefixed frames (\<^verbatim>\<open>quish-proto\<close>).  The server is three kinds of
  process.  The \<^emph>\<open>worker\<close> talks to the network, in a chroot, as an unprivileged user and under a system
  call filter.  The \<^emph>\<open>monitor\<close> runs as root, holds the host key, authenticates (\<^verbatim>\<open>quish-auth\<close>) and, when the
  worker asks, spawns a \<^emph>\<open>session helper\<close>, which takes on the authenticated user and executes a shell or
  reads or writes a file.  A development mode does all of it in one process.

  \<^bold>\<open>Conventions.\<close>  A function that may fail returns a sum with \<open>Inl\<close> for its errors, one that may not
  return a \<open>poll\<close> with \<open>Pending\<close>.  Strings are lists of UTF-8 bytes, machine integers are words, instants
  and durations are natural numbers of nanoseconds.  Code that the repository only calls is an argument of
  the definitions that call it, or a field of a record of functions: the codecs (\<^verbatim>\<open>postcard\<close>, \<^verbatim>\<open>base64\<close>,
  \<^verbatim>\<open>base32\<close>), the cryptography, PAM, the parsers of TOML, JWT, SSH keys, URIs and the command line, the
  kernel, the network, the clock.  What a property needs of them is among its hypotheses.  The functions of
  Rust's standard library are defined, in \<open>Rust_Str\<close>, \<open>Rust_Net\<close>, \<open>Rust_Utf8\<close> and \<open>Rust_Path\<close>; \<open>Prelude\<close> has the
  result type, the words and the collections of rewrite rules.

  \<^bold>\<open>Protocol\<close> (\<^verbatim>\<open>quish-proto/src/lib.rs\<close>).  \<open>Proto\<close> has the messages and the codec.  \<open>Frames\<close> has the readers that
  reassemble frames, of server and client; the locale \<open>framing\<close> says what they need of \<^verbatim>\<open>take_frame\<close>, and its
  lemmas give the round trip for any cutting of the stream, the bound on the buffer and the finality of a
  frame that announces too much.

  \<^bold>\<open>Authentication\<close> (\<^verbatim>\<open>quish-auth\<close>).  \<open>Auth\<close> has credentials, the user policy and the registry.  The locale
  \<open>auth_backend\<close> is the promise that a backend lets in only on evidence; it is interpreted for the password,
  public key, JWT, PAM and second-factor backends (\<open>Auth\<close>, \<open>Pubkey\<close>, \<open>Oidc\<close>, \<open>Pam\<close>, \<open>Totp\<close>), and \<open>Registry_Build\<close>
  puts them together as \<^verbatim>\<open>build_registry\<close> of \<^verbatim>\<open>monitor.rs\<close> does.  The properties: a token counts on one
  connection only, two factors are both needed, a first round says nothing of its factor.

  \<^bold>\<open>Server, privileged side\<close> (\<^verbatim>\<open>monitor.rs\<close>, \<^verbatim>\<open>ipc.rs\<close>, \<^verbatim>\<open>privdrop.rs\<close>).  \<open>Ipc\<close> has the messages between the
  processes.  \<open>Monitor\<close> has the state of the monitor as a record, one handler per request, and \<open>mon_run\<close>, its runs
  as an inductive relation; the locale \<open>conn_index\<close> is the contract of its session index.  Lemmas by rule
  induction on runs: whom a connection belongs to, what closing it ends, that PAM sessions are closed as
  often as opened.  \<open>Access_Spec\<close> says what the monitor promises without its tables and handlers, who is
  logged in on a connection and whose processes run for it, and shows that every turn of the monitor
  simulates a step of that specification.  \<open>Privdrop\<close> has the credential changes over a kernel that is a parameter (\<open>posix_ids\<close> is what
  POSIX promises of it) and the four helpers.  \<open>Sign\<close> has the signing thread with its token bucket and the
  worker's proxy for it.  \<open>Challenges\<close> has the store of pending challenges, an instance of the locale
  \<open>claim_store\<close> (entries belong to a connection and are claimed once).  \<open>Server_Config\<close> has the merge of
  settings, the host key, the start of monitor and worker and the system call filter.

  \<^bold>\<open>Server, network side\<close> (\<^verbatim>\<open>transport.rs\<close>, \<^verbatim>\<open>ratelimit.rs\<close>, \<^verbatim>\<open>worker.rs\<close>, \<^verbatim>\<open>session.rs\<close>).  \<open>Ratelimit\<close> and
  \<open>Transport\<close> have the limits per address and the handling of a request; the endpoint and a connection are
  step relations.  \<open>Endpoints\<close> has the QUIC and TLS configuration of both kinds of server, over a record of
  what quinn, rustls and rcgen do with it.  \<open>Worker\<close> has the client stubs of the monitor, proved against the locale \<open>monitor_service\<close>,
  which the monitor's handlers satisfy, and the dispatch of channels; \<open>Rpc\<close> has the control socket under
  concurrent calls.  \<open>Session\<close> has the pumps between a process or a socket and a channel as step relations,
  whose steps are the branches of the code's \<^verbatim>\<open>select!\<close> loops, and the table of parked connections, a second
  \<open>claim_store\<close>.  \<open>Worker_Run\<close> has what the worker does around a pump, \<open>Dev_Session\<close> the development mode.
  \<open>System\<close> interleaves the steps of endpoint, monitor and parking table in any order and shows that no
  connection inherits anything from another.

  \<^bold>\<open>Client\<close> (\<^verbatim>\<open>quish-client\<close>).  \<open>Known_Hosts\<close> has the pinning of host keys (locale \<open>pin_store\<close>),
  \<open>Client_Endpoint\<close> the verifier and the endpoint it belongs to.  \<open>Client_Target\<close>
  has targets, forwards, the configuration file and key generation, \<open>Client_Channel\<close> the opening of a channel
  with its challenge rounds, \<open>Terminal\<close> the pump of a shell or command, \<open>Client_Forward\<close> the forwards, \<open>Client_Cp\<close>
  the copying of files and \<open>Client_Main\<close> the program around them.

  \<^bold>\<open>Across processes.\<close>  \<open>Login\<close> runs the client's challenge rounds against the server's request handler,
  with the registry in the same process or in the monitor: right factors get in, and refusals look the same
  whatever they are for.  \<open>Terminal\<close> runs the client's pump against the server's for a shell or a command, \<open>Client_Forward\<close> for a forward, both
  through the locale \<open>relay\<close>, the promise of all the server's pumps.  \<open>Copy\<close> follows a file from the client
  through worker and monitor to the helper and back, \<open>Client_Main\<close> a command from the words typed to the
  program executed, \<open>Keygen\<close> a key from its generation to the login with it.  \<open>Handshake\<close> follows the host key
  from the monitor's file through the worker's endpoint and the signing proxy to the client's checks,
  over a restart of the server.  This theory shows that whoever the monitor takes a connection for
  has proved it, with both factors where two are asked for.

  \<^bold>\<open>Bounds.\<close>  No definition uses fuel: loops are structural recursion on what is read, or functions with a
  termination proof on a length.  A list of events that runs out stands for a wait (\<open>Pending\<close>), and loops
  that may go on for ever are step relations, with a measure that every step decreases where they end.
  Counters keep their width; where a property needs a counter not to wrap, its hypothesis says so
  (connection identifiers up to 2^64).

  \<^bold>\<open>Not modelled.\<close>  What the QUIC, TLS, HTTP/3 and cryptographic crates do inside; their configuration is,
  and what is needed of them is a hypothesis.  The random sources; logging; packaging; tests and the fuzz
  target.  The queues between tasks are unbounded, except
  where a full one matters (\<open>transfer\<close> of \<open>Session\<close>).  Futures that are dropped before they end are modelled
  for the control socket only (\<open>Rpc\<close>).  File names are byte strings, without the replacement characters
  the client puts in for invalid UTF-8.
\<close>

subsection \<open>Lemmas across the monitor and the backends\<close>

text \<open>A run of the monitor in which every turn consults the registry it was built with; \<open>au\<close> gives
  what the backends read during a turn.\<close>

definition uses_registry ::
  "(string option \<Rightarrow> Credentials option) \<Rightarrow> bool \<Rightarrow> UserPolicy \<Rightarrow> OidcConfig option \<Rightarrow> (served \<Rightarrow> ('jwk, 'key) AuthEnv) \<Rightarrow> served list \<Rightarrow> bool" where
  "uses_registry parse totp pol oidc au tr \<longleftrightarrow>
     (\<forall>s \<in> set tr. mon_verdict (sv_env s) = verdict parse (build_registry totp pol oidc (au s)))"

text \<open>A connection with a binding.  Of the connection, the evidence of a key, a JWT or a password uses
  nothing else.\<close>

definition bound_conn :: "byte list \<Rightarrow> ConnInfo" where
  "bound_conn b = \<lparr>peer_addr = (V4 0, 0), channel_binding = b, challenge = None\<rparr>"

lemma evidence_bound_conn:
  assumes "channel_binding conn = b"
  shows "pubkey_evidence pe conn creds u \<longleftrightarrow> pubkey_evidence pe (bound_conn b) creds u"
    "oidc_evidence cfg oe conn creds u \<longleftrightarrow> oidc_evidence cfg oe (bound_conn b) creds u"
    "pam_evidence lib conn creds u \<longleftrightarrow> pam_evidence lib (bound_conn b) creds u"
  using assms by (simp_all add: pubkey_evidence_def oidc_evidence_def pam_evidence_def bound_conn_def)

text \<open>The answer starts with a code that is valid for \<open>u\<close> at this time: of \<open>u\<close>'s secret, or of the empty key
  where \<open>u\<close> has none.\<close>

definition valid_code :: "TotpEnv \<Rightarrow> ChallengeAnswer \<Rightarrow> string \<Rightarrow> bool" where
  "valid_code te a u \<longleftrightarrow> (\<exists>r rs code. responses a = r # rs \<and> parse_u32 (trim r) = Some code
     \<and> verify_at (hmac_sha1 te) (case secret_for te u of Some s \<Rightarrow> s | None \<Rightarrow> []) code (now_unix te))"

text \<open>The turn answered \<open>c\<close> with a challenge of this token after PAM had accepted \<open>u\<close>'s password.\<close>

definition challenged_after_password ::
  "(string option \<Rightarrow> Credentials option) \<Rightarrow> (served \<Rightarrow> ('jwk, 'key) AuthEnv) \<Rightarrow> conn_id \<Rightarrow> string \<Rightarrow> string \<Rightarrow> served \<Rightarrow> bool" where
  "challenged_after_password parse au c u tok s \<longleftrightarrow> (\<exists>auth peer b ans ps creds lib.
     sv_req s = Authenticate c auth peer b ans \<and> sv_resp s = ChallengeR \<lparr>chal_token = tok, prompts = ps\<rparr>
   \<and> parse auth = Some creds \<and> ae_pam (au s) = Some lib \<and> pam_evidence lib (bound_conn b) creds u)"

lemma parks_after_password:
  assumes "uses_registry parse totp pol oidc au tr" "s \<in> set tr" "parks s c cst" "pending_user cst = Some u"
  shows "challenged_after_password parse au c u (token cst) s"
proof -
  from assms(3) obtain auth peer b ans conn ps where req: "sv_req s = Authenticate c auth peer b ans"
    and tc: "turn_conn peer b ans conn" and v: "mon_verdict (sv_env s) auth conn = Ready (ChallengeV cst ps)"
    and resp: "sv_resp s = ChallengeR \<lparr>chal_token = token cst, prompts = ps\<rparr>"
    unfolding parks_def by blast
  have "mon_verdict (sv_env s) = verdict parse (build_registry totp pol oidc (au s))"
    using assms(1,2) by (simp add: uses_registry_def)
  from build_registry_challenge [OF v [unfolded this] assms(4)] obtain lib creds where
    "ae_pam (au s) = Some lib" "parse auth = Some creds" "pam_evidence lib conn creds u" by blast
  moreover have "channel_binding conn = b" using tc by (simp add: turn_conn_def)
  ultimately have "ae_pam (au s) = Some lib" "parse auth = Some creds" "pam_evidence lib (bound_conn b) creds u"
    using evidence_bound_conn(3) by blast+
  with req resp show ?thesis unfolding challenged_after_password_def by blast
qed

text \<open>A second factor that let \<open>u\<close> in: the answer's code was valid, and the answer echoes a challenge that
  followed \<open>u\<close>'s password.\<close>

lemma second_factor_answered:
  assumes reg: "uses_registry parse totp pol oidc au tr" "set earlier \<subseteq> set tr"
    and tc: "turn_conn peer b ans conn" and ev: "totp_evidence te conn creds u"
    and iss: "\<And>r. challenge conn = Some r \<Longrightarrow> \<exists>t. issued earlier c (cr_state r) t \<and> now - t \<le> CHALLENGE_TTL"
  shows "\<exists>a mid s' rest. ans = Some a \<and> valid_code te a u \<and> earlier = mid @ s' # rest
    \<and> challenged_after_password parse au c u (ans_token a) s' \<and> (\<forall>y \<in> set mid. spares_challenge c y)
    \<and> now - mon_done (sv_env s') \<le> CHALLENGE_TTL"
proof -
  from ev obtain resp r rs code where resp: "challenge conn = Some resp" "pending_user (cr_state resp) = Some u"
    and r: "cr_responses resp = r # rs" "parse_u32 (trim r) = Some code"
      "verify_at (hmac_sha1 te) (case secret_for te u of Some s \<Rightarrow> s | None \<Rightarrow> []) code (now_unix te)"
    unfolding totp_evidence_def by blast
  from tc resp(1) obtain a where a: "ans = Some a" "cr_responses resp = responses a" "token (cr_state resp) = ans_token a"
    unfolding turn_conn_def by blast
  from iss [OF resp(1)] obtain mid s' rest where i: "earlier = mid @ s' # rest" "parks s' c (cr_state resp)"
    "now - mon_done (sv_env s') \<le> CHALLENGE_TTL" "\<forall>y \<in> set mid. spares_challenge c y"
    unfolding issued_def by blast
  have "challenged_after_password parse au c u (ans_token a) s'"
    using parks_after_password [OF reg(1) _ i(2) resp(2)] reg(2) i(1) a(3) by auto
  moreover have "valid_code te a u" using r a(2) unfolding valid_code_def by metis
  ultimately show ?thesis using a(1) i by blast
qed

subsection \<open>Properties\<close>

text \<open>C1: whoever the monitor holds as the user of a connection is permitted by the operator's policy
  and proved to be that user in a turn of that same connection, which was not closed since: by a
  signature over the connection's channel binding under a key listed in the user's file, by a JWT of the
  configured issuer, by a password PAM accepted, or, with the second factor on, by a code valid for that
  user at that time, in answer to a challenge.  The answer carries the token of a challenge the same
  connection had been sent in an earlier turn, at most a minute before and not answered since, after PAM had
  accepted that same user's password.  A code is one of the user's secret, or of the empty key if the user
  has none.\<close>

theorem bound_identity_was_proved:
  assumes run: "mon_run st tr" and reg: "uses_registry parse totp pol oidc au tr" and user: "users st c = Some u"
  shows "permits pol u \<and> (\<exists>later s earlier auth peer b ans creds.
      tr = later @ s # earlier \<and> (\<forall>y \<in> set later. sv_req y \<noteq> Close c)
    \<and> sv_req s = Authenticate c auth peer b ans \<and> sv_resp s = VerdictR True \<and> parse auth = Some creds
    \<and> (pubkey_evidence (pubkey_env (au s)) (bound_conn b) creds u
       \<or> (\<exists>cfg. oidc = Some cfg \<and> oidc_evidence cfg (ae_oidc (au s)) (bound_conn b) creds u)
       \<or> (\<not> totp \<and> (\<exists>lib. ae_pam (au s) = Some lib \<and> pam_evidence lib (bound_conn b) creds u))
       \<or> (totp \<and> (\<exists>a mid s' rest. ans = Some a \<and> valid_code (totp_env (au s)) a u \<and> earlier = mid @ s' # rest
            \<and> challenged_after_password parse au c u (ans_token a) s' \<and> (\<forall>y \<in> set mid. spares_challenge c y)
            \<and> mon_now (sv_env s) - mon_done (sv_env s') \<le> CHALLENGE_TTL))))"
proof -
  from users_provenance [OF run user] obtain later s earlier auth peer b ans conn where tr: "tr = later @ s # earlier"
    and l: "\<forall>y \<in> set later. sv_req y \<noteq> Close c" and req: "sv_req s = Authenticate c auth peer b ans" "sv_resp s = VerdictR True"
    and tc: "turn_conn peer b ans conn" and v: "mon_verdict (sv_env s) auth conn = Ready (Allow u)"
    and iss: "\<And>r. challenge conn = Some r \<Longrightarrow> \<exists>t. issued earlier c (cr_state r) t \<and> mon_now (sv_env s) - t \<le> CHALLENGE_TTL"
    by blast
  have "mon_verdict (sv_env s) = verdict parse (build_registry totp pol oidc (au s))"
    using reg tr by (simp add: uses_registry_def)
  with v have "verdict parse (build_registry totp pol oidc (au s)) auth conn = Ready (Allow u)" by simp
  then have "permits (policy (build_registry totp pol oidc (au s))) u
      \<and> (\<exists>creds. parse auth = Some creds \<and> login_evidence totp oidc (au s) conn creds u)"
    by (rule verdict_Allow_sound) (rule build_registry_sound)
  then obtain creds where pm: "permits pol u" and cr: "parse auth = Some creds" and ev: "login_evidence totp oidc (au s) conn creds u" by auto
  have b: "channel_binding conn = b" using tc by (simp add: turn_conn_def)
  have sub: "set earlier \<subseteq> set tr" using tr by auto
  note second = second_factor_answered [OF reg sub tc, of "totp_env (au s)" creds u c "mon_now (sv_env s)", OF _ iss]
  have "pubkey_evidence (pubkey_env (au s)) (bound_conn b) creds u
       \<or> (\<exists>cfg. oidc = Some cfg \<and> oidc_evidence cfg (ae_oidc (au s)) (bound_conn b) creds u)
       \<or> (\<not> totp \<and> (\<exists>lib. ae_pam (au s) = Some lib \<and> pam_evidence lib (bound_conn b) creds u))
       \<or> (totp \<and> (\<exists>a mid s' rest. ans = Some a \<and> valid_code (totp_env (au s)) a u \<and> earlier = mid @ s' # rest
            \<and> challenged_after_password parse au c u (ans_token a) s' \<and> (\<forall>y \<in> set mid. spares_challenge c y)
            \<and> mon_now (sv_env s) - mon_done (sv_env s') \<le> CHALLENGE_TTL))"
    using ev second unfolding login_evidence_def evidence_bound_conn [OF b] by blast
  with pm tr l req cr show ?thesis by blast
qed

text \<open>A login with both factors at the monitor: the password, then a code.\<close>

definition demo_answer :: ChallengeAnswer where
  "demo_answer = \<lparr>ans_token = ''01'', responses = [demo_code 0]\<rparr>"

definition demo_mon :: MonEnv where
  "demo_mon = demo_env\<lparr>mon_verdict := verdict (map_option (\<lambda>pw. Password ''al'' pw))
     (build_registry True demo_policy None (demo_enrolled 0))\<rparr>"

definition demo_pending :: State where
  "demo_pending = State_default\<lparr>challenges := [1 \<mapsto> (\<lparr>token = ''01'', pending_user = Some ''al''\<rparr>, 0)]\<rparr>"

definition demo_login :: "served list" where
  "demo_login =
    [\<lparr>sv_env = demo_mon, sv_req = Authenticate 1 (Some ''x'') [] [] (Some demo_answer), sv_resp = VerdictR True, sv_fds = [], sv_eff = []\<rparr>,
     \<lparr>sv_env = demo_mon, sv_req = Authenticate 1 (Some ''x'') [] [] None,
      sv_resp = ChallengeR \<lparr>chal_token = ''01'', prompts = [\<lparr>message = totp_prompt, echo = False\<rparr>]\<rparr>, sv_fds = [], sv_eff = []\<rparr>]"

lemma demo_login_run: "mon_run (State_default\<lparr>users := [1 \<mapsto> ''al'']\<rparr>) demo_login"
proof -
  let ?te = "totp_env (demo_enrolled 0)" and ?lib = "the (pam_lib demo_env)"
  let ?st = "\<lparr>token = ''01'', pending_user = Some ''al''\<rparr>"
  have fnd: "find (\<lambda>b. supports b (Password ''al'' ''x'')) (backends (build_registry True demo_policy None (demo_enrolled 0)))
      = Some (TotpBackend (PamBackend ?lib) ?te)"
    by (rule monitor_registry_two_factor) (simp add: demo_enrolled_def demo_auth_def demo_env_def)
  have pm: "permits (policy (build_registry True demo_policy None (demo_enrolled 0))) ''al''"
    by (simp add: build_registry_def Registry_new_def demo_policy_def permits_def)
  have tok: "new_token ?te = ''01''"
  proof -
    have "concat (map hex_byte [1]) = ''01''" by code_simp
    then show ?thesis by (simp add: new_token_def totp_env_def demo_enrolled_def)
  qed
  have "bk_authenticate (TotpBackend (PamBackend ?lib) ?te) conn (Password ''al'' ''x'')
      = Ready (ChallengeV ?st [\<lparr>message = totp_prompt, echo = False\<rparr>])" if "challenge conn = None" for conn
    using that by (simp add: TotpBackend_def totp_authenticate_def open_challenge_def tok PamBackend_def pam_backend_authenticate_def demo_env_def)
  from find_verdict [OF _ fnd this] have "mon_verdict demo_mon (Some ''x'') conn
      = Ready (ChallengeV ?st [\<lparr>message = totp_prompt, echo = False\<rparr>])" if "challenge conn = None" for conn
    using that by (simp add: demo_mon_def)
  then have "handle demo_mon State_default (Authenticate 1 (Some ''x'') [] [] None)
      = Ready (demo_pending, ChallengeR \<lparr>chal_token = ''01'', prompts = [\<lparr>message = totp_prompt, echo = False\<rparr>]\<rparr>, [], [])"
    by (simp add: handle_authenticate_def auth_conn_info_def demo_pending_def State_default_def cs_insert_def)
       (simp add: demo_mon_def demo_env_def)
  from mon_run.Serve [OF mon_run.Start this] have r1: "mon_run demo_pending (tl demo_login)" by (simp add: demo_login_def)
  have "verify_at (hmac_sha1 ?te) [7] (current_code (hmac_sha1 ?te) 0 [7]) (now_unix ?te)"
    by (rule verify_at_near) (simp_all add: totp_env_def demo_enrolled_def)
  then have "complete ?te (ChallengeResponse_new ?st [demo_code 0]) = Allow ''al''"
    using demo_enrolled_secret [of 0]
    by (simp add: complete_Allow_iff ChallengeResponse_new_def demo_code_def parse_u32_show_nat)
       (simp add: totp_env_def demo_enrolled_def)
  then have "bk_authenticate (TotpBackend (PamBackend ?lib) ?te) conn (Password ''al'' ''x'') = Ready (Allow ''al'')"
    if "challenge conn = Some (ChallengeResponse_new ?st [demo_code 0])" for conn
    using that by (simp add: TotpBackend_def totp_authenticate_def)
  from find_verdict [OF _ fnd this] have "mon_verdict demo_mon (Some ''x'') conn = Ready (Allow ''al'')"
    if "challenge conn = Some (ChallengeResponse_new ?st [demo_code 0])" for conn
    using that pm by (simp add: demo_mon_def)
  moreover have "mon_now demo_mon = 0" by (simp add: demo_mon_def demo_env_def)
  ultimately have "handle demo_mon demo_pending (Authenticate 1 (Some ''x'') [] [] (Some demo_answer))
      = Ready (State_default\<lparr>users := [1 \<mapsto> ''al'']\<rparr>, VerdictR True, [], [])"
    by (simp add: handle_authenticate_def auth_conn_info_def demo_pending_def State_default_def cs_take_def demo_answer_def)
  from mon_run.Serve [OF r1 this] show ?thesis by (simp add: demo_login_def)
qed

lemma bound_identity_was_proved_witness:
  "mon_run (State_default\<lparr>users := [1 \<mapsto> ''al'']\<rparr>) demo_login \<and> permits demo_policy ''al''
   \<and> (\<exists>s earlier. demo_login = s # earlier \<and> valid_code (totp_env (demo_enrolled 0)) demo_answer ''al''
     \<and> (\<exists>s' \<in> set earlier. challenged_after_password (map_option (\<lambda>pw. Password ''al'' pw)) (\<lambda>_. demo_enrolled 0) 1 ''al'' ''01'' s'))"
proof -
  have reg: "uses_registry (map_option (\<lambda>pw. Password ''al'' pw)) True demo_policy None (\<lambda>_. demo_enrolled 0) demo_login"
    by (simp add: uses_registry_def demo_login_def demo_mon_def)
  have user: "users (State_default\<lparr>users := [1 \<mapsto> ''al'']\<rparr>) 1 = Some ''al''" by simp
  note t = bound_identity_was_proved [OF demo_login_run reg user]
  from t obtain later s earlier auth peer b ans creds where tr: "demo_login = later @ s # earlier"
    and req: "sv_req s = Authenticate 1 auth peer b ans" "sv_resp s = VerdictR True"
    and cr: "map_option (\<lambda>pw. Password ''al'' pw) auth = Some creds"
    and ev: "pubkey_evidence (pubkey_env (demo_enrolled 0)) (bound_conn b) creds ''al''
       \<or> (\<exists>cfg. None = Some cfg \<and> oidc_evidence cfg (ae_oidc (demo_enrolled 0)) (bound_conn b) creds ''al'')
       \<or> (\<not> True \<and> (\<exists>lib. ae_pam (demo_enrolled 0) = Some lib \<and> pam_evidence lib (bound_conn b) creds ''al''))
       \<or> (True \<and> (\<exists>a mid s' rest. ans = Some a \<and> valid_code (totp_env (demo_enrolled 0)) a ''al'' \<and> earlier = mid @ s' # rest
            \<and> challenged_after_password (map_option (\<lambda>pw. Password ''al'' pw)) (\<lambda>_. demo_enrolled 0) 1 ''al'' (ans_token a) s'
            \<and> (\<forall>y \<in> set mid. spares_challenge 1 y)
            \<and> mon_now (sv_env s) - mon_done (sv_env s') \<le> CHALLENGE_TTL))"
    by (elim conjE exE) (rule that)
  from tr req have "later = []" "ans = Some demo_answer"
    by (auto simp: demo_login_def Cons_eq_append_conv)
  moreover have "\<not> pubkey_evidence (pubkey_env (demo_enrolled 0)) (bound_conn b) creds ''al''"
    using cr by (auto simp: pubkey_evidence_def)
  ultimately have "valid_code (totp_env (demo_enrolled 0)) demo_answer ''al''
      \<and> (\<exists>s' \<in> set earlier. challenged_after_password (map_option (\<lambda>pw. Password ''al'' pw)) (\<lambda>_. demo_enrolled 0) 1 ''al'' ''01'' s')"
    using ev by (auto simp: demo_answer_def)
  moreover have "demo_login = s # earlier" using tr \<open>later = []\<close> by simp
  ultimately show ?thesis using demo_login_run conjunct1 [OF t] by blast
qed

end
